(* ===== verification/Py_Prelude.thy ===== *)
theory Py_Prelude
  imports Main "HOL-Library.Sublist"
begin

text \<open>
  Shared vocabulary of the development: the lemma collections the component theories
  add to, the type names of the model, and facts about lists that are independent of
  the program (trimming a list at its end, the last position of an element, filters
  under trimming). Nothing here models a line of the program.
\<close>

section \<open>Collections\<close>

named_theorems py_unfold
  \<open>definitions of the modelled Python primitives, unfolded to evaluate closed terms\<close>

named_theorems py_length
  \<open>length bounds of the string primitives, used in termination and bound proofs\<close>

named_theorems py_keep
  \<open>facts saying which characters an operation keeps\<close>

section \<open>Types of the model\<close>

text \<open>
  A Python \<open>str\<close> is a list of characters. The characters of the model are the 256
  values of \<^typ>\<open>char\<close>, read as the code points 0 to 255; text with other code
  points is outside the model.
\<close>

type_synonym pystr = string

abbreviation (input) newline :: char where
  "newline \<equiv> CHR 0x0A"

abbreviation (input) space :: char where
  "space \<equiv> CHR 0x20"

section \<open>Trimming a list at its end\<close>

definition rdropWhile :: "('a \<Rightarrow> bool) \<Rightarrow> 'a list \<Rightarrow> 'a list" where
  "rdropWhile P xs = rev (dropWhile P (rev xs))"

lemma rdropWhile_Nil [simp]: "rdropWhile P [] = []"
  by (simp add: rdropWhile_def)

lemma rdropWhile_snoc [simp]:
  "rdropWhile P (xs @ [x]) = (if P x then rdropWhile P xs else xs @ [x])"
  by (simp add: rdropWhile_def)

lemma prefix_rdropWhile: "prefix (rdropWhile P xs) xs"
  by (induction xs rule: rev_induct) (auto intro: prefix_order.order_trans)

lemma length_rdropWhile_le [py_length]: "length (rdropWhile P xs) \<le> length xs"
  by (simp add: rdropWhile_def length_dropWhile_le [of P "rev xs", simplified])

lemma rdropWhile_eq_Nil_conv [simp]: "rdropWhile P xs = [] \<longleftrightarrow> (\<forall>x\<in>set xs. P x)"
  by (simp add: rdropWhile_def)

lemma last_rdropWhile: "rdropWhile P xs \<noteq> [] \<Longrightarrow> \<not> P (last (rdropWhile P xs))"
  by (induction xs rule: rev_induct) auto

lemma hd_rdropWhile: "xs \<noteq> [] \<Longrightarrow> \<not> P (hd xs) \<Longrightarrow> hd (rdropWhile P xs) = hd xs"
  by (induction xs rule: rev_induct) (auto simp: hd_append)

lemma rdropWhile_neq_Nil: "xs \<noteq> [] \<Longrightarrow> \<not> P (hd xs) \<Longrightarrow> rdropWhile P xs \<noteq> []"
  by (cases xs) auto

lemma rdropWhile_idem [simp]: "rdropWhile P (rdropWhile P xs) = rdropWhile P xs"
  by (simp add: rdropWhile_def)

lemma rdropWhile_id: "xs = [] \<or> \<not> P (last xs) \<Longrightarrow> rdropWhile P xs = xs"
  by (induction xs rule: rev_induct) auto

lemma set_rdropWhile_subset: "set (rdropWhile P xs) \<subseteq> set xs"
  using set_mono_prefix [OF prefix_rdropWhile] .

section \<open>Filters under trimming\<close>

lemma filter_dropWhile_not [py_keep]:
  "filter (\<lambda>x. \<not> P x) (dropWhile P xs) = filter (\<lambda>x. \<not> P x) xs"
  by (induction xs) auto

lemma filter_rdropWhile_not [py_keep]:
  "filter (\<lambda>x. \<not> P x) (rdropWhile P xs) = filter (\<lambda>x. \<not> P x) xs"
  by (induction xs rule: rev_induct) auto

lemma filter_not_eq_Nil_iff: "filter (\<lambda>x. \<not> P x) xs = [] \<longleftrightarrow> (\<forall>x\<in>set xs. P x)"
  by (induction xs) auto

section \<open>The last position of an element\<close>

fun find_last :: "'a \<Rightarrow> 'a list \<Rightarrow> nat option" where
  "find_last c [] = None"
| "find_last c (x # xs) =
     (case find_last c xs of
        Some i \<Rightarrow> Some (Suc i)
      | None \<Rightarrow> if x = c then Some 0 else None)"

lemma find_last_None_iff: "find_last c xs = None \<longleftrightarrow> c \<notin> set xs"
  by (induction xs) (auto split: option.splits)

lemma find_last_absent: "c \<notin> set xs \<Longrightarrow> find_last c xs = None"
  by (simp add: find_last_None_iff)

lemma find_last_Some:
  "find_last c xs = Some i \<Longrightarrow> i < length xs \<and> xs ! i = c \<and> c \<notin> set (drop (Suc i) xs)"
  by (induction xs arbitrary: i) (auto simp: find_last_None_iff split: option.splits if_splits)

lemma find_last_append_fresh: "c \<notin> set ys \<Longrightarrow> find_last c (xs @ c # ys) = Some (length xs)"
  by (induction xs) (auto simp: find_last_None_iff split: option.splits)

lemma find_last_iff:
  "find_last c xs = Some i \<longleftrightarrow> i < length xs \<and> xs ! i = c \<and> c \<notin> set (drop (Suc i) xs)"
proof
  assume "i < length xs \<and> xs ! i = c \<and> c \<notin> set (drop (Suc i) xs)"
  then have "xs = take i xs @ c # drop (Suc i) xs" "c \<notin> set (drop (Suc i) xs)" "i < length xs"
    by (auto simp: id_take_nth_drop)
  then show "find_last c xs = Some i"
    using find_last_append_fresh [of c "drop (Suc i) xs" "take i xs"] by simp
qed (rule find_last_Some)

lemma find_last_less [py_length]: "find_last c xs = Some i \<Longrightarrow> i < length xs"
  by (simp add: find_last_Some)

lemma takeWhile_all: "\<forall>x\<in>set xs. P x \<Longrightarrow> takeWhile P xs = xs"
  by simp

lemma dropWhile_all: "\<forall>x\<in>set xs. P x \<Longrightarrow> dropWhile P xs = []"
  by simp

lemma take_append_keep:
  "k \<le> length t \<Longrightarrow> take (length (p @ t) - k) (p @ t) = p @ take (length t - k) t"
  by simp

section \<open>Lists of lists\<close>

lemma concat_snoc: "concat (xss @ [xs]) = concat xss @ xs"
  by simp

lemma list_all_update: "list_all P xs \<Longrightarrow> P x \<Longrightarrow> list_all P (xs[i := x])"
  by (auto simp: list_all_iff dest: set_update_subsetI [THEN subsetD] set_update_subset_insert [THEN subsetD])

lemma list_all_drop: "list_all P xs \<Longrightarrow> list_all P (drop k xs)"
  by (auto simp: list_all_iff dest: in_set_dropD)

lemma list_all_snoc: "list_all P (xs @ [x]) \<longleftrightarrow> list_all P xs \<and> P x"
  by auto

lemma rdropWhile_append_all: "\<forall>c\<in>set t. P c \<Longrightarrow> rdropWhile P (x @ t) = rdropWhile P x"
proof (induction t rule: rev_induct)
  case Nil
  show ?case by simp
next
  case (snoc c t)
  then show ?case using rdropWhile_snoc [of P "x @ t" c] by simp
qed

end
