(* ===== verification/Py_String.thy ===== *)
theory Py_String
  imports Py_Prelude
begin

text \<open>
  The methods of Python's \<open>str\<close> that the two scripts call, as functions on character
  lists: \<open>strip\<close> (with and without a character set), slicing with a signed bound,
  \<open>rfind\<close> of one character in a range, \<open>split\<close> on one character (all occurrences,
  or the first only), \<open>join\<close>, \<open>replace\<close> and \<open>startswith\<close>. Each is followed by the
  facts the components need: what it keeps, how long its result is, when it is the
  identity. The definitions are executable; \<open>py_unfold\<close> evaluates them on literals.
\<close>

section \<open>Whitespace and \<open>strip\<close>\<close>

text \<open>
  \<open>str.isspace\<close> on the code points below 256: tab to carriage return, the four
  separators 28 to 31, the space, NEL (133) and the no-break space (160).
\<close>

definition py_isspace :: "char \<Rightarrow> bool" where
  "py_isspace c = (let n = (of_char c :: nat) in
     (9 \<le> n \<and> n \<le> 13) \<or> (28 \<le> n \<and> n \<le> 32) \<or> n = 133 \<or> n = 160)"

definition lstrip :: "pystr \<Rightarrow> pystr" where
  "lstrip s = dropWhile py_isspace s"

definition rstrip :: "pystr \<Rightarrow> pystr" where
  "rstrip s = rdropWhile py_isspace s"

definition strip :: "pystr \<Rightarrow> pystr" where
  "strip s = rstrip (lstrip s)"

text \<open>\<open>s.strip(cs)\<close>: the characters of \<open>cs\<close> are removed from both ends.\<close>

definition strip_chars :: "pystr \<Rightarrow> pystr \<Rightarrow> pystr" where
  "strip_chars s cs = rdropWhile (\<lambda>c. c \<in> set cs) (dropWhile (\<lambda>c. c \<in> set cs) s)"

section \<open>Slices\<close>

text \<open>
  A slice bound \<open>i\<close> on a sequence of length \<open>n\<close>: a negative bound counts from the
  end, and every bound is clamped to \<open>0..n\<close>. \<open>py_take i s\<close> is \<open>s[:i]\<close> and
  \<open>py_drop i s\<close> is \<open>s[i:]\<close>.
\<close>

definition slice_bound :: "int \<Rightarrow> nat \<Rightarrow> nat" where
  "slice_bound i n = (if i < 0 then nat (int n + i) else min (nat i) n)"

definition py_take :: "int \<Rightarrow> 'a list \<Rightarrow> 'a list" where
  "py_take i s = take (slice_bound i (length s)) s"

definition py_drop :: "int \<Rightarrow> 'a list \<Rightarrow> 'a list" where
  "py_drop i s = drop (slice_bound i (length s)) s"

section \<open>\<open>rfind\<close>\<close>

text \<open>
  \<open>s.rfind(c, start, stop)\<close> for a one-character \<open>c\<close>: the highest index in the
  slice \<open>start..stop\<close> that holds \<open>c\<close>, or \<open>-1\<close>.
\<close>

definition rfind :: "'a list \<Rightarrow> 'a \<Rightarrow> int \<Rightarrow> int \<Rightarrow> int" where
  "rfind s c start stop =
     (let lo = slice_bound start (length s); hi = slice_bound stop (length s)
      in case find_last c (take (hi - lo) (drop lo s)) of
           None \<Rightarrow> - 1
         | Some i \<Rightarrow> int (lo + i))"

section \<open>\<open>split\<close> and \<open>join\<close>\<close>

text \<open>
  \<open>s.split(c)\<close> for a one-character separator: the pieces between the occurrences of
  \<open>c\<close>, empty pieces included, never an empty list. \<open>split_once\<close> is
  \<open>s.split(c, 1)\<close>: one piece when \<open>c\<close> does not occur, otherwise the text before
  and the text after its first occurrence.
\<close>

fun split_on :: "'a \<Rightarrow> 'a list \<Rightarrow> 'a list list" where
  "split_on c [] = [[]]"
| "split_on c (x # xs) =
     (if x = c then [] # split_on c xs
      else (case split_on c xs of
              p # ps \<Rightarrow> (x # p) # ps
            | [] \<Rightarrow> [[x]]))"

definition split_once :: "'a \<Rightarrow> 'a list \<Rightarrow> 'a list list" where
  "split_once c s =
     (case dropWhile (\<lambda>x. x \<noteq> c) s of
        [] \<Rightarrow> [s]
      | _ # rest \<Rightarrow> [takeWhile (\<lambda>x. x \<noteq> c) s, rest])"

fun join :: "'a list \<Rightarrow> 'a list list \<Rightarrow> 'a list" where
  "join sep [] = []"
| "join sep [x] = x"
| "join sep (x # y # ys) = x @ sep @ join sep (y # ys)"

section \<open>\<open>replace\<close> and \<open>startswith\<close>\<close>

text \<open>
  \<open>s.replace(old, new)\<close>: the occurrences of \<open>old\<close> are found from the left and do
  not overlap. For an empty \<open>old\<close> Python puts \<open>new\<close> before every character and at
  the end.
\<close>

function replace_scan :: "'a list \<Rightarrow> 'a list \<Rightarrow> 'a list \<Rightarrow> 'a list" where
  "replace_scan old new [] = []"
| "replace_scan old new (x # xs) =
     (if old \<noteq> [] \<and> prefix old (x # xs)
      then new @ replace_scan old new (drop (length old) (x # xs))
      else x # replace_scan old new xs)"
  by pat_completeness auto
termination
  by (relation "measure (\<lambda>(old, new, s). length s)") auto

definition replace :: "'a list \<Rightarrow> 'a list \<Rightarrow> 'a list \<Rightarrow> 'a list" where
  "replace s old new =
     (if old = [] then new @ concat (map (\<lambda>c. c # new) s) else replace_scan old new s)"

definition startswith :: "'a list \<Rightarrow> 'a list \<Rightarrow> bool" where
  "startswith s p = prefix p s"

text \<open>The decimal digits among the code points below 256 are \<open>0\<close> to \<open>9\<close>.\<close>

definition is_digit :: "char \<Rightarrow> bool" where
  "is_digit c = (c \<in> set ''0123456789'')"

declare py_isspace_def [py_unfold] lstrip_def [py_unfold] rstrip_def [py_unfold]
  strip_def [py_unfold] strip_chars_def [py_unfold] slice_bound_def [py_unfold]
  py_take_def [py_unfold] py_drop_def [py_unfold] rfind_def [py_unfold]
  split_once_def [py_unfold] replace_def [py_unfold] startswith_def [py_unfold]
  is_digit_def [py_unfold] rdropWhile_def [py_unfold]

section \<open>Facts about whitespace and \<open>strip\<close>\<close>

lemma py_isspace_space [simp]: "py_isspace space"
  by (simp add: py_isspace_def)

lemma py_isspace_newline [simp]: "py_isspace newline"
  by (simp add: py_isspace_def)

lemma strip_Nil [simp]: "strip [] = []"
  by (simp add: strip_def lstrip_def rstrip_def)

lemma length_lstrip_le [py_length]: "length (lstrip s) \<le> length s"
  by (simp add: lstrip_def length_dropWhile_le)

lemma length_rstrip_le [py_length]: "length (rstrip s) \<le> length s"
  by (simp add: rstrip_def length_rdropWhile_le)

lemma length_strip_le [py_length]: "length (strip s) \<le> length s"
  unfolding strip_def using length_rstrip_le [of "lstrip s"] length_lstrip_le [of s] by simp

lemma length_lstrip_less: "s \<noteq> [] \<Longrightarrow> py_isspace (hd s) \<Longrightarrow> length (lstrip s) < length s"
  by (cases s) (auto simp: lstrip_def intro: le_imp_less_Suc length_dropWhile_le)

lemma length_strip_less [py_length]:
  "s \<noteq> [] \<Longrightarrow> py_isspace (hd s) \<Longrightarrow> length (strip s) < length s"
  unfolding strip_def using length_rstrip_le [of "lstrip s"] length_lstrip_less [of s] by simp

lemma filter_strip [py_keep]:
  "filter (\<lambda>c. \<not> py_isspace c) (strip s) = filter (\<lambda>c. \<not> py_isspace c) s"
  by (simp add: strip_def lstrip_def rstrip_def filter_rdropWhile_not filter_dropWhile_not)

lemma sublist_strip: "sublist (strip s) s"
proof -
  have "prefix (strip s) (lstrip s)" "suffix (lstrip s) s"
    by (simp_all add: strip_def rstrip_def lstrip_def prefix_rdropWhile suffix_dropWhile)
  then show ?thesis by (auto simp: sublist_altdef')
qed

lemma subseq_strip [py_keep]: "subseq (strip s) s"
  by (rule sublist_imp_subseq [OF sublist_strip])

lemma strip_eq_Nil_iff: "strip s = [] \<longleftrightarrow> (\<forall>c\<in>set s. py_isspace c)"
proof
  assume "strip s = []"
  then have "filter (\<lambda>c. \<not> py_isspace c) (strip s) = []" by simp
  then show "\<forall>c\<in>set s. py_isspace c"
    by (simp add: filter_strip filter_not_eq_Nil_iff)
next
  assume "\<forall>c\<in>set s. py_isspace c"
  then show "strip s = []"
    by (auto simp: strip_def lstrip_def rstrip_def dest: set_dropWhileD)
qed

lemma hd_strip: "strip s \<noteq> [] \<Longrightarrow> \<not> py_isspace (hd (strip s))"
proof -
  assume ne: "strip s \<noteq> []"
  then have l: "lstrip s \<noteq> []" by (auto simp: strip_def rstrip_def)
  then have h: "\<not> py_isspace (hd (lstrip s))" unfolding lstrip_def by (rule hd_dropWhile)
  from l h show ?thesis by (simp add: strip_def rstrip_def hd_rdropWhile)
qed

lemma last_strip: "strip s \<noteq> [] \<Longrightarrow> \<not> py_isspace (last (strip s))"
  unfolding strip_def rstrip_def by (rule last_rdropWhile)

lemma strip_id:
  assumes "s = [] \<or> (\<not> py_isspace (hd s) \<and> \<not> py_isspace (last s))"
  shows "strip s = s"
proof (cases s)
  case Nil
  then show ?thesis by simp
next
  case (Cons c cs)
  with assms have "lstrip s = s" by (simp add: lstrip_def)
  with assms Cons show ?thesis by (simp add: strip_def rstrip_def rdropWhile_id)
qed

lemma strip_idem [simp]: "strip (strip s) = strip s"
proof (cases "strip s = []")
  case True
  then show ?thesis by simp
next
  case False
  then show ?thesis by (intro strip_id) (simp add: hd_strip last_strip)
qed

section \<open>Facts about slices and \<open>rfind\<close>\<close>

lemma slice_bound_le [py_length]: "slice_bound i n \<le> n"
  by (auto simp: slice_bound_def)

lemma slice_bound_nonneg [simp]: "0 \<le> i \<Longrightarrow> slice_bound i n = min (nat i) n"
  by (simp add: slice_bound_def)

lemma py_take_drop [simp]: "py_take i s @ py_drop i s = s"
  by (simp add: py_take_def py_drop_def)

lemma py_take_nat [simp]: "py_take (int k) s = take k s"
  by (simp add: py_take_def min_def)

lemma py_drop_nat [simp]: "py_drop (int k) s = drop k s"
  by (simp add: py_drop_def min_def)

lemma length_py_take_le [py_length]: "length (py_take i s) \<le> length s"
  by (simp add: py_take_def)

lemma rfind_range: "- 1 \<le> rfind s c start stop \<and> rfind s c start stop < int (length s)"
proof (cases "find_last c (take (slice_bound stop (length s) - slice_bound start (length s))
    (drop (slice_bound start (length s)) s))")
  case None
  then show ?thesis by (simp add: rfind_def Let_def)
next
  case (Some i)
  from find_last_less [OF this] show ?thesis
    using Some slice_bound_le [of start "length s"] slice_bound_le [of stop "length s"]
    by (simp add: rfind_def Let_def)
qed

text \<open>The call the segmenter makes: from index 0 up to a bound inside the string.\<close>

lemma rfind_prefix:
  "k \<le> length s \<Longrightarrow>
     rfind s c 0 (int k) = (case find_last c (take k s) of None \<Rightarrow> - 1 | Some i \<Rightarrow> int i)"
  by (cases "find_last c (take k s)")
    (simp_all add: rfind_def slice_bound_def min_def)

section \<open>Facts about \<open>split\<close> and \<open>join\<close>\<close>

lemma split_on_neq_Nil [simp]: "split_on c s \<noteq> []"
  by (induction s) (auto split: list.splits)

lemma join_split_on [simp]: "join [c] (split_on c s) = s"
proof (induction s)
  case Nil
  show ?case by simp
next
  case (Cons x s)
  obtain p ps where ps: "split_on c s = p # ps"
    by (cases "split_on c s") auto
  with Cons show ?case by (cases ps) auto
qed

lemma split_on_no_sep: "p \<in> set (split_on c s) \<Longrightarrow> c \<notin> set p"
  by (induction s arbitrary: p) (auto split: if_splits list.splits)

lemma length_split_on: "length (split_on c s) = Suc (count_list s c)"
  by (induction s) (auto split: list.splits)

lemma concat_split_on [py_keep]: "concat (split_on c s) = filter (\<lambda>x. x \<noteq> c) s"
  by (induction s) (auto split: list.splits)

lemma split_on_absent: "c \<notin> set s \<Longrightarrow> split_on c s = [s]"
  by (induction s) auto

lemma split_once_absent [simp]: "c \<notin> set s \<Longrightarrow> split_once c s = [s]"
proof -
  assume "c \<notin> set s"
  then have d: "dropWhile (\<lambda>x. x \<noteq> c) s = []" by auto
  show ?thesis unfolding split_once_def d by simp
qed

lemma split_once_present [simp]:
  "c \<notin> set a \<Longrightarrow> split_once c (a @ c # b) = [a, b]"
proof -
  assume "c \<notin> set a"
  then have "\<And>x. x \<in> set a \<Longrightarrow> x \<noteq> c" by auto
  then have d: "dropWhile (\<lambda>x. x \<noteq> c) (a @ c # b) = c # b"
    and t: "takeWhile (\<lambda>x. x \<noteq> c) (a @ c # b) = a"
    by simp_all
  show ?thesis unfolding split_once_def d t by simp
qed

lemma split_once_cases:
  obtains (absent) "c \<notin> set s" "split_once c s = [s]"
  | (present) a b where "s = a @ c # b" "c \<notin> set a" "split_once c s = [a, b]"
proof (cases "c \<in> set s")
  case True
  then obtain a b where "s = a @ c # b" "c \<notin> set a"
    by (auto dest: split_list_first)
  then show ?thesis by (auto intro: present)
next
  case False
  then show ?thesis by (auto intro: absent)
qed

lemma length_split_once: "length (split_once c s) = (if c \<in> set s then 2 else 1)"
  by (rule split_once_cases [of c s]) auto

lemma join_Cons: "join sep (x # xs) = (if xs = [] then x else x @ sep @ join sep xs)"
  by (cases xs) auto

lemma length_join:
  "length (join sep xs) = sum_list (map length xs) + (length xs - 1) * length sep"
  by (induction sep xs rule: join.induct) auto

section \<open>Facts about \<open>replace\<close> and \<open>startswith\<close>\<close>

lemma replace_scan_absent:
  "old \<noteq> [] \<Longrightarrow> \<not> sublist old s \<Longrightarrow> replace_scan old new s = s"
proof (induction s)
  case Nil
  show ?case by simp
next
  case (Cons x s)
  then have "\<not> prefix old (x # s)" "\<not> sublist old s"
    by (auto simp: sublist_Cons_right)
  with Cons show ?case by simp
qed

lemma replace_absent: "old \<noteq> [] \<Longrightarrow> \<not> sublist old s \<Longrightarrow> replace s old new = s"
  by (simp add: replace_def replace_scan_absent)

lemma replace_scan_prefix:
  "old \<noteq> [] \<Longrightarrow> replace_scan old new (old @ s) = new @ replace_scan old new s"
  by (cases old) auto

text \<open>Replacing one character by one character is a map.\<close>

lemma replace_char: "replace s [a] [b] = map (\<lambda>c. if c = a then b else c) s"
  by (induction s) (auto simp: replace_def)

lemma length_replace_char [py_length]: "length (replace s [a] [b]) = length s"
  by (simp add: replace_char)

lemma startswith_append [simp]: "startswith (p @ s) p"
  by (simp add: startswith_def)

lemma startswith_iff: "startswith s p \<longleftrightarrow> (\<exists>t. s = p @ t)"
  by (auto simp: startswith_def prefix_def)

section \<open>The characters of a result\<close>

lemma set_strip_subset: "set (strip s) \<subseteq> set s"
  by (rule set_mono_sublist [OF sublist_strip])

lemma set_strip_chars_subset: "set (strip_chars s cs) \<subseteq> set s"
  unfolding strip_chars_def
  using set_rdropWhile_subset [of "\<lambda>c. c \<in> set cs" "dropWhile (\<lambda>c. c \<in> set cs) s"]
  by (auto dest: set_dropWhileD)

lemma set_join_subset: "set (join sep xs) \<subseteq> set sep \<union> \<Union> (set ` set xs)"
  by (induction sep xs rule: join.induct) auto

lemma strip_neq_Nil: "s \<noteq> [] \<Longrightarrow> \<not> py_isspace (last s) \<Longrightarrow> strip s \<noteq> []"
  by (auto simp: strip_eq_Nil_iff)

lemma strip_fixed_ends:
  "strip s = s \<Longrightarrow> s \<noteq> [] \<Longrightarrow> \<not> py_isspace (hd s) \<and> \<not> py_isspace (last s)"
  using hd_strip [of s] last_strip [of s] by simp

section \<open>\<open>strip\<close> with a character set, \<open>split\<close> after \<open>join\<close>\<close>

lemma strip_chars_id:
  "s = [] \<or> (hd s \<notin> set cs \<and> last s \<notin> set cs) \<Longrightarrow> strip_chars s cs = s"
  by (cases s) (auto simp: strip_chars_def rdropWhile_id)

lemma strip_chars_prefix:
  "set p \<subseteq> set cs \<Longrightarrow> s \<noteq> [] \<Longrightarrow> hd s \<notin> set cs \<Longrightarrow> last s \<notin> set cs \<Longrightarrow>
     strip_chars (p @ s) cs = s"
proof -
  assume p: "set p \<subseteq> set cs" and s: "s \<noteq> []" "hd s \<notin> set cs" "last s \<notin> set cs"
  from p have "\<And>x. x \<in> set p \<Longrightarrow> x \<in> set cs" by auto
  then have "dropWhile (\<lambda>c. c \<in> set cs) (p @ s) = dropWhile (\<lambda>c. c \<in> set cs) s"
    by (rule dropWhile_append2)
  also from s have "\<dots> = s" by (cases s) auto
  finally show ?thesis using s by (simp add: strip_chars_def rdropWhile_id)
qed

lemma split_on_append_sep:
  "c \<notin> set x \<Longrightarrow> split_on c (x @ c # s) = x # split_on c s"
  by (induction x) auto

lemma split_on_join:
  "xs \<noteq> [] \<Longrightarrow> \<forall>x\<in>set xs. c \<notin> set x \<Longrightarrow> split_on c (join [c] xs) = xs"
proof (induction "[c]" xs rule: join.induct)
  case 1
  then show ?case by simp
next
  case (2 x)
  then show ?case by (simp add: split_on_absent)
next
  case (3 x y ys)
  then show ?case by (simp add: split_on_append_sep)
qed

section \<open>The ends of a joined text\<close>

lemma hd_join: "xs \<noteq> [] \<Longrightarrow> hd xs \<noteq> [] \<Longrightarrow> hd (join sep xs) = hd (hd xs)"
  by (induction sep xs rule: join.induct) auto

lemma join_eq_Nil: "join sep xs = [] \<Longrightarrow> xs = [] \<or> last xs = []"
  by (induction sep xs rule: join.induct) auto

lemma last_join: "xs \<noteq> [] \<Longrightarrow> last xs \<noteq> [] \<Longrightarrow> last (join sep xs) = last (last xs)"
proof (induction sep xs rule: join.induct)
  case (3 sep x y ys)
  then have "join sep (y # ys) \<noteq> []" using join_eq_Nil [of sep "y # ys"] by auto
  with 3 show ?case by simp
qed simp_all

lemma join_append:
  "xs \<noteq> [] \<Longrightarrow> ys \<noteq> [] \<Longrightarrow> join sep (xs @ ys) = join sep xs @ sep @ join sep ys"
  by (induction sep xs rule: join.induct) (auto simp: join_Cons)

lemma join_take_drop:
  "0 < k \<Longrightarrow> k < length xs \<Longrightarrow> join sep xs = join sep (take k xs) @ sep @ join sep (drop k xs)"
  using join_append [of "take k xs" "drop k xs" sep] by (cases xs) auto

text \<open>Whitespace after a text does not change what \<open>strip\<close> returns.\<close>

lemma strip_append_space: "list_all py_isspace t \<Longrightarrow> strip (x @ t) = strip x"
proof (cases "\<forall>c\<in>set x. py_isspace c")
  case True
  assume "list_all py_isspace t"
  with True have "strip (x @ t) = []" "strip x = []"
    by (auto simp: strip_eq_Nil_iff list_all_iff)
  then show ?thesis by simp
next
  case False
  assume "list_all py_isspace t"
  moreover from False have "dropWhile py_isspace (x @ t) = dropWhile py_isspace x @ t"
    by auto
  ultimately show ?thesis
    by (simp add: strip_def lstrip_def rstrip_def rdropWhile_append_all list_all_iff)
qed

end
