(* ===== verification/Segmenter.thy ===== *)
theory Segmenter
  imports Py_String
begin

text \<open>
  The fixed-length segmenter of \<open>App.py\<close>: \<open>split_content\<close> cuts a text into chunks
  of at most \<open>max_length\<close> characters, at the last space inside the window when there
  is one. The loop of the source is \<open>split_loop\<close>, a partial function: for a
  \<open>max_length\<close> below 1 the source may loop forever, and not returning is the value
  \<open>None\<close>. \<open>split_chunks\<close> is the same computation as a total function for a positive
  bound; \<open>split_loop_chunks\<close> relates the two, and the properties of the chunks are
  proved on \<open>split_chunks\<close> and carried over. \<open>segmentation\<close> is the contract the
  callers rely on.
\<close>

section \<open>The loop of the source\<close>

partial_function (option) split_loop :: "pystr list \<Rightarrow> pystr \<Rightarrow> int \<Rightarrow> pystr list option" where
  "split_loop chunks content max_length =
     (if int (length content) > max_length then
        (let found = rfind content space 0 max_length;
             split_index = (if found = - 1 then max_length else found)
         in split_loop (chunks @ [py_take split_index content])
              (strip (py_drop split_index content)) max_length)
      else Some (chunks @ [content]))"

definition split_content :: "pystr \<Rightarrow> int \<Rightarrow> pystr list option" where
  "split_content content max_length = split_loop [] content max_length"

text \<open>The value of \<open>max_length\<close> when the caller gives none.\<close>

definition split_content_default :: "pystr \<Rightarrow> pystr list option" where
  "split_content_default content = split_content content 700"

section \<open>The same computation as a total function\<close>

text \<open>Where the window of \<open>m\<close> characters is cut: at its last space, or at \<open>m\<close>.\<close>

definition cut_index :: "nat \<Rightarrow> pystr \<Rightarrow> nat" where
  "cut_index m content = (case find_last space (take m content) of None \<Rightarrow> m | Some i \<Rightarrow> i)"

lemma cut_index_le [py_length]: "cut_index m content \<le> m"
proof (cases "find_last space (take m content)")
  case None
  then show ?thesis by (simp add: cut_index_def)
next
  case (Some i)
  from find_last_less [OF this] show ?thesis using Some by (simp add: cut_index_def)
qed

lemma cut_index_zero:
  "0 < m \<Longrightarrow> cut_index m content = 0 \<Longrightarrow> content \<noteq> [] \<and> hd content = space"
proof (cases "find_last space (take m content)")
  case None
  assume "0 < m" "cut_index m content = 0"
  with None show ?thesis by (simp add: cut_index_def)
next
  case (Some i)
  assume "0 < m" "cut_index m content = 0"
  with Some have "find_last space (take m content) = Some 0" by (simp add: cut_index_def)
  from find_last_Some [OF this] show ?thesis by (cases content) auto
qed

lemma length_rest_less:
  assumes "0 < m" "m < length content"
  shows "length (strip (drop (cut_index m content) content)) < length content"
proof (cases "cut_index m content = 0")
  case True
  with assms cut_index_zero [of m content] show ?thesis
    by (simp add: length_strip_less)
next
  case False
  with assms have "length (drop (cut_index m content) content) < length content" by simp
  with length_strip_le [of "drop (cut_index m content) content"] show ?thesis by simp
qed

function split_chunks :: "nat \<Rightarrow> pystr \<Rightarrow> pystr list" where
  "split_chunks m content =
     (if 0 < m \<and> m < length content
      then take (cut_index m content) content
             # split_chunks m (strip (drop (cut_index m content) content))
      else [content])"
  by pat_completeness auto
termination
  by (relation "measure (\<lambda>(m, content). length content)") (auto simp: length_rest_less)

declare split_chunks.simps [simp del]

lemma split_chunks_stop:
  "\<not> (0 < m \<and> m < length content) \<Longrightarrow> split_chunks m content = [content]"
  by (subst split_chunks.simps) auto

lemma split_chunks_short [simp]: "length content \<le> m \<Longrightarrow> split_chunks m content = [content]"
  by (simp add: split_chunks_stop)

lemma split_chunks_long:
  "0 < m \<and> m < length content \<Longrightarrow>
     split_chunks m content =
       take (cut_index m content) content
         # split_chunks m (strip (drop (cut_index m content) content))"
  by (subst split_chunks.simps) simp

section \<open>The loop computes the total function\<close>

lemma cut_index_rfind:
  assumes "m \<le> length content"
  shows "(let found = rfind content space 0 (int m)
          in if found = - 1 then int m else found) = int (cut_index m content)"
  using assms
  by (cases "find_last space (take m content)")
    (simp_all add: rfind_prefix cut_index_def)

lemma split_loop_stop:
  "length content \<le> m \<Longrightarrow> split_loop chunks content (int m) = Some (chunks @ [content])"
  by (simp add: split_loop.simps [of chunks content "int m"])

lemma split_loop_step:
  assumes "m < length content"
  shows "split_loop chunks content (int m) =
    split_loop (chunks @ [take (cut_index m content) content])
      (strip (drop (cut_index m content) content)) (int m)"
proof -
  from assms have "m \<le> length content" by simp
  from cut_index_rfind [OF this] assms show ?thesis
    by (subst split_loop.simps) (simp add: Let_def)
qed

lemma split_loop_chunks:
  "0 < m \<Longrightarrow> split_loop chunks content (int m) = Some (chunks @ split_chunks m content)"
proof (induction m content arbitrary: chunks rule: split_chunks.induct)
  case (1 m content)
  show ?case
  proof (cases "m < length content")
    case True
    with "1.prems" "1.IH" [of "chunks @ [take (cut_index m content) content]"] show ?thesis
      by (simp add: split_loop_step split_chunks_long)
  next
    case False
    then show ?thesis by (simp add: split_loop_stop)
  qed
qed

lemma split_content_chunks:
  "0 < max_length \<Longrightarrow> split_content content max_length = Some (split_chunks (nat max_length) content)"
  using split_loop_chunks [of "nat max_length" "[]" content] by (simp add: split_content_def)

section \<open>Properties of the chunks\<close>

lemma split_chunks_neq_Nil [simp]: "split_chunks m content \<noteq> []"
  by (subst split_chunks.simps) simp

lemma length_split_chunks_bound:
  "0 < m \<Longrightarrow> list_all (\<lambda>c. length c \<le> m) (split_chunks m content)"
proof (induction m content rule: split_chunks.induct)
  case (1 m content)
  show ?case
  proof (cases "0 < m \<and> m < length content")
    case True
    with 1 cut_index_le [of m content] show ?thesis by (simp add: split_chunks_long)
  next
    case False
    with "1.prems" show ?thesis by (simp add: split_chunks_stop [OF False])
  qed
qed

lemma filter_split_chunks:
  "filter (\<lambda>c. \<not> py_isspace c) (concat (split_chunks m content)) =
     filter (\<lambda>c. \<not> py_isspace c) content"
proof (induction m content rule: split_chunks.induct)
  case (1 m content)
  let ?k = "cut_index m content"
  let ?keep = "filter (\<lambda>c. \<not> py_isspace c)"
  show ?case
  proof (cases "0 < m \<and> m < length content")
    case True
    with "1.IH" have "?keep (concat (split_chunks m content)) =
        ?keep (take ?k content) @ ?keep (drop ?k content)"
      by (simp add: split_chunks_long filter_strip)
    also have "\<dots> = ?keep (take ?k content @ drop ?k content)"
      by (simp only: filter_append)
    finally show ?thesis by simp
  next
    case False
    show ?thesis by (simp add: split_chunks_stop [OF False])
  qed
qed

lemma subseq_split_chunks: "subseq (concat (split_chunks m content)) content"
proof (induction m content rule: split_chunks.induct)
  case (1 m content)
  let ?k = "cut_index m content"
  let ?rest = "split_chunks m (strip (drop ?k content))"
  show ?case
  proof (cases "0 < m \<and> m < length content")
    case True
    with "1.IH" have "subseq (concat ?rest) (strip (drop ?k content))" by simp
    with subseq_strip [of "drop ?k content"] have "subseq (concat ?rest) (drop ?k content)"
      by (rule subseq_order.order_trans [rotated])
    then have "subseq (take ?k content @ concat ?rest) (take ?k content @ drop ?k content)"
      by (simp only: subseq_append')
    then have "subseq (concat (take ?k content # ?rest)) content"
      by (simp only: concat.simps append_take_drop_id)
    then show ?thesis by (simp only: split_chunks_long [OF True])
  next
    case False
    show ?thesis by (simp add: split_chunks_stop [OF False])
  qed
qed

lemma length_split_chunks_le: "length (split_chunks m content) \<le> Suc (length content)"
proof (induction m content rule: split_chunks.induct)
  case (1 m content)
  let ?rest = "strip (drop (cut_index m content) content)"
  show ?case
  proof (cases "0 < m \<and> m < length content")
    case True
    then have "length ?rest < length content" by (simp add: length_rest_less)
    moreover from True "1.IH" have "length (split_chunks m ?rest) \<le> Suc (length ?rest)" by simp
    ultimately show ?thesis by (simp add: split_chunks_long [OF True])
  next
    case False
    show ?thesis by (simp add: split_chunks_stop [OF False])
  qed
qed

text \<open>
  Every chunk after the first starts a stripped remainder: it has no leading
  whitespace, and such a chunk is empty only when it is the last one.
\<close>

definition no_lead :: "pystr \<Rightarrow> bool" where
  "no_lead s \<longleftrightarrow> s = [] \<or> \<not> py_isspace (hd s)"

lemma no_lead_strip [simp]: "no_lead (strip s)"
  using hd_strip [of s] by (auto simp: no_lead_def)

lemma no_lead_take: "no_lead s \<Longrightarrow> no_lead (take k s)"
  by (cases s; cases k) (auto simp: no_lead_def)

lemma no_lead_split_chunks:
  "no_lead content \<Longrightarrow> list_all no_lead (split_chunks m content)"
proof (induction m content rule: split_chunks.induct)
  case (1 m content)
  show ?case
  proof (cases "0 < m \<and> m < length content")
    case True
    with 1 show ?thesis by (simp add: split_chunks_long no_lead_take)
  next
    case False
    with "1.prems" show ?thesis by (simp add: split_chunks_stop [OF False])
  qed
qed

lemma no_lead_tl_split_chunks: "list_all no_lead (tl (split_chunks m content))"
proof (cases "0 < m \<and> m < length content")
  case True
  then show ?thesis by (simp add: split_chunks_long no_lead_split_chunks)
next
  case False
  show ?thesis by (simp add: split_chunks_stop [OF False])
qed

section \<open>The contract of the segmenter\<close>

text \<open>
  What a caller may rely on: there is at least one chunk, no chunk is longer than the
  bound, and the chunks hold the text in order with nothing but whitespace left out.
\<close>

definition segmentation :: "nat \<Rightarrow> pystr \<Rightarrow> pystr list \<Rightarrow> bool" where
  "segmentation m content chunks \<longleftrightarrow>
     chunks \<noteq> [] \<and> list_all (\<lambda>c. length c \<le> m) chunks \<and>
     subseq (concat chunks) content \<and>
     filter (\<lambda>c. \<not> py_isspace c) (concat chunks) = filter (\<lambda>c. \<not> py_isspace c) content"

lemma segmentation_split_chunks: "0 < m \<Longrightarrow> segmentation m content (split_chunks m content)"
  by (simp add: segmentation_def length_split_chunks_bound subseq_split_chunks filter_split_chunks)

lemmas split_eval = split_content_def split_content_default_def split_loop.simps

text \<open>The last chunk of a text that was cut is a stripped remainder.\<close>

lemma strip_last_split_chunks:
  "strip content = content \<Longrightarrow>
     strip (last (split_chunks m content)) = last (split_chunks m content)"
proof (induction m content rule: split_chunks.induct)
  case (1 m content)
  show ?case
  proof (cases "0 < m \<and> m < length content")
    case True
    with "1.IH" show ?thesis by (simp add: split_chunks_long)
  next
    case False
    with "1.prems" show ?thesis by (simp add: split_chunks_stop [OF False])
  qed
qed

lemma last_split_chunks_cases:
  "split_chunks m content = [content] \<or>
     strip (last (split_chunks m content)) = last (split_chunks m content)"
proof (cases "0 < m \<and> m < length content")
  case True
  then show ?thesis by (simp add: split_chunks_long strip_last_split_chunks)
next
  case False
  then show ?thesis by (simp add: split_chunks_stop [OF False])
qed

text \<open>Where the first chunk of a long text ends.\<close>

lemma cut_index_space:
  assumes "space \<in> set (take m content)"
  shows "cut_index m content < m \<and> cut_index m content < length content \<and>
    content ! cut_index m content = space \<and>
    space \<notin> set (drop (Suc (cut_index m content)) (take m content))"
proof -
  from assms obtain i where i: "find_last space (take m content) = Some i"
    by (cases "find_last space (take m content)") (auto simp: find_last_None_iff)
  from find_last_Some [OF i] i show ?thesis by (auto simp: cut_index_def)
qed

lemma cut_index_no_space: "space \<notin> set (take m content) \<Longrightarrow> cut_index m content = m"
  by (simp add: cut_index_def find_last_absent)

section \<open>A bound below 1\<close>

text \<open>
  With a negative bound the guard of the loop always holds. With the bound 0 the cut
  is at index 0 and the remainder is the stripped text again, so the loop returns only
  for a text that is empty or all whitespace.
\<close>

lemma rfind_empty_range [simp]: "rfind s c 0 0 = - 1"
  by (simp add: rfind_def)

lemma split_loop_negative_Some:
  "split_loop chunks content max_length = Some r \<Longrightarrow> \<not> max_length < 0"
  by (rule split_loop.raw_induct [where P = "\<lambda>chunks content m r. \<not> m < 0"])
    (auto simp: Let_def split: if_splits)

lemma split_loop_zero_Some:
  assumes ret: "split_loop chunks content max_length = Some r"
  shows "\<not> (max_length = 0 \<and> strip content \<noteq> [])"
proof (rule split_loop.raw_induct
    [where P = "\<lambda>chunks content m r. \<not> (m = 0 \<and> strip content \<noteq> [])", OF _ ret])
  fix f :: "pystr list \<Rightarrow> pystr \<Rightarrow> int \<Rightarrow> pystr list option" and chunks content m r
  assume IH: "\<And>chunks content m r. f chunks content m = Some r \<Longrightarrow>
      \<not> (m = 0 \<and> strip content \<noteq> [])"
    and eq: "(if int (length content) > m then
        (let found = rfind content space 0 m;
             split_index = (if found = - 1 then m else found)
         in f (chunks @ [py_take split_index content])
              (strip (py_drop split_index content)) m)
      else Some (chunks @ [content])) = Some r"
  show "\<not> (m = 0 \<and> strip content \<noteq> [])"
  proof
    assume zero: "m = 0 \<and> strip content \<noteq> []"
    then have "content \<noteq> []" by auto
    with zero eq have "f (chunks @ [py_take 0 content]) (strip content) 0 = Some r"
      by (simp add: Let_def py_drop_def)
    from IH [OF this] zero show False by simp
  qed
qed

lemma split_loop_diverges:
  "max_length < 0 \<or> (max_length = 0 \<and> strip content \<noteq> []) \<Longrightarrow>
     split_loop chunks content max_length = None"
  using split_loop_negative_Some [of chunks content max_length]
    split_loop_zero_Some [of chunks content max_length]
  by (cases "split_loop chunks content max_length") auto

lemma split_content_zero:
  "split_content content 0 =
     (if content = [] then Some [[]] else if strip content = [] then Some [[], []] else None)"
proof (cases "strip content = []")
  case True
  then show ?thesis
    by (cases content) (simp_all add: split_eval py_take_def py_drop_def)
next
  case False
  then have "content \<noteq> []" by auto
  with False split_loop_diverges [of 0 content "[]"] show ?thesis
    by (simp add: split_content_def)
qed

section \<open>Properties of \<open>split_content\<close>\<close>

text \<open>
  C1. For every text and every positive \<open>max_length\<close> the loop of \<open>split_content\<close>
  ends and returns a list of chunks.
\<close>

theorem split_content_total:
  "0 < max_length \<Longrightarrow> \<exists>chunks. split_content content max_length = Some chunks"
  by (simp add: split_content_chunks)

theorem split_content_total_witness:
  "\<exists>chunks. split_content ''hello big world'' 7 = Some chunks"
  using split_content_total [of 7 "''hello big world''"] by simp

text \<open>
  C2. For a positive \<open>max_length\<close> no chunk that \<open>split_content\<close> returns is longer
  than \<open>max_length\<close>, the last chunk and a word longer than the bound included: a
  window without a space is cut at \<open>max_length\<close>.
\<close>

theorem split_content_bound:
  assumes "0 < max_length"
  shows "\<exists>chunks. split_content content max_length = Some chunks \<and>
    list_all (\<lambda>c. int (length c) \<le> max_length) chunks"
proof -
  from assms have "0 < nat max_length" by simp
  from length_split_chunks_bound [OF this, of content]
  have "list_all (\<lambda>c. int (length c) \<le> max_length) (split_chunks (nat max_length) content)"
    using assms by (auto simp: list_all_iff le_nat_iff)
  with assms show ?thesis by (simp add: split_content_chunks)
qed

theorem split_content_bound_witness:
  "\<exists>chunks. split_content ''incomprehensibilities'' 8 = Some chunks \<and>
     list_all (\<lambda>c. int (length c) \<le> 8) chunks"
  using split_content_bound [of 8 "''incomprehensibilities''"] by simp

text \<open>
  C3. For a positive \<open>max_length\<close> the chunks of \<open>split_content\<close>, put together, are
  the text with some characters left out, and the characters left out are whitespace:
  the characters that are not whitespace are all there, in their order.
\<close>

theorem split_content_keeps_text:
  "0 < max_length \<Longrightarrow>
     \<exists>chunks. split_content content max_length = Some chunks \<and>
       subseq (concat chunks) content \<and>
       filter (\<lambda>c. \<not> py_isspace c) (concat chunks) = filter (\<lambda>c. \<not> py_isspace c) content"
  by (simp add: split_content_chunks subseq_split_chunks filter_split_chunks)

theorem split_content_keeps_text_witness:
  "\<exists>chunks. split_content ''one  two three '' 6 = Some chunks \<and>
     subseq (concat chunks) ''one  two three '' \<and>
     filter (\<lambda>c. \<not> py_isspace c) (concat chunks) =
       filter (\<lambda>c. \<not> py_isspace c) ''one  two three ''"
  using split_content_keeps_text [of 6 "''one  two three ''"] by simp



text \<open>
  The first chunk of a text longer than a positive \<open>max_length\<close>: when the first
  \<open>max_length\<close> characters hold a space, the chunk ends before the last of these
  spaces; when they hold none, the chunk is the first \<open>max_length\<close> characters.
\<close>

theorem split_content_first_cut:
  assumes "0 < max_length" "max_length < int (length content)"
  shows "\<exists>c chunks. split_content content max_length = Some (c # chunks) \<and>
    (if space \<in> set (take (nat max_length) content)
     then int (length c) < max_length \<and> content ! length c = space \<and>
       space \<notin> set (drop (Suc (length c)) (take (nat max_length) content))
     else c = take (nat max_length) content)"
proof -
  let ?m = "nat max_length"
  from assms have long: "0 < ?m \<and> ?m < length content" by simp
  have "length (take (cut_index ?m content) content) = cut_index ?m content"
    using long cut_index_le [of ?m content] by simp
  with assms cut_index_space [of ?m content] cut_index_no_space [of ?m content]
  show ?thesis
    by (auto simp: split_content_chunks split_chunks_long [OF long])
qed

theorem split_content_first_cut_witness:
  "\<exists>c chunks. split_content ''hello big world'' 7 = Some (c # chunks) \<and>
    (if space \<in> set (take (nat 7) ''hello big world'')
     then int (length c) < 7 \<and> ''hello big world'' ! length c = space \<and>
       space \<notin> set (drop (Suc (length c)) (take (nat 7) ''hello big world''))
     else c = take (nat 7) ''hello big world'')"
  using split_content_first_cut [of 7 "''hello big world''"] by simp

text \<open>
  A text that is not longer than \<open>max_length\<close> is returned by \<open>split_content\<close>
  as its only chunk, unchanged.
\<close>

theorem split_content_short:
  "int (length content) \<le> max_length \<Longrightarrow> split_content content max_length = Some [content]"
  by (simp add: split_content_def split_loop.simps [of "[]" content max_length])

theorem split_content_short_witness:
  "split_content ''  short  '' 9 = Some [''  short  '']"
  using split_content_short [of "''  short  ''" 9] by simp

text \<open>
  C31. With a \<open>max_length\<close> that is not positive \<open>split_content\<close> does not return for
  any text that holds a character other than whitespace: the loop of the source runs
  forever.
\<close>

theorem split_content_nonpositive:
  assumes "max_length \<le> 0" "strip content \<noteq> []"
  shows "split_content content max_length = None"
proof -
  from assms have "max_length < 0 \<or> (max_length = 0 \<and> strip content \<noteq> [])" by auto
  from split_loop_diverges [OF this] show ?thesis by (simp add: split_content_def)
qed

theorem split_content_nonpositive_witness:
  "split_content ''slide'' 0 = None"
  using split_content_nonpositive [of 0 "''slide''"] by (simp add: py_unfold)

text \<open>
  For a positive \<open>max_length\<close> every chunk of \<open>split_content\<close> after the first
  starts with a character that is not whitespace or is empty, and when the text was
  cut the last chunk has no whitespace at either end.
\<close>

theorem split_content_stripped:
  "0 < max_length \<Longrightarrow>
     \<exists>chunks. split_content content max_length = Some chunks \<and>
       list_all no_lead (tl chunks) \<and>
       (chunks = [content] \<or> strip (last chunks) = last chunks)"
  using last_split_chunks_cases [of "nat max_length" content]
  by (auto simp: split_content_chunks no_lead_tl_split_chunks)

theorem split_content_stripped_witness:
  "\<exists>chunks. split_content ''hello   big world  '' 7 = Some chunks \<and>
     list_all no_lead (tl chunks) \<and>
     (chunks = [''hello   big world  ''] \<or> strip (last chunks) = last chunks)"
  using split_content_stripped [of 7 "''hello   big world  ''"] by simp

text \<open>Between the first chunk and the last no chunk is empty.\<close>

lemma butlast_split_chunks:
  "no_lead content \<Longrightarrow> list_all (\<lambda>c. c \<noteq> []) (butlast (split_chunks m content))"
proof (induction m content rule: split_chunks.induct)
  case (1 m content)
  show ?case
  proof (cases "0 < m \<and> m < length content")
    case True
    have "cut_index m content \<noteq> 0"
    proof
      assume "cut_index m content = 0"
      with True cut_index_zero [of m content] have "content \<noteq> []" "py_isspace (hd content)"
        by simp_all
      with "1.prems" show False by (simp add: no_lead_def)
    qed
    with True have "take (cut_index m content) content \<noteq> []" by auto
    with True "1.IH" show ?thesis by (simp add: split_chunks_long)
  next
    case False
    then show ?thesis by (simp add: split_chunks_stop [OF False])
  qed
qed

lemma butlast_tl_split_chunks:
  "list_all (\<lambda>c. c \<noteq> []) (butlast (tl (split_chunks m content)))"
proof (cases "0 < m \<and> m < length content")
  case True
  then show ?thesis by (simp add: split_chunks_long butlast_split_chunks)
next
  case False
  show ?thesis by (simp add: split_chunks_stop [OF False])
qed

lemma split_content_empty_first: "split_content '' abcdefgh'' 3 = Some ['''', ''abc'', ''def'', ''gh'']"
  by (simp add: split_eval py_unfold)

lemma split_content_empty_last: "split_content ''abc      '' 3 = Some [''abc'', '''']"
  by (simp add: split_eval py_unfold)

text \<open>
  For a positive \<open>max_length\<close> only the first and the last chunk of
  \<open>split_content\<close> can be empty: the first when the text starts with the only space
  of its window, the last when nothing but whitespace is left after a cut. Every
  chunk between them holds a character.
\<close>

theorem split_content_empty_chunks:
  "0 < max_length \<Longrightarrow>
     \<exists>chunks. split_content content max_length = Some chunks \<and>
       list_all (\<lambda>c. c \<noteq> []) (butlast (tl chunks)) \<and>
       (hd chunks = [] \<longleftrightarrow>
          content = [] \<or> (max_length < int (length content) \<and>
            cut_index (nat max_length) content = 0))"
proof -
  assume m: "0 < max_length"
  let ?m = "nat max_length"
  have "hd (split_chunks ?m content) = [] \<longleftrightarrow>
      content = [] \<or> (?m < length content \<and> cut_index ?m content = 0)"
  proof (cases "0 < ?m \<and> ?m < length content")
    case True
    then show ?thesis by (auto simp: split_chunks_long)
  next
    case False
    with m show ?thesis by (auto simp: split_chunks_stop [OF False])
  qed
  with m show ?thesis
    by (simp add: split_content_chunks butlast_tl_split_chunks) linarith
qed

theorem split_content_empty_chunks_witness:
  "\<exists>chunks. split_content '' abcdefgh'' 3 = Some chunks \<and>
     list_all (\<lambda>c. c \<noteq> []) (butlast (tl chunks)) \<and>
     (hd chunks = [] \<longleftrightarrow>
        '' abcdefgh'' = [] \<or> (3 < int (length '' abcdefgh'') \<and>
          cut_index (nat 3) '' abcdefgh'' = 0))"
  using split_content_empty_chunks [of 3 "'' abcdefgh''"] by simp

text \<open>
  A chunk that is followed by another one ends before a space of its window, or is a whole
  window without a space.
\<close>

lemma butlast_split_chunks_cut:
  "list_all (\<lambda>c. length c < m \<or> length c = m \<and> space \<notin> set c)
     (butlast (split_chunks m content))"
proof (induction m content rule: split_chunks.induct)
  case (1 m content)
  show ?case
  proof (cases "0 < m \<and> m < length content")
    case True
    let ?c = "take (cut_index m content) content"
    have "length ?c < m \<or> length ?c = m \<and> space \<notin> set ?c"
    proof (cases "space \<in> set (take m content)")
      case space: True
      from cut_index_space [OF this] show ?thesis by simp
    next
      case False
      with True show ?thesis by (simp add: cut_index_no_space)
    qed
    with True "1.IH" show ?thesis by (simp add: split_chunks_long)
  next
    case False
    show ?thesis by (simp add: split_chunks_stop [OF False])
  qed
qed

text \<open>
  C29. For a positive \<open>max_length\<close> every chunk of \<open>split_content\<close> that is followed
  by another one has fewer than \<open>max_length\<close> characters, or has \<open>max_length\<close>
  characters and no space: \<open>rfind\<close> looks at the indices below \<open>max_length\<close> only,
  so a line that ends at a space never has the full length.
\<close>

theorem split_content_cut_short:
  "0 < max_length \<Longrightarrow>
     \<exists>chunks. split_content content max_length = Some chunks \<and>
       list_all (\<lambda>c. int (length c) < max_length \<or>
           int (length c) = max_length \<and> space \<notin> set c) (butlast chunks)"
proof -
  assume "0 < max_length"
  with butlast_split_chunks_cut [of "nat max_length" content] show ?thesis
    by (auto simp: split_content_chunks list_all_iff)
qed

theorem split_content_cut_short_witness:
  "\<exists>chunks. split_content ''hello world foo'' 11 = Some chunks \<and>
     list_all (\<lambda>c. int (length c) < 11 \<or> int (length c) = 11 \<and> space \<notin> set c)
       (butlast chunks)"
  using split_content_cut_short [of 11 "''hello world foo''"] by simp

end
