(* ===== verification/Loop_Steps.thy ===== *)
theory Loop_Steps
  imports Segmenter "HOL-Library.While_Combinator"
begin

text \<open>
  The \<open>while\<close> loop of \<open>split_content\<close> as a transition system. A state is the pair
  of the variables the loop changes, \<open>chunks\<close> and \<open>content\<close>; one transition is one
  run of the body, possible when the guard holds; a state in which the guard fails
  is \<open>finished\<close>, and what the function returns then is \<open>returned\<close>. The lemmas show
  that the partial function \<open>split_loop\<close> of theory \<open>Segmenter\<close> returns exactly the
  results of the finished states that can be reached, that the transitions keep the
  invariant of the loop, and that for a positive bound every run reaches a finished
  state. \<open>split_while\<close> is the loop written with \<open>while_option\<close> of the library,
  which is shown to be the same function.
\<close>

section \<open>States and transitions\<close>

record loop_state =
  st_chunks :: "pystr list"
  st_content :: pystr

text \<open>The guard of the loop fails.\<close>

definition finished :: "int \<Rightarrow> loop_state \<Rightarrow> bool" where
  "finished max_length s \<longleftrightarrow> int (length (st_content s)) \<le> max_length"

text \<open>The state after one run of the body.\<close>

definition next_state :: "int \<Rightarrow> loop_state \<Rightarrow> loop_state" where
  "next_state max_length s =
     (let found = rfind (st_content s) space 0 max_length;
          split_index = (if found = - 1 then max_length else found)
      in \<lparr>st_chunks = st_chunks s @ [py_take split_index (st_content s)],
          st_content = strip (py_drop split_index (st_content s))\<rparr>)"

inductive step :: "int \<Rightarrow> loop_state \<Rightarrow> loop_state \<Rightarrow> bool" for max_length where
  cut: "\<not> finished max_length s \<Longrightarrow> step max_length s (next_state max_length s)"

code_pred step .

inductive_cases stepE [elim]: "step max_length s s'"

inductive_simps step_iff: "step max_length s s'"

text \<open>What the function returns when the loop has ended, and the state it starts in.\<close>

definition returned :: "loop_state \<Rightarrow> pystr list" where
  "returned s = st_chunks s @ [st_content s]"

definition initial :: "pystr \<Rightarrow> loop_state" where
  "initial content = \<lparr>st_chunks = [], st_content = content\<rparr>"

abbreviation steps :: "int \<Rightarrow> loop_state \<Rightarrow> loop_state \<Rightarrow> bool" where
  "steps max_length \<equiv> (step max_length)\<^sup>*\<^sup>*"

lemma step_deterministic: "step max_length s s1 \<Longrightarrow> step max_length s s2 \<Longrightarrow> s1 = s2"
  by (simp add: step_iff)

lemma finished_no_step: "finished max_length s \<Longrightarrow> \<not> step max_length s s'"
  by (simp add: step_iff)

lemma initial_simps [simp]:
  "st_chunks (initial content) = []" "st_content (initial content) = content"
  by (simp_all add: initial_def)

lemma state_eta: "\<lparr>st_chunks = st_chunks s, st_content = st_content s\<rparr> = s"
  by simp

section \<open>The partial function and the transitions\<close>

lemma split_loop_step_eq:
  "step max_length s s' \<Longrightarrow>
     split_loop (st_chunks s) (st_content s) max_length =
     split_loop (st_chunks s') (st_content s') max_length"
  by (subst split_loop.simps) (auto simp: step_iff finished_def next_state_def Let_def)

lemma split_loop_finished:
  "finished max_length s \<Longrightarrow>
     split_loop (st_chunks s) (st_content s) max_length = Some (returned s)"
  by (subst split_loop.simps) (simp add: finished_def returned_def)

lemma steps_split_loop:
  "steps max_length s s' \<Longrightarrow> finished max_length s' \<Longrightarrow>
     split_loop (st_chunks s) (st_content s) max_length = Some (returned s')"
  by (induction rule: converse_rtranclp_induct)
     (simp_all add: split_loop_step_eq split_loop_finished)

lemma split_loop_steps:
  assumes ret: "split_loop chunks content max_length = Some r"
  shows "\<exists>s'. steps max_length \<lparr>st_chunks = chunks, st_content = content\<rparr> s' \<and>
    finished max_length s' \<and> returned s' = r"
proof (rule split_loop.raw_induct
    [where P = "\<lambda>chunks content m r. \<exists>s'. steps m \<lparr>st_chunks = chunks, st_content = content\<rparr> s' \<and>
        finished m s' \<and> returned s' = r", OF _ ret])
  fix f :: "pystr list \<Rightarrow> pystr \<Rightarrow> int \<Rightarrow> pystr list option" and chunks content m r
  let ?s = "\<lparr>st_chunks = chunks, st_content = content\<rparr>"
  assume IH: "\<And>chunks content m r. f chunks content m = Some r \<Longrightarrow>
      \<exists>s'. steps m \<lparr>st_chunks = chunks, st_content = content\<rparr> s' \<and> finished m s' \<and> returned s' = r"
    and eq: "(if int (length content) > m then
        (let found = rfind content space 0 m;
             split_index = (if found = - 1 then m else found)
         in f (chunks @ [py_take split_index content])
              (strip (py_drop split_index content)) m)
      else Some (chunks @ [content])) = Some r"
  show "\<exists>s'. steps m ?s s' \<and> finished m s' \<and> returned s' = r"
  proof (cases "finished m ?s")
    case True
    with eq have "returned ?s = r" by (simp add: finished_def returned_def)
    with True show ?thesis by blast
  next
    case False
    with eq have "f (st_chunks (next_state m ?s)) (st_content (next_state m ?s)) m = Some r"
      by (simp add: finished_def next_state_def Let_def)
    from IH [OF this] obtain s' where "steps m (next_state m ?s) s'" "finished m s'" "returned s' = r"
      unfolding state_eta by auto
    moreover from False have "step m ?s (next_state m ?s)" by (simp add: step_iff)
    ultimately show ?thesis by (blast intro: converse_rtranclp_into_rtranclp)
  qed
qed

section \<open>The invariant of the loop\<close>

text \<open>
  What holds of \<open>chunks\<close> and \<open>content\<close> whenever the guard is tested: the chunks are
  within the bound, and the chunks followed by the remaining text are the original
  text with whitespace left out.
\<close>

definition loop_inv :: "int \<Rightarrow> pystr \<Rightarrow> loop_state \<Rightarrow> bool" where
  "loop_inv max_length original s \<longleftrightarrow>
     list_all (\<lambda>c. int (length c) \<le> max_length) (st_chunks s) \<and>
     subseq (concat (st_chunks s) @ st_content s) original \<and>
     filter (\<lambda>c. \<not> py_isspace c) (concat (st_chunks s) @ st_content s) =
       filter (\<lambda>c. \<not> py_isspace c) original"

lemma loop_inv_initial: "loop_inv max_length content (initial content)"
  by (simp add: loop_inv_def)

lemma next_state_nat:
  "m \<le> length (st_content s) \<Longrightarrow>
     next_state (int m) s =
       \<lparr>st_chunks = st_chunks s @ [take (cut_index m (st_content s)) (st_content s)],
        st_content = strip (drop (cut_index m (st_content s)) (st_content s))\<rparr>"
  using cut_index_rfind [of m "st_content s"] by (simp add: next_state_def Let_def)

lemma step_nat:
  assumes "0 < max_length" "step max_length s s'"
  obtains m where "max_length = int m" "0 < m" "m < length (st_content s)"
    "st_chunks s' = st_chunks s @ [take (cut_index m (st_content s)) (st_content s)]"
    "st_content s' = strip (drop (cut_index m (st_content s)) (st_content s))"
proof -
  from assms have m: "max_length = int (nat max_length)" "0 < nat max_length"
    "nat max_length < length (st_content s)"
    by (auto simp: step_iff finished_def)
  with assms(2) have "s' = next_state (int (nat max_length)) s" by (simp add: step_iff)
  with m next_state_nat [of "nat max_length" s] that [of "nat max_length"] show ?thesis by simp
qed

lemma loop_inv_step:
  assumes "0 < max_length" "step max_length s s'" "loop_inv max_length original s"
  shows "loop_inv max_length original s'"
proof (rule step_nat [OF assms(1,2)])
  fix m
  let ?c = "st_content s"
  let ?k = "cut_index m ?c"
  assume m: "max_length = int m" "0 < m" "m < length ?c"
    and s': "st_chunks s' = st_chunks s @ [take ?k ?c]" "st_content s' = strip (drop ?k ?c)"
  have "subseq (take ?k ?c @ strip (drop ?k ?c)) (take ?k ?c @ drop ?k ?c)"
    by (intro list_emb_append_mono subseq_order.order_refl subseq_strip)
  then have "subseq (concat (st_chunks s) @ take ?k ?c @ strip (drop ?k ?c)) (concat (st_chunks s) @ ?c)"
    by (intro list_emb_append_mono subseq_order.order_refl) simp
  with assms(3) have "subseq (concat (st_chunks s') @ st_content s') original"
    by (auto simp: loop_inv_def s' intro: subseq_order.order_trans)
  moreover have "filter (\<lambda>c. \<not> py_isspace c) (take ?k ?c @ strip (drop ?k ?c)) =
      filter (\<lambda>c. \<not> py_isspace c) ?c"
    using filter_append [of "\<lambda>c. \<not> py_isspace c" "take ?k ?c" "drop ?k ?c"]
    by (simp add: filter_strip)
  with assms(3) have "filter (\<lambda>c. \<not> py_isspace c) (concat (st_chunks s') @ st_content s') =
      filter (\<lambda>c. \<not> py_isspace c) original"
    by (simp add: loop_inv_def s')
  moreover from assms(3) m cut_index_le [of m ?c]
  have "list_all (\<lambda>c. int (length c) \<le> max_length) (st_chunks s')"
    by (simp add: loop_inv_def s')
  ultimately show ?thesis by (simp add: loop_inv_def)
qed

lemma loop_inv_steps:
  assumes "0 < max_length" "steps max_length s s'" "loop_inv max_length original s"
  shows "loop_inv max_length original s'"
  using assms(2,3)
  by (induction rule: rtranclp_induct) (auto intro: loop_inv_step [OF assms(1)])

section \<open>Termination\<close>

lemma step_decreases:
  assumes "0 < max_length" "step max_length s s'"
  shows "length (st_content s') < length (st_content s)"
  by (rule step_nat [OF assms]) (simp add: length_rest_less)

lemma wfp_step: "0 < max_length \<Longrightarrow> wfp (\<lambda>s' s. step max_length s s')"
proof -
  assume "0 < max_length"
  then have "{(s', s). step max_length s s'} \<subseteq> measure (\<lambda>s. length (st_content s))"
    by (auto dest: step_decreases)
  from wf_subset [OF wf_measure this] show ?thesis by (simp add: wfp_def)
qed

lemma steps_reach_finished:
  "0 < max_length \<Longrightarrow> \<exists>s'. steps max_length s s' \<and> finished max_length s'"
proof (induction s rule: measure_induct_rule [where f = "\<lambda>s. length (st_content s)"])
  case (less s)
  show ?case
  proof (cases "finished max_length s")
    case True
    then show ?thesis by blast
  next
    case False
    then have st: "step max_length s (next_state max_length s)" by (simp add: step_iff)
    from less.IH [OF step_decreases [OF less.prems st] less.prems]
    obtain s' where "steps max_length (next_state max_length s) s'" "finished max_length s'"
      by blast
    with st show ?thesis by (blast intro: converse_rtranclp_into_rtranclp)
  qed
qed

section \<open>The loop with the while combinator\<close>

text \<open>
  The loop once more, kept as a loop: \<open>while_option\<close> of the library runs the body
  \<open>next_state\<close> from the initial state while the guard holds and gives the first
  state in which it fails, or \<open>None\<close> when there is none. \<open>split_while\<close> is
  \<open>split_content\<close> written with it.
\<close>

definition split_while :: "pystr \<Rightarrow> int \<Rightarrow> pystr list option" where
  "split_while content max_length =
     map_option returned
       (while_option (\<lambda>s. \<not> finished max_length s) (next_state max_length) (initial content))"

abbreviation loop_from :: "int \<Rightarrow> loop_state \<Rightarrow> loop_state option" where
  "loop_from max_length \<equiv> while_option (\<lambda>s. \<not> finished max_length s) (next_state max_length)"

lemma loop_from_steps:
  assumes "loop_from max_length s = Some t"
  shows "steps max_length s t \<and> finished max_length t"
proof
  show "steps max_length s t"
    by (rule while_option_rule [where P = "steps max_length s", OF _ assms])
      (auto intro: rtranclp.rtrancl_into_rtrancl step.cut)
  from while_option_stop [OF assms] show "finished max_length t" by simp
qed

lemma steps_loop_from:
  "steps max_length s t \<Longrightarrow> finished max_length t \<Longrightarrow> loop_from max_length s = Some t"
proof (induction rule: converse_rtranclp_induct)
  case base
  then show ?case by (subst while_option_unfold) simp
next
  case (step s s')
  then show ?case by (subst while_option_unfold) (auto simp: step_iff)
qed

lemma loop_from_iff_steps:
  "loop_from max_length s = Some t \<longleftrightarrow> steps max_length s t \<and> finished max_length t"
  using loop_from_steps steps_loop_from by blast

text \<open>The partial function is the while loop of the library, from every state.\<close>

lemma split_loop_while:
  "split_loop (st_chunks s) (st_content s) max_length =
     map_option returned (loop_from max_length s)"
proof (cases "loop_from max_length s")
  case None
  have "split_loop (st_chunks s) (st_content s) max_length \<noteq> Some r" for r
  proof
    assume "split_loop (st_chunks s) (st_content s) max_length = Some r"
    from split_loop_steps [OF this] obtain s' where "steps max_length s s'" "finished max_length s'"
      unfolding state_eta by auto
    with None show False by (simp add: steps_loop_from)
  qed
  with None show ?thesis by (cases "split_loop (st_chunks s) (st_content s) max_length") auto
next
  case (Some t)
  with loop_from_steps [OF Some] show ?thesis by (simp add: steps_split_loop)
qed

lemma split_while_split_content: "split_while content max_length = split_content content max_length"
  using split_loop_while [of "initial content" max_length]
  by (simp add: split_while_def split_content_def)

text \<open>The function runs on an input: three chunks of at most seven characters.\<close>

lemma split_while_hello:
  "split_while ''hello big world'' 7 = Some [''hello'', ''big'', ''world'']"
  by (simp add: split_while_def while_option_unfold finished_def next_state_def returned_def
      py_unfold Let_def)

section \<open>Properties of the loop\<close>

text \<open>
  The partial function \<open>split_loop\<close> is the loop of the transition system: it
  returns a list exactly when a finished state can be reached from the state of its
  arguments, and the list is what is returned in that state. This holds for every
  bound, so \<open>split_loop\<close> has no result exactly when no finished state is reached.
\<close>

theorem split_loop_iff_steps:
  "split_loop chunks content max_length = Some r \<longleftrightarrow>
     (\<exists>s'. steps max_length \<lparr>st_chunks = chunks, st_content = content\<rparr> s' \<and>
        finished max_length s' \<and> returned s' = r)"
  using steps_split_loop [of max_length "\<lparr>st_chunks = chunks, st_content = content\<rparr>"]
    split_loop_steps [of chunks content max_length r]
  by auto

text \<open>
  Every state that the loop reaches from the text, for a positive bound,
  satisfies the invariant: no chunk is longer than the bound, and the chunks
  followed by the remaining text are the text with only whitespace left out.
\<close>

theorem steps_invariant:
  "0 < max_length \<Longrightarrow> steps max_length (initial content) s \<Longrightarrow> loop_inv max_length content s"
  using loop_inv_steps [OF _ _ loop_inv_initial] .

theorem steps_invariant_witness:
  "loop_inv 7 ''hello big world'' (next_state 7 (initial ''hello big world''))"
proof -
  have "step 7 (initial ''hello big world'') (next_state 7 (initial ''hello big world''))"
    by (simp add: step_iff finished_def)
  then have "steps 7 (initial ''hello big world'') (next_state 7 (initial ''hello big world''))"
    by (rule r_into_rtranclp)
  with steps_invariant [of 7 "''hello big world''"] show ?thesis by simp
qed

text \<open>
  For a positive bound the loop cannot run for ever: the remaining text gets
  shorter with every run of the body, so the transitions are well founded, and from
  every state a finished state is reached.
\<close>

theorem steps_terminate:
  "0 < max_length \<Longrightarrow>
     wfp (\<lambda>s' s. step max_length s s') \<and> (\<exists>s'. steps max_length s s' \<and> finished max_length s')"
  by (simp add: wfp_step steps_reach_finished)

theorem steps_terminate_witness:
  "wfp (\<lambda>s' s. step 900 s s') \<and> (\<exists>s'. steps 900 (initial ''text'') s' \<and> finished 900 s')"
  using steps_terminate [of 900 "initial ''text''"] by simp

end
