(* ===== verification/Markers.thy ===== *)
theory Markers
  imports Py_String
begin

text \<open>
  The marker segmenter of \<open>App1.py\<close>: \<open>split_into_slides\<close> finds the pieces of the
  text that start with \<open>Slide n:\<close> and run up to the next marker or the end, drops
  the last two characters of each and puts \<open>**\<close> in front;
  \<open>remove_double_asteris\<close> deletes every \<open>**\<close>. The regular expression of the
  source, \<open>(Slide \d+:.*?)(?=Slide \d+:|$)\<close> with \<open>DOTALL\<close>, is modelled by the
  functions that a backtracking matcher computes for it: \<open>match_marker\<close> for
  \<open>Slide \d+:\<close>, \<open>lookahead\<close> for the group \<open>(?=...)\<close>, \<open>lazy_body\<close> for \<open>.*?\<close>
  and \<open>findall_slides\<close> for \<open>findall\<close>. \<open>count_markers\<close> counts the positions
  of a text where a marker starts; it is the specification of how many pieces there
  are.
\<close>

section \<open>The regular expression\<close>

text \<open>
  \<open>Slide \d+:\<close> at the start of a text: the marker and the text after it. The digits
  are taken greedily; giving one back cannot help, since a colon must follow.
\<close>

definition match_marker :: "pystr \<Rightarrow> (pystr \<times> pystr) option" where
  "match_marker s =
     (if prefix ''Slide '' s then
        (let t = drop 6 s; digits = takeWhile is_digit t; r = dropWhile is_digit t
         in if digits \<noteq> [] \<and> prefix '':'' r
            then Some (''Slide '' @ digits @ '':'', tl r) else None)
      else None)"

text \<open>
  \<open>$\<close> without \<open>MULTILINE\<close> holds at the end of the text and before a newline that
  is its last character.
\<close>

definition at_end :: "pystr \<Rightarrow> bool" where
  "at_end s \<longleftrightarrow> s = [] \<or> s = [newline]"

definition lookahead :: "pystr \<Rightarrow> bool" where
  "lookahead s \<longleftrightarrow> match_marker s \<noteq> None \<or> at_end s"

text \<open>
  \<open>.*?\<close> before the lookahead: the shortest run of characters, newlines included,
  after which the lookahead holds. The result is the run and the text after it.
\<close>

fun lazy_body :: "pystr \<Rightarrow> pystr \<times> pystr" where
  "lazy_body [] = ([], [])"
| "lazy_body (c # cs) =
     (if lookahead (c # cs) then ([], c # cs)
      else (let (body, r) = lazy_body cs in (c # body, r)))"

lemma match_marker_append: "match_marker s = Some (mk, rest) \<Longrightarrow> s = mk @ rest"
proof -
  assume m: "match_marker s = Some (mk, rest)"
  let ?t = "drop 6 s"
  from m have p: "prefix ''Slide '' s" and c: "prefix '':'' (dropWhile is_digit ?t)"
    and mk: "mk = ''Slide '' @ takeWhile is_digit ?t @ '':''"
    and rest: "rest = tl (dropWhile is_digit ?t)"
    by (auto simp: match_marker_def Let_def split: if_splits)
  from p have "s = ''Slide '' @ ?t" by (auto simp: prefix_def)
  moreover have "?t = takeWhile is_digit ?t @ dropWhile is_digit ?t" by simp
  moreover from c have "dropWhile is_digit ?t = '':'' @ tl (dropWhile is_digit ?t)"
    by (cases "dropWhile is_digit ?t") auto
  ultimately have "s = ''Slide '' @ takeWhile is_digit ?t @ '':'' @ tl (dropWhile is_digit ?t)"
    by (metis append_assoc)
  with mk rest show ?thesis by simp
qed

lemma match_marker_length [py_length]:
  "match_marker s = Some (mk, rest) \<Longrightarrow> 8 \<le> length mk \<and> length rest < length s"
proof -
  assume m: "match_marker s = Some (mk, rest)"
  then have "takeWhile is_digit (drop 6 s) \<noteq> []"
    and "mk = ''Slide '' @ takeWhile is_digit (drop 6 s) @ '':''"
    by (auto simp: match_marker_def Let_def split: if_splits)
  then have "8 \<le> length mk"
    by (cases "takeWhile is_digit (drop 6 s)") auto
  with match_marker_append [OF m] show ?thesis by auto
qed

lemma lazy_body_append: "lazy_body s = (body, r) \<Longrightarrow> s = body @ r"
  by (induction s arbitrary: body r) (auto split: if_splits prod.splits)

lemma lazy_body_length [py_length]: "lazy_body s = (body, r) \<Longrightarrow> length r \<le> length s"
  by (drule lazy_body_append) simp

lemma lazy_body_lookahead: "lazy_body s = (body, r) \<Longrightarrow> lookahead r"
  by (induction s arbitrary: body r)
    (auto simp: lookahead_def at_end_def split: if_splits prod.splits)

section \<open>\<open>findall\<close>\<close>

text \<open>
  \<open>findall\<close> tries the pattern at every position from the left; after a match it goes
  on where the match ended. The pattern has one group, so the result is the list of
  the texts of that group: marker and body.
\<close>

function findall_slides :: "pystr \<Rightarrow> pystr list" where
  "findall_slides s =
     (case match_marker s of
        Some (mk, rest) \<Rightarrow> (case lazy_body rest of (body, r) \<Rightarrow> (mk @ body) # findall_slides r)
      | None \<Rightarrow> (case s of [] \<Rightarrow> [] | _ # t \<Rightarrow> findall_slides t))"
  by pat_completeness auto
termination
proof (relation "measure length")
  fix s x2 mk rest body r
  assume "match_marker s = Some x2" "(mk, rest) = x2" "(body, r) = lazy_body rest"
  then have "length rest < length s" "length r \<le> length rest"
    using match_marker_length [of s mk rest] lazy_body_length [of rest body r] by auto
  then show "(r, s) \<in> measure length" by simp
qed auto

declare findall_slides.simps [simp del]

section \<open>The functions of the source\<close>

definition split_into_slides :: "pystr \<Rightarrow> pystr list" where
  "split_into_slides content = map (\<lambda>m. ''**'' @ py_take (- 2) m) (findall_slides content)"

definition remove_double_asteris :: "pystr list \<Rightarrow> pystr list" where
  "remove_double_asteris input_list = map (\<lambda>item. replace item ''**'' '''') input_list"

text \<open>Two asterisks in a row, which \<open>remove_double_asteris\<close> deletes.\<close>

fun double_star :: "pystr \<Rightarrow> bool" where
  "double_star (a # b # cs) \<longleftrightarrow> (a = CHR ''*'' \<and> b = CHR ''*'') \<or> double_star (b # cs)"
| "double_star _ \<longleftrightarrow> False"

declare match_marker_def [py_unfold] at_end_def [py_unfold] lookahead_def [py_unfold]
  split_into_slides_def [py_unfold] remove_double_asteris_def [py_unfold]

lemmas slides_eval = py_unfold findall_slides.simps Let_def

section \<open>Characteristic equations of \<open>findall_slides\<close>\<close>

lemma findall_slides_Nil [simp]: "findall_slides [] = []"
  by (simp add: findall_slides.simps match_marker_def)

lemma findall_slides_match:
  "match_marker s = Some (mk, rest) \<Longrightarrow> lazy_body rest = (body, r) \<Longrightarrow>
     findall_slides s = (mk @ body) # findall_slides r"
  by (subst findall_slides.simps) simp

lemma findall_slides_skip:
  "match_marker (c # cs) = None \<Longrightarrow> findall_slides (c # cs) = findall_slides cs"
  by (subst findall_slides.simps) simp

section \<open>Where markers start\<close>

fun count_markers :: "pystr \<Rightarrow> nat" where
  "count_markers [] = 0"
| "count_markers (c # cs) = (if match_marker (c # cs) \<noteq> None then 1 else 0) + count_markers cs"

text \<open>The text from its first marker on; empty when it has no marker.\<close>

fun first_marker :: "pystr \<Rightarrow> pystr" where
  "first_marker [] = []"
| "first_marker (c # cs) = (if match_marker (c # cs) \<noteq> None then c # cs else first_marker cs)"

lemma match_marker_not_S [simp]: "c \<noteq> CHR ''S'' \<Longrightarrow> match_marker (c # cs) = None"
  by (simp add: match_marker_def)

lemma is_digit_not_S: "is_digit c \<Longrightarrow> c \<noteq> CHR ''S''"
  by (auto simp: is_digit_def)

lemma match_marker_shape:
  assumes "match_marker s = Some (mk, rest)"
  shows "\<exists>digits. mk = ''Slide '' @ digits @ '':'' \<and> digits \<noteq> [] \<and> list_all is_digit digits"
proof -
  from assms have "mk = ''Slide '' @ takeWhile is_digit (drop 6 s) @ '':''"
    "takeWhile is_digit (drop 6 s) \<noteq> []"
    by (auto simp: match_marker_def Let_def split: if_splits)
  moreover have "list_all is_digit (takeWhile is_digit (drop 6 s))"
    by (auto simp: list_all_iff dest: set_takeWhileD)
  ultimately show ?thesis by blast
qed

lemma match_marker_no_S:
  assumes "match_marker s = Some (mk, rest)"
  shows "\<exists>p. mk = CHR ''S'' # p \<and> CHR ''S'' \<notin> set p"
proof -
  from match_marker_shape [OF assms] obtain digits
    where mk: "mk = ''Slide '' @ digits @ '':''" and d: "list_all is_digit digits" by blast
  from d have "CHR ''S'' \<notin> set digits" by (auto simp: list_all_iff dest: is_digit_not_S)
  with mk show ?thesis by simp
qed

lemma count_markers_no_S: "CHR ''S'' \<notin> set p \<Longrightarrow> count_markers (p @ r) = count_markers r"
  by (induction p) auto

lemma count_markers_match:
  assumes "match_marker s = Some (mk, rest)"
  shows "count_markers s = Suc (count_markers rest)"
proof -
  from match_marker_no_S [OF assms] obtain p where p: "mk = CHR ''S'' # p" "CHR ''S'' \<notin> set p"
    by blast
  with match_marker_append [OF assms] have s: "s = CHR ''S'' # (p @ rest)" by simp
  with assms have "match_marker (CHR ''S'' # (p @ rest)) \<noteq> None" by simp
  with s p show ?thesis by (simp add: count_markers_no_S)
qed

lemma count_markers_lazy: "lazy_body s = (body, r) \<Longrightarrow> count_markers s = count_markers r"
  by (induction s arbitrary: body r) (auto simp: lookahead_def split: if_splits prod.splits)

lemma length_findall_slides: "length (findall_slides s) = count_markers s"
proof (induction s rule: findall_slides.induct)
  case (1 s)
  show ?case
  proof (cases "match_marker s")
    case None
    with 1 show ?thesis by (cases s) (simp_all add: findall_slides_skip)
  next
    case (Some x)
    obtain mk rest where x: "x = (mk, rest)" by (cases x)
    obtain body r where l: "lazy_body rest = (body, r)" by (cases "lazy_body rest")
    from Some x have m: "match_marker s = Some (mk, rest)" by simp
    from "1.IH"(2) [OF Some x [symmetric] l [symmetric]]
    have "length (findall_slides r) = count_markers r" .
    with count_markers_match [OF m] count_markers_lazy [OF l] show ?thesis
      by (simp add: findall_slides_match [OF m l])
  qed
qed

lemma first_marker_match: "match_marker s = Some x \<Longrightarrow> first_marker s = s"
  by (cases s) (simp_all add: match_marker_def)

lemma first_marker_no_marker: "count_markers s = 0 \<Longrightarrow> first_marker s = []"
  by (induction s) (auto split: if_splits)

lemma findall_slides_no_marker: "count_markers s = 0 \<Longrightarrow> findall_slides s = []"
  using length_findall_slides [of s] by simp

lemma count_markers_at_end: "at_end s \<Longrightarrow> count_markers s = 0"
  by (auto simp: at_end_def match_marker_def)

text \<open>The matches are consecutive: they tile the text from its first marker on.\<close>

lemma findall_slides_tiles:
  "\<exists>post. at_end post \<and> first_marker s = concat (findall_slides s) @ post"
proof (induction s rule: findall_slides.induct)
  case (1 s)
  show ?case
  proof (cases "match_marker s")
    case None
    with 1 show ?thesis
      by (cases s) (simp_all add: findall_slides_skip at_end_def)
  next
    case (Some x)
    obtain mk rest where x: "x = (mk, rest)" by (cases x)
    obtain body r where l: "lazy_body rest = (body, r)" by (cases "lazy_body rest")
    from Some x have m: "match_marker s = Some (mk, rest)" by simp
    have "first_marker s = s" by (rule first_marker_match [OF m])
    with match_marker_append [OF m] lazy_body_append [OF l]
    have s: "first_marker s = (mk @ body) @ r" by simp
    from "1.IH"(2) [OF Some x [symmetric] l [symmetric]] obtain post
      where post: "at_end post" "first_marker r = concat (findall_slides r) @ post" by blast
    show ?thesis
    proof (cases "match_marker r")
      case None
      with lazy_body_lookahead [OF l] have e: "at_end r" by (simp add: lookahead_def)
      then have "findall_slides r = []"
        by (simp add: findall_slides_no_marker count_markers_at_end)
      with s e show ?thesis by (auto simp: findall_slides_match [OF m l])
    next
      case (Some y)
      with post have "r = concat (findall_slides r) @ post" by (simp add: first_marker_match)
      with s post(1) show ?thesis by (auto simp: findall_slides_match [OF m l])
    qed
  qed
qed

lemma findall_slides_marker:
  "m \<in> set (findall_slides s) \<Longrightarrow> \<exists>digits body. m = ''Slide '' @ digits @ '':'' @ body \<and>
     digits \<noteq> [] \<and> list_all is_digit digits"
proof (induction s rule: findall_slides.induct)
  case (1 s)
  show ?case
  proof (cases "match_marker s")
    case None
    with 1 show ?thesis by (cases s) (simp_all add: findall_slides_skip)
  next
    case (Some x)
    obtain mk rest where x: "x = (mk, rest)" by (cases x)
    obtain body r where l: "lazy_body rest = (body, r)" by (cases "lazy_body rest")
    from Some x have mm: "match_marker s = Some (mk, rest)" by simp
    from "1.prems" have "m = mk @ body \<or> m \<in> set (findall_slides r)"
      by (simp add: findall_slides_match [OF mm l])
    then show ?thesis
    proof
      assume "m = mk @ body"
      moreover from match_marker_shape [OF mm] obtain digits
        where "mk = ''Slide '' @ digits @ '':''" "digits \<noteq> []" "list_all is_digit digits"
        by blast
      ultimately show ?thesis
        by (intro exI [of _ digits] exI [of _ body]) simp
    next
      assume "m \<in> set (findall_slides r)"
      with "1.IH"(2) [OF Some x [symmetric] l [symmetric]] show ?thesis by simp
    qed
  qed
qed

lemma findall_slides_sublist: "m \<in> set (findall_slides s) \<Longrightarrow> sublist m s"
proof (induction s rule: findall_slides.induct)
  case (1 s)
  show ?case
  proof (cases "match_marker s")
    case None
    show ?thesis
    proof (cases s)
      case Nil
      with "1.prems" show ?thesis by simp
    next
      case (Cons c cs)
      with None "1.prems" have "m \<in> set (findall_slides cs)" by (simp add: findall_slides_skip)
      from "1.IH"(1) [OF None Cons this] show ?thesis by (simp add: Cons sublist_Cons_right)
    qed
  next
    case (Some x)
    obtain mk rest where x: "x = (mk, rest)" by (cases x)
    obtain body r where l: "lazy_body rest = (body, r)" by (cases "lazy_body rest")
    from Some x have mm: "match_marker s = Some (mk, rest)" by simp
    from match_marker_append [OF mm] lazy_body_append [OF l]
    have s: "s = (mk @ body) @ r" by simp
    from "1.prems" have "m = mk @ body \<or> m \<in> set (findall_slides r)"
      by (simp add: findall_slides_match [OF mm l])
    then show ?thesis
    proof
      assume "m = mk @ body"
      with s show ?thesis by (metis sublist_append_rightI)
    next
      assume "m \<in> set (findall_slides r)"
      from "1.IH"(2) [OF Some x [symmetric] l [symmetric] this] have "sublist m r" .
      then have "sublist m ((mk @ body) @ r)" by (simp add: sublist_append)
      with s show ?thesis by simp
    qed
  qed
qed

section \<open>Double asterisks\<close>

lemma double_star_skip [simp]: "c \<noteq> CHR ''*'' \<Longrightarrow> double_star (c # s) = double_star s"
  by (cases s) auto

lemma double_star_fresh: "CHR ''*'' \<notin> set x \<Longrightarrow> double_star (x @ y) = double_star y"
  by (induction x) auto

lemma double_star_sep:
  "c \<noteq> CHR ''*'' \<Longrightarrow> double_star (x @ c # y) \<longleftrightarrow> double_star x \<or> double_star y"
  by (induction x rule: double_star.induct) auto

lemma double_star_iff_sublist: "double_star s \<longleftrightarrow> sublist ''**'' s"
  by (induction s rule: double_star.induct) (auto simp: sublist_Cons_right)

lemma replace_scan_no_double_star: "\<not> double_star s \<Longrightarrow> replace_scan ''**'' [] s = s"
  by (induction s rule: double_star.induct) auto

lemma replace_no_double_star: "\<not> double_star s \<Longrightarrow> replace s ''**'' '''' = s"
  by (simp add: replace_def replace_scan_no_double_star)

text \<open>
  Induction over a text the way the deletion of \<open>**\<close> reads it: two asterisks, or
  one asterisk before another character or at the end, or another character.
\<close>

lemma star_pairs_induct [case_names Nil star pair star_other other]:
  assumes "P []" and "P [CHR ''*'']"
    and "\<And>s. P s \<Longrightarrow> P (CHR ''*'' # CHR ''*'' # s)"
    and "\<And>c s. c \<noteq> CHR ''*'' \<Longrightarrow> P (c # s) \<Longrightarrow> P (CHR ''*'' # c # s)"
    and "\<And>c s. c \<noteq> CHR ''*'' \<Longrightarrow> P s \<Longrightarrow> P (c # s)"
  shows "P s"
proof (induction s rule: induct_list012)
  case (2 x)
  from assms(1,2,5) show ?case by (cases "x = CHR ''*''") auto
next
  case (3 x y zs)
  with assms(3-5) show ?case by (cases "x = CHR ''*''"; cases "y = CHR ''*''") auto
qed (rule assms(1))

text \<open>
  What is left when every \<open>**\<close> is deleted: of a row of asterisks one or none, so no
  \<open>**\<close>; every other character; an even number of characters less.
\<close>

lemma replace_scan_stars:
  "\<not> double_star (replace_scan ''**'' [] s)"
  "filter (\<lambda>c. c \<noteq> CHR ''*'') (replace_scan ''**'' [] s) = filter (\<lambda>c. c \<noteq> CHR ''*'') s"
  "even (length s + length (replace_scan ''**'' [] s))"
  by (induction s rule: star_pairs_induct; simp)+

lemma replace_stars:
  "\<not> sublist ''**'' (replace s ''**'' '''')"
  "filter (\<lambda>c. c \<noteq> CHR ''*'') (replace s ''**'' '''') = filter (\<lambda>c. c \<noteq> CHR ''*'') s"
  "even (length s + length (replace s ''**'' ''''))"
  "replace (replace s ''**'' '''') ''**'' '''' = replace s ''**'' ''''"
  using replace_scan_stars [of s] replace_scan_no_double_star [of "replace_scan ''**'' [] s"]
  by (simp_all add: replace_def flip: double_star_iff_sublist)

section \<open>The two characters cut off and the \<open>**\<close> put in front\<close>

lemma replace_wrap: "replace (''**'' @ x) ''**'' '''' = replace x ''**'' ''''"
  by (simp add: replace_def)

lemma py_take_minus2: "py_take (- 2) m = take (length m - 2) m"
  by (simp add: py_take_def slice_bound_def nat_diff_distrib')

lemma replace_scan_keeps_prefix:
  "old \<noteq> [] \<Longrightarrow> hd old \<notin> set p \<Longrightarrow> replace_scan old new (p @ s) = p @ replace_scan old new s"
proof (induction p)
  case Nil
  show ?case by simp
next
  case (Cons c p)
  then have "\<not> prefix old (c # p @ s)" by (cases old) auto
  with Cons show ?case by simp
qed

lemma fragment_starts_with_marker:
  assumes "m \<in> set (findall_slides s)"
  shows "startswith (replace (py_take (- 2) m) ''**'' '''') ''Slide ''"
proof -
  from findall_slides_marker [OF assms] obtain digits body
    where m: "m = ''Slide '' @ digits @ '':'' @ body" and d: "digits \<noteq> []" by blast
  let ?tail = "digits @ '':'' @ body"
  from d have "2 \<le> length ?tail" by (cases digits) auto
  then have "take (length (''Slide '' @ ?tail) - 2) (''Slide '' @ ?tail) =
      ''Slide '' @ take (length ?tail - 2) ?tail"
    by (rule take_append_keep)
  with m have "py_take (- 2) m = ''Slide '' @ take (length ?tail - 2) ?tail"
    by (simp only: py_take_minus2)
  then show ?thesis
    using replace_scan_keeps_prefix [of "''**''" "''Slide ''" "''''" "take (length ?tail - 2) ?tail"]
    by (simp add: replace_def startswith_def del: replace_scan.simps append.simps)
qed

section \<open>Properties of the marker segmenter\<close>

text \<open>
  C5. \<open>split_into_slides\<close> returns one fragment for each position of the text at which
  a marker \<open>Slide n:\<close> starts: a text with k markers gives k fragments.
\<close>

theorem split_into_slides_count:
  "length (split_into_slides content) = count_markers content"
  by (simp add: split_into_slides_def length_findall_slides)

text \<open>
  The matches of the regular expression are consecutive: put together, and
  followed by nothing or by one final newline, they are the text from its first marker
  on. What \<open>split_into_slides\<close> returns is each match without its last two
  characters, behind \<open>**\<close>.
\<close>

theorem split_into_slides_tiles:
  "\<exists>post. at_end post \<and> first_marker content = concat (findall_slides content) @ post \<and>
     split_into_slides content =
       map (\<lambda>m. ''**'' @ take (length m - 2) m) (findall_slides content)"
  using findall_slides_tiles [of content]
  by (simp add: split_into_slides_def py_take_minus2 del: append.simps)

text \<open>
  The \<open>**\<close> that \<open>split_into_slides\<close> puts in front of a fragment is taken
  away again by \<open>remove_double_asteris\<close>, together with every \<open>**\<close> of the
  generated text: the two functions in sequence give the matches, cut by two
  characters, with all \<open>**\<close> deleted.
\<close>

theorem remove_split_into_slides:
  "remove_double_asteris (split_into_slides content) =
     map (\<lambda>m. replace (py_take (- 2) m) ''**'' '''') (findall_slides content)"
  by (simp add: split_into_slides_def remove_double_asteris_def replace_wrap del: append.simps)

text \<open>
  C10. Removing the markers of bold text undoes putting them in front: for a text
  \<open>x\<close> that holds no \<open>**\<close>, \<open>remove_double_asteris\<close> gives \<open>x\<close> back from
  \<open>**x\<close>.
\<close>

theorem remove_double_asteris_roundtrip:
  "\<not> sublist ''**'' x \<Longrightarrow> remove_double_asteris [''**'' @ x] = [x]"
  by (simp add: remove_double_asteris_def replace_wrap replace_absent del: append.simps)

theorem remove_double_asteris_roundtrip_witness:
  "remove_double_asteris [''**'' @ ''Slide 1: *a*''] = [''Slide 1: *a*'']"
  using remove_double_asteris_roundtrip [of "''Slide 1: *a*''"]
  by (simp add: sublist_Cons_right)

text \<open>
  C11. \<open>remove_double_asteris\<close> leaves no \<open>**\<close> in any item, so that cleaning a
  second time changes nothing; of each item it keeps every character that is not an
  asterisk, in order, and takes away an even number of characters.
\<close>

theorem remove_double_asteris_clean:
  "list_all (\<lambda>item. \<not> sublist ''**'' item) (remove_double_asteris input_list) \<and>
   remove_double_asteris (remove_double_asteris input_list) = remove_double_asteris input_list \<and>
   list_all2 (\<lambda>item cleaned.
       filter (\<lambda>c. c \<noteq> CHR ''*'') cleaned = filter (\<lambda>c. c \<noteq> CHR ''*'') item \<and>
       even (length item + length cleaned))
     input_list (remove_double_asteris input_list)"
  using replace_stars(3)
  by (simp add: remove_double_asteris_def replace_stars list_all_iff list_all2_map2 list_all2_same)

text \<open>
  Every fragment that reaches the slide parser, that is every element of
  \<open>remove_double_asteris (split_into_slides content)\<close>, starts with \<open>Slide\<close> and a
  space.
\<close>

theorem fragments_start_with_marker:
  "list_all (\<lambda>f. startswith f ''Slide '') (remove_double_asteris (split_into_slides content))"
  by (simp add: split_into_slides_def remove_double_asteris_def replace_wrap list_all_iff
      fragment_starts_with_marker del: append.simps)

text \<open>
  C32. In a text without \<open>**\<close> the fragment of every slide is its match without the
  last two characters: two characters of the generated text are lost for each slide,
  at the end of the last slide too.
\<close>

theorem fragments_lose_two_characters:
  assumes "\<not> sublist ''**'' content"
  shows "remove_double_asteris (split_into_slides content) =
    map (\<lambda>m. take (length m - 2) m) (findall_slides content)"
proof -
  have "replace (py_take (- 2) m) ''**'' '''' = take (length m - 2) m"
    if "m \<in> set (findall_slides content)" for m
  proof -
    from that have "sublist m content" by (rule findall_slides_sublist)
    with sublist_take [of "length m - 2" m] have "sublist (take (length m - 2) m) content"
      by (rule sublist_order.order_trans)
    with assms have "\<not> sublist ''**'' (take (length m - 2) m)"
      by (blast intro: sublist_order.order_trans)
    then show ?thesis by (simp add: py_take_minus2 replace_absent)
  qed
  then show ?thesis
    by (simp add: split_into_slides_def remove_double_asteris_def replace_wrap del: append.simps)
qed

theorem fragments_lose_two_characters_witness:
  "remove_double_asteris (split_into_slides ''Slide 1: Intro\<newline>* alpha\<newline>* beta'') =
     [''Slide 1: Intro\<newline>* alpha\<newline>* be'']"
  using fragments_lose_two_characters [of "''Slide 1: Intro\<newline>* alpha\<newline>* beta''"]
  by (simp add: sublist_Cons_right slides_eval)

end
