(* ===== verification/Slide_Parser.thy ===== *)
theory Slide_Parser
  imports Py_String
begin

text \<open>
  The slide parser of \<open>App1.py\<close>: \<open>process_slide_title\<close> takes the text of one slide
  apart into its number, its heading and its points, the points joined by commas, or
  returns \<open>None\<close>. \<open>match_header\<close> is \<open>re.match\<close> with the pattern
  \<open>Slide (\d+): (.+)\<close> on the first line; \<open>points_of\<close> is the list comprehension
  over the remaining lines. \<open>well_formed_slide\<close> says what the three results look
  like, and the lemmas show that every result of the parser is of this form.
\<close>

section \<open>The header pattern\<close>

text \<open>
  \<open>Slide (\d+): (.+)\<close> at the start of a text: the digits, and the longest run of
  characters other than a newline after colon and space, which must not be empty.
\<close>

definition match_header :: "pystr \<Rightarrow> (pystr \<times> pystr) option" where
  "match_header h =
     (if prefix ''Slide '' h then
        (let t = drop 6 h; digits = takeWhile is_digit t; r = dropWhile is_digit t
         in if digits \<noteq> [] \<and> prefix '': '' r then
              (let g = takeWhile (\<lambda>c. c \<noteq> newline) (drop 2 r)
               in if g \<noteq> [] then Some (digits, g) else None)
            else None)
      else None)"

section \<open>The functions of the source\<close>

text \<open>
  The lines of the points that are not blank, each without the bullets and spaces at
  its ends and then without whitespace at its ends.
\<close>

definition points_of :: "pystr \<Rightarrow> pystr list" where
  "points_of points =
     map (\<lambda>point. strip (strip_chars point ''* ''))
       (filter (\<lambda>point. strip point \<noteq> []) (split_on newline points))"

definition process_slide_title :: "pystr \<Rightarrow> (pystr \<times> pystr \<times> pystr) option" where
  "process_slide_title slide =
     (case split_once newline slide of
        [first, rest] \<Rightarrow>
          (let slide_header = strip first in
           case match_header slide_header of
             Some (slide_number, g) \<Rightarrow>
               (let title = strip g;
                    points = strip rest;
                    points_list = points_of points;
                    points_string = join '', '' points_list
                in Some (slide_number, title, points_string))
           | None \<Rightarrow> None)
      | _ \<Rightarrow> None)"

declare match_header_def [py_unfold] points_of_def [py_unfold] process_slide_title_def [py_unfold]

lemmas parser_eval = py_unfold Let_def

section \<open>The header\<close>

lemma match_header_digits:
  "match_header h = Some (n, g) \<Longrightarrow> n \<noteq> [] \<and> list_all is_digit n"
  by (auto simp: match_header_def Let_def list_all_iff split: if_splits dest: set_takeWhileD)

lemma match_header_append:
  assumes "match_header h = Some (n, g)"
  shows "\<exists>tail. h = ''Slide '' @ n @ '': '' @ g @ tail \<and> (tail = [] \<or> hd tail = newline)"
proof -
  let ?t = "drop 6 h"
  let ?r = "dropWhile is_digit ?t"
  let ?u = "drop 2 ?r"
  from assms have p: "prefix ''Slide '' h" and c: "prefix '': '' ?r"
    and n: "n = takeWhile is_digit ?t" and g: "g = takeWhile (\<lambda>c. c \<noteq> newline) ?u"
    by (auto simp: match_header_def Let_def split: if_splits)
  from p have "h = ''Slide '' @ ?t" by (auto simp: prefix_def)
  moreover have "?t = n @ ?r" by (simp add: n)
  moreover from c have "?r = '': '' @ ?u" by (auto simp: prefix_def)
  moreover have "?u = g @ dropWhile (\<lambda>c. c \<noteq> newline) ?u" by (simp add: g)
  ultimately have "h = ''Slide '' @ n @ '': '' @ g @ dropWhile (\<lambda>c. c \<noteq> newline) ?u"
    by metis
  moreover have "dropWhile (\<lambda>c. c \<noteq> newline) ?u = [] \<or> hd (dropWhile (\<lambda>c. c \<noteq> newline) ?u) = newline"
    using hd_dropWhile [of "\<lambda>c. c \<noteq> newline" ?u] by auto
  ultimately show ?thesis by blast
qed

lemma takeWhile_digits_colon:
  "list_all is_digit n \<Longrightarrow> takeWhile is_digit (n @ CHR '':'' # s) = n \<and>
     dropWhile is_digit (n @ CHR '':'' # s) = CHR '':'' # s"
  by (induction n) (auto simp: is_digit_def)

lemma match_header_intro:
  assumes "n \<noteq> []" "list_all is_digit n" "g \<noteq> []" "newline \<notin> set g"
  shows "match_header (''Slide '' @ n @ '': '' @ g) = Some (n, g)"
proof -
  from assms(4) have "\<forall>c\<in>set g. c \<noteq> newline" by auto
  with assms(1,3) takeWhile_digits_colon [OF assms(2), of "space # g"] show ?thesis
    by (simp add: match_header_def takeWhile_all)
qed

section \<open>What a result looks like\<close>

definition well_formed_slide :: "pystr \<times> pystr \<times> pystr \<Rightarrow> bool" where
  "well_formed_slide r \<longleftrightarrow>
     (case r of (slide_number, title, points_string) \<Rightarrow>
        slide_number \<noteq> [] \<and> list_all is_digit slide_number \<and>
        title \<noteq> [] \<and> strip title = title \<and> newline \<notin> set title \<and>
        newline \<notin> set points_string)"

lemma points_of_no_newline: "p \<in> set (points_of points) \<Longrightarrow> newline \<notin> set p"
proof -
  assume "p \<in> set (points_of points)"
  then obtain piece where piece: "piece \<in> set (split_on newline points)"
    and p: "p = strip (strip_chars piece ''* '')"
    by (auto simp: points_of_def)
  from piece have "newline \<notin> set piece" by (rule split_on_no_sep)
  with p set_strip_subset [of "strip_chars piece ''* ''"] set_strip_chars_subset [of piece "''* ''"]
  show ?thesis by auto
qed

lemma points_of_stripped: "p \<in> set (points_of points) \<Longrightarrow> strip p = p"
  by (auto simp: points_of_def)

lemma join_points_no_newline: "newline \<notin> set (join '', '' (points_of points))"
  using set_join_subset [of "'', ''" "points_of points"] points_of_no_newline [of _ points]
  by auto

text \<open>What the parser does with a text that has a newline and a header that matches.\<close>

lemma process_slide_title_Some:
  assumes "split_once newline slide = [first, rest]"
    and "match_header (strip first) = Some (n, g)"
  shows "process_slide_title slide = Some (n, strip g, join '', '' (points_of (strip rest)))"
  using assms by (simp add: process_slide_title_def)

lemma process_slide_title_cases:
  obtains (no_newline) "newline \<notin> set slide" "process_slide_title slide = None"
  | (no_header) first rest where "slide = first @ newline # rest" "newline \<notin> set first"
      "match_header (strip first) = None" "process_slide_title slide = None"
  | (parsed) first rest n g where "slide = first @ newline # rest" "newline \<notin> set first"
      "match_header (strip first) = Some (n, g)"
      "process_slide_title slide = Some (n, strip g, join '', '' (points_of (strip rest)))"
proof (rule split_once_cases [of newline slide])
  assume "newline \<notin> set slide" "split_once newline slide = [slide]"
  then show ?thesis by (auto simp: process_slide_title_def intro: no_newline)
next
  fix a b
  assume s: "slide = a @ newline # b" "newline \<notin> set a" "split_once newline slide = [a, b]"
  show ?thesis
  proof (cases "match_header (strip a)")
    case None
    with s show ?thesis by (auto simp: process_slide_title_def intro: no_header)
  next
    case (Some x)
    obtain n g where "x = (n, g)" by (cases x)
    with Some s process_slide_title_Some [of slide a b n g] show ?thesis
      by (auto intro: parsed)
  qed
qed

lemma header_title:
  assumes "newline \<notin> set first" "match_header (strip first) = Some (n, g)"
  shows "strip g \<noteq> [] \<and> newline \<notin> set (strip g)"
proof -
  let ?h = "strip first"
  from assms(1) set_strip_subset [of first] have nl: "newline \<notin> set ?h" by auto
  from match_header_append [OF assms(2)] obtain tail
    where h: "?h = ''Slide '' @ n @ '': '' @ g @ tail" and t: "tail = [] \<or> hd tail = newline"
    by blast
  from assms(2) have g: "g \<noteq> []" by (auto simp: match_header_def Let_def split: if_splits)
  have "tail = []"
  proof (rule ccontr)
    assume "tail \<noteq> []"
    with t have "newline \<in> set tail" by (cases tail) auto
    with h nl show False by (metis Un_iff set_append)
  qed
  with h g have "last ?h = last g" and "?h \<noteq> []" and "set g \<subseteq> set ?h" by auto
  with last_strip [of first] nl have "\<not> py_isspace (last g)" "newline \<notin> set g" by auto
  with g set_strip_subset [of g] show ?thesis by (auto simp: strip_neq_Nil)
qed

lemma process_slide_title_well_formed:
  "process_slide_title slide = Some r \<Longrightarrow> well_formed_slide r"
proof (rule process_slide_title_cases [of slide])
  fix first rest n g
  assume "process_slide_title slide = Some r" "newline \<notin> set first"
    "match_header (strip first) = Some (n, g)"
    "process_slide_title slide = Some (n, strip g, join '', '' (points_of (strip rest)))"
  with header_title [of first n g] match_header_digits [of "strip first" n g]
  show ?thesis by (auto simp: well_formed_slide_def join_points_no_newline)
qed auto

section \<open>A list of bullets\<close>

text \<open>
  A point that the parser gives back as it is: not empty, on one line, and with no
  bullet, space or other whitespace at either end.
\<close>

definition clean_point :: "pystr \<Rightarrow> bool" where
  "clean_point p \<longleftrightarrow> p \<noteq> [] \<and> newline \<notin> set p \<and>
     hd p \<notin> set ''* '' \<and> last p \<notin> set ''* '' \<and> \<not> py_isspace (hd p) \<and> \<not> py_isspace (last p)"

lemma clean_point_strip: "clean_point p \<Longrightarrow> strip (strip_chars (''* '' @ p) ''* '') = p"
proof -
  assume c: "clean_point p"
  then have "strip_chars (''* '' @ p) ''* '' = p"
    by (intro strip_chars_prefix) (auto simp: clean_point_def)
  with c show ?thesis by (simp add: clean_point_def strip_id del: append.simps)
qed

lemma clean_point_kept: "clean_point p \<Longrightarrow> strip (''* '' @ p) \<noteq> []"
proof -
  assume "clean_point p"
  then have "last p \<in> set (''* '' @ p)" "\<not> py_isspace (last p)"
    by (auto simp: clean_point_def)
  then show ?thesis unfolding strip_eq_Nil_iff by blast
qed

lemma points_of_bullets:
  assumes "ps \<noteq> []" "list_all clean_point ps"
  shows "points_of (join [newline] (map ((@) ''* '') ps)) = ps"
proof -
  let ?lines = "map ((@) ''* '') ps"
  from assms have "?lines \<noteq> []" "\<forall>x\<in>set ?lines. newline \<notin> set x"
    by (auto simp: list_all_iff clean_point_def)
  then have "split_on newline (join [newline] ?lines) = ?lines" by (rule split_on_join)
  moreover from assms(2) have "filter (\<lambda>point. strip point \<noteq> []) ?lines = ?lines"
    by (auto simp: list_all_iff filter_id_conv simp del: append.simps dest: clean_point_kept)
  moreover from assms(2) have "map (\<lambda>point. strip (strip_chars point ''* '')) ?lines = ps"
    by (auto simp: list_all_iff map_idI clean_point_strip simp del: append.simps)
  ultimately show ?thesis by (simp add: points_of_def del: append.simps)
qed

text \<open>
  A line that holds bullets only passes the test for blank lines and then loses its
  bullets: it stays in the list as an empty point.
\<close>

lemma points_of_bullet_only_line: "points_of ''* a\<newline>*\<newline>* b'' = [''a'', '''', ''b'']"
  by (simp add: parser_eval)

section \<open>A header line that matches\<close>

lemma digits_no_newline: "list_all is_digit n \<Longrightarrow> newline \<notin> set n"
proof -
  have "\<not> is_digit newline" by (simp add: is_digit_def)
  then show "list_all is_digit n \<Longrightarrow> newline \<notin> set n" by (auto simp: list_all_iff)
qed

lemma header_line_parses:
  assumes "n \<noteq> []" "list_all is_digit n"
    and "title \<noteq> []" "strip title = title" "newline \<notin> set title"
  shows "newline \<notin> set (''Slide '' @ n @ '': '' @ title)"
    and "match_header (strip (''Slide '' @ n @ '': '' @ title)) = Some (n, title)"
proof -
  let ?first = "''Slide '' @ n @ '': '' @ title"
  from digits_no_newline [OF assms(2)] assms(5) show "newline \<notin> set ?first" by simp
  from strip_fixed_ends [OF assms(4,3)] assms(3) have "strip ?first = ?first"
    by (intro strip_id) (simp add: py_isspace_def)
  with match_header_intro [OF assms(1,2,3,5)]
  show "match_header (strip ?first) = Some (n, title)" by simp
qed

lemma process_slide_title_header:
  assumes "n \<noteq> []" "list_all is_digit n"
    and "title \<noteq> []" "strip title = title" "newline \<notin> set title"
  shows "process_slide_title (''Slide '' @ n @ '': '' @ title @ newline # body) =
    Some (n, title, join '', '' (points_of (strip body)))"
proof -
  let ?first = "''Slide '' @ n @ '': '' @ title"
  note h = header_line_parses [OF assms]
  from split_once_present [OF h(1), of body] h(2) assms(4)
    process_slide_title_Some [of "?first @ newline # body" ?first body n title]
  show ?thesis by simp
qed

section \<open>Properties of the slide parser\<close>

text \<open>
  C6. Every result of \<open>process_slide_title\<close> is well formed: the slide number is a
  non-empty string of digits, the title is not empty, has no whitespace at its ends
  and no newline, and the string of points has no newline.
\<close>

theorem process_slide_title_result:
  "process_slide_title slide = Some r \<Longrightarrow> well_formed_slide r"
  by (rule process_slide_title_well_formed)

theorem process_slide_title_result_witness:
  "well_formed_slide (''12'', ''Use cases'', ''search, chat'')"
  by (rule process_slide_title_result
        [of "''Slide 12:  Use cases \<newline>* search\<newline>\<newline>* chat\<newline>''"])
     (simp add: parser_eval)

text \<open>
  \<open>process_slide_title\<close> returns \<open>None\<close> exactly for a text without a newline
  and for a text whose first line, stripped, is not matched by
  \<open>Slide (\d+): (.+)\<close>.
\<close>

theorem process_slide_title_None_iff:
  "process_slide_title slide = None \<longleftrightarrow>
     newline \<notin> set slide \<or>
     match_header (strip (takeWhile (\<lambda>c. c \<noteq> newline) slide)) = None"
proof (rule process_slide_title_cases [of slide])
  fix first rest
  assume a: "slide = first @ newline # rest" "newline \<notin> set first"
    "match_header (strip first) = None" "process_slide_title slide = None"
  then have "takeWhile (\<lambda>c. c \<noteq> newline) slide = first" by (auto simp: takeWhile_tail)
  with a show ?thesis by simp
next
  fix first rest n g
  assume a: "slide = first @ newline # rest" "newline \<notin> set first"
    "match_header (strip first) = Some (n, g)"
    "process_slide_title slide = Some (n, strip g, join '', '' (points_of (strip rest)))"
  then have "takeWhile (\<lambda>c. c \<noteq> newline) slide = first" by (auto simp: takeWhile_tail)
  with a show ?thesis by simp
qed simp

theorem process_slide_title_None_iff_witness:
  "process_slide_title ''Slide 3:Costs\<newline>* low'' = None"
  by (subst process_slide_title_None_iff) (simp add: parser_eval)

text \<open>
  On a text that starts with \<open>Slide\<close>, a number, colon and space, a title on
  the same line and then a newline, \<open>process_slide_title\<close> returns the number, the
  title and the joined points of the text after the newline.
\<close>

theorem process_slide_title_parses:
  assumes "n \<noteq> []" "list_all is_digit n"
    and "title \<noteq> []" "strip title = title" "newline \<notin> set title"
  shows "process_slide_title (''Slide '' @ n @ '': '' @ title @ newline # body) =
    Some (n, title, join '', '' (points_of (strip body)))"
  using assms by (rule process_slide_title_header)

theorem process_slide_title_parses_witness:
  "process_slide_title
     (''Slide '' @ ''7'' @ '': '' @ ''Next steps'' @ newline # ''* plan\<newline>* build'') =
   Some (''7'', ''Next steps'', join '', '' (points_of (strip ''* plan\<newline>* build'')))"
  by (rule process_slide_title_parses) (simp_all add: py_unfold)

text \<open>
  A list of points written as bullets, one \<open>* point\<close> per line, is read back by
  \<open>points_of\<close> as the same list, when no point is empty, spans lines or has a bullet
  or whitespace at an end.
\<close>

theorem points_of_roundtrip:
  "ps \<noteq> [] \<Longrightarrow> list_all clean_point ps \<Longrightarrow>
     points_of (join [newline] (map ((@) ''* '') ps)) = ps"
  by (rule points_of_bullets)

theorem points_of_roundtrip_witness:
  "points_of (join [newline] (map ((@) ''* '') [''fast'', ''cheap *2'', ''good''])) =
     [''fast'', ''cheap *2'', ''good'']"
  by (rule points_of_roundtrip [of "[''fast'', ''cheap *2'', ''good'']"])
     (simp_all add: clean_point_def py_isspace_def)

end
