(* ===== verification/Py_Format.thy ===== *)
theory Py_Format
  imports Py_String
begin

text \<open>
  What the f-strings of the two scripts print: \<open>str\<close> of a natural number in decimal
  (\<open>str_nat\<close>, for the slide counter of \<open>App1.py\<close>) and \<open>repr\<close> of a list of strings
  (\<open>repr_list\<close>, for the topics in the prompt of \<open>App.py\<close>). \<open>nat_of_digits\<close> reads a
  decimal numeral; it is the specification \<open>str_nat\<close> is checked against, and
  \<open>read_repr\<close> reads a \<open>repr\<close> back, which shows that \<open>repr_list\<close> loses nothing.
\<close>

section \<open>Decimal numerals\<close>

definition digit_char :: "nat \<Rightarrow> char" where
  "digit_char d = ''0123456789'' ! (d mod 10)"

function str_nat :: "nat \<Rightarrow> pystr" where
  "str_nat n = (if n < 10 then [digit_char n] else str_nat (n div 10) @ [digit_char (n mod 10)])"
  by pat_completeness auto
termination
  by (relation "measure id") auto

declare str_nat.simps [simp del]

definition digit_val :: "char \<Rightarrow> nat" where
  "digit_val c = of_char c - 48"

definition nat_of_digits :: "pystr \<Rightarrow> nat" where
  "nat_of_digits s = foldl (\<lambda>acc c. 10 * acc + digit_val c) 0 s"

section \<open>\<open>repr\<close> of a string and of a list of strings\<close>

abbreviation (input) backslash :: char where
  "backslash \<equiv> CHR 0x5C"

abbreviation (input) single_quote :: char where
  "single_quote \<equiv> CHR 0x27"

abbreviation (input) double_quote :: char where
  "double_quote \<equiv> CHR 0x22"

text \<open>
  The code points below 256 that \<open>repr\<close> prints as they are: the printable ASCII
  characters and the Latin-1 characters from 161 on, without the soft hyphen.
\<close>

definition py_printable :: "char \<Rightarrow> bool" where
  "py_printable c = (let n = (of_char c :: nat) in (32 \<le> n \<and> n < 127) \<or> (161 \<le> n \<and> n \<noteq> 173))"

definition hex_digit :: "nat \<Rightarrow> char" where
  "hex_digit d = ''0123456789abcdef'' ! (d mod 16)"

text \<open>
  One character inside the quotes: the quote and the backslash are escaped, tab,
  newline and carriage return have their letters, every other character that is not
  printable is \<open>\xhh\<close>.
\<close>

definition repr_char :: "char \<Rightarrow> char \<Rightarrow> pystr" where
  "repr_char q c =
     (if c = q \<or> c = backslash then [backslash, c]
      else if c = CHR 0x09 then [backslash, CHR ''t'']
      else if c = newline then [backslash, CHR ''n'']
      else if c = CHR 0x0D then [backslash, CHR ''r'']
      else if py_printable c then [c]
      else [backslash, CHR ''x'', hex_digit (of_char c div 16), hex_digit (of_char c mod 16)])"

text \<open>Double quotes are chosen when the string has a single quote and no double quote.\<close>

definition repr_quote :: "pystr \<Rightarrow> char" where
  "repr_quote s = (if single_quote \<in> set s \<and> double_quote \<notin> set s then double_quote else single_quote)"

definition py_repr :: "pystr \<Rightarrow> pystr" where
  "py_repr s = (let q = repr_quote s in q # concat (map (repr_char q) s) @ [q])"

definition repr_list :: "pystr list \<Rightarrow> pystr" where
  "repr_list xs = ''['' @ join '', '' (map py_repr xs) @ '']''"

declare digit_char_def [py_unfold] digit_val_def [py_unfold] nat_of_digits_def [py_unfold]
  py_printable_def [py_unfold] hex_digit_def [py_unfold] repr_char_def [py_unfold]
  repr_quote_def [py_unfold] py_repr_def [py_unfold] repr_list_def [py_unfold]

lemmas format_eval = py_unfold Let_def str_nat.simps

section \<open>Facts about decimal numerals\<close>

lemma digit_cases:
  assumes "d < (10::nat)"
  obtains "d = 0" | "d = 1" | "d = 2" | "d = 3" | "d = 4" | "d = 5" | "d = 6" | "d = 7"
    | "d = 8" | "d = 9"
  using assms by atomize_elim presburger

lemma digit_val_digit_char: "d < 10 \<Longrightarrow> digit_val (digit_char d) = d"
  by (erule digit_cases) (simp_all add: digit_val_def digit_char_def)

lemma is_digit_digit_char: "is_digit (digit_char d)"
proof -
  have "d mod 10 < 10" by simp
  then show ?thesis by (rule digit_cases) (simp_all add: is_digit_def digit_char_def)
qed

lemma digit_char_eq_zero: "d < 10 \<Longrightarrow> digit_char d = CHR ''0'' \<longleftrightarrow> d = 0"
  by (erule digit_cases) (simp_all add: digit_char_def)

lemma str_nat_neq_Nil [simp]: "str_nat n \<noteq> []"
  by (subst str_nat.simps) simp

lemma str_nat_digits: "list_all is_digit (str_nat n)"
  by (induction n rule: str_nat.induct) (subst str_nat.simps, simp add: is_digit_digit_char)

lemma nat_of_digits_snoc: "nat_of_digits (s @ [c]) = 10 * nat_of_digits s + digit_val c"
  by (simp add: nat_of_digits_def)

lemma nat_of_digits_str_nat: "nat_of_digits (str_nat n) = n"
proof (induction n rule: str_nat.induct)
  case (1 n)
  show ?case
  proof (cases "n < 10")
    case True
    then show ?thesis
      by (subst str_nat.simps) (simp add: nat_of_digits_def digit_val_digit_char)
  next
    case False
    with 1 show ?thesis
      by (subst str_nat.simps) (simp add: nat_of_digits_snoc digit_val_digit_char)
  qed
qed

lemma str_nat_inject [simp]: "str_nat m = str_nat n \<longleftrightarrow> m = n"
  by (metis nat_of_digits_str_nat)

lemma length_str_nat_small: "n < 10 \<Longrightarrow> length (str_nat n) = 1"
  by (subst str_nat.simps) simp

section \<open>Facts about \<open>repr\<close>\<close>

lemma py_printable_hex_digit: "py_printable (hex_digit d)"
proof -
  have "hex_digit d \<in> set ''0123456789abcdef''"
    unfolding hex_digit_def by (rule nth_mem) simp
  then show ?thesis by (auto simp: py_printable_def)
qed

lemma repr_char_printable: "py_printable q \<Longrightarrow> c' \<in> set (repr_char q c) \<Longrightarrow> py_printable c'"
  by (auto simp: repr_char_def py_printable_hex_digit split: if_splits)
     (simp_all add: py_printable_def)

lemma py_printable_repr_quote: "py_printable (repr_quote s)"
  by (simp add: repr_quote_def py_printable_def)

lemma py_repr_printable: "list_all py_printable (py_repr s)"
  using repr_char_printable [OF py_printable_repr_quote [of s]]
  by (auto simp: py_repr_def Let_def list_all_iff py_printable_repr_quote)

text \<open>A string of printable characters without quotes and backslashes is put between single quotes.\<close>

definition plain :: "pystr \<Rightarrow> bool" where
  "plain s \<longleftrightarrow> list_all (\<lambda>c. py_printable c \<and> c \<notin> {single_quote, double_quote, backslash}) s"

lemma repr_char_plain:
  "py_printable c \<Longrightarrow> c \<notin> {single_quote, double_quote, backslash} \<Longrightarrow> repr_char single_quote c = [c]"
  by (auto simp: repr_char_def py_printable_def)

lemma py_repr_plain: "plain s \<Longrightarrow> py_repr s = single_quote # s @ [single_quote]"
proof -
  assume p: "plain s"
  then have "repr_quote s = single_quote" by (auto simp: plain_def repr_quote_def list_all_iff)
  moreover from p have "concat (map (repr_char single_quote) s) = s"
    by (induction s) (simp_all add: plain_def repr_char_plain)
  ultimately show ?thesis by (simp add: py_repr_def Let_def)
qed

lemma repr_list_printable: "list_all py_printable (repr_list xs)"
proof -
  have "set (join '', '' (map py_repr xs)) \<subseteq> set '', '' \<union> \<Union> (set ` set (map py_repr xs))"
    by (rule set_join_subset)
  moreover have "list_all py_printable '', ''" by (simp add: py_printable_def)
  ultimately have "list_all py_printable (join '', '' (map py_repr xs))"
    using py_repr_printable by (fastforce simp: list_all_iff)
  then show ?thesis by (simp add: repr_list_def py_printable_def)
qed

section \<open>Reading a \<open>repr\<close> back\<close>

text \<open>
  \<open>repr\<close> loses nothing: \<open>read_repr\<close> reads the \<open>repr\<close> of a string from the front of
  a text and gives the string and the rest of the text. It is the specification the
  escapes of \<open>repr_char\<close> are checked against.
\<close>

definition hex_val :: "char \<Rightarrow> nat" where
  "hex_val c = (if is_digit c then of_char c - 48 else of_char c - 87)"

definition unescape :: "char \<Rightarrow> char" where
  "unescape d =
     (if d = CHR ''t'' then CHR 0x09 else if d = CHR ''n'' then newline
      else if d = CHR ''r'' then CHR 0x0D else d)"

fun read_chars :: "char \<Rightarrow> pystr \<Rightarrow> (pystr \<times> pystr) option" where
  "read_chars q [] = None"
| "read_chars q [c] = (if c = q then Some ([], []) else None)"
| "read_chars q (c # d # cs) =
     (if c = q then Some ([], d # cs)
      else if c = backslash then
        (if d = CHR ''x'' then
           (case cs of
              h1 # h2 # es \<Rightarrow>
                map_option (apfst ((#) (char_of (16 * hex_val h1 + hex_val h2)))) (read_chars q es)
            | _ \<Rightarrow> None)
         else map_option (apfst ((#) (unescape d))) (read_chars q cs))
      else map_option (apfst ((#) c)) (read_chars q (d # cs)))"

definition read_repr :: "pystr \<Rightarrow> (pystr \<times> pystr) option" where
  "read_repr s =
     (case s of
        [] \<Rightarrow> None
      | q # cs \<Rightarrow> if q = single_quote \<or> q = double_quote then read_chars q cs else None)"

lemma hex_cases:
  assumes "d < (16::nat)"
  obtains "d = 0" | "d = 1" | "d = 2" | "d = 3" | "d = 4" | "d = 5" | "d = 6" | "d = 7"
    | "d = 8" | "d = 9" | "d = 10" | "d = 11" | "d = 12" | "d = 13" | "d = 14" | "d = 15"
  using assms by atomize_elim presburger

lemma hex_val_hex_digit: "d < 16 \<Longrightarrow> hex_val (hex_digit d) = d"
  by (erule hex_cases) (simp_all add: hex_val_def hex_digit_def is_digit_def)

lemma hex_digit_not_quote: "hex_digit d \<noteq> q" if "q = single_quote \<or> q = double_quote"
proof -
  have "hex_digit d \<in> set ''0123456789abcdef''"
    unfolding hex_digit_def by (rule nth_mem) simp
  with that show ?thesis by auto
qed

lemma char_of_hex:
  "char_of (16 * hex_val (hex_digit (of_char c div 16)) + hex_val (hex_digit (of_char c mod 16))) = c"
proof -
  have "(of_char c :: nat) < 256" by simp
  then have "(of_char c :: nat) div 16 < 16"
    using less_mult_imp_div_less [of "of_char c" 16 16] by simp
  then show ?thesis by (simp add: hex_val_hex_digit)
qed

text \<open>One character of the string, read back from its escape.\<close>

lemma read_chars_repr_char:
  assumes "q = single_quote \<or> q = double_quote" "rest \<noteq> []"
  shows "read_chars q (repr_char q c @ rest) = map_option (apfst ((#) c)) (read_chars q rest)"
proof -
  obtain r rs where rest: "rest = r # rs" using assms(2) by (cases rest) auto
  consider (quote) "c = q \<or> c = backslash"
    | (letter) "c \<noteq> q" "c \<noteq> backslash" "c \<in> {CHR 0x09, newline, CHR 0x0D}"
    | (printable) "c \<noteq> q" "c \<noteq> backslash" "c \<notin> {CHR 0x09, newline, CHR 0x0D}" "py_printable c"
    | (hex) "c \<noteq> q" "c \<noteq> backslash" "c \<notin> {CHR 0x09, newline, CHR 0x0D}" "\<not> py_printable c"
    by blast
  then show ?thesis
  proof cases
    case quote
    with assms(1) rest show ?thesis by (auto simp: repr_char_def unescape_def)
  next
    case letter
    with assms(1) rest show ?thesis by (auto simp: repr_char_def unescape_def)
  next
    case printable
    with rest show ?thesis by (simp add: repr_char_def)
  next
    case hex
    with assms(1) rest char_of_hex [of c] show ?thesis
      by (auto simp: repr_char_def)
  qed
qed

lemma read_chars_repr:
  assumes "q = single_quote \<or> q = double_quote"
  shows "read_chars q (concat (map (repr_char q) s) @ q # rest) = Some (s, rest)"
proof (induction s)
  case Nil
  show ?case by (cases rest) simp_all
next
  case (Cons c s)
  from read_chars_repr_char [OF assms, of "concat (map (repr_char q) s) @ q # rest" c] Cons
  show ?case by simp
qed

lemma read_repr_py_repr: "read_repr (py_repr s @ rest) = Some (s, rest)"
proof -
  have "repr_quote s = single_quote \<or> repr_quote s = double_quote" by (simp add: repr_quote_def)
  from read_chars_repr [OF this, of s rest] this show ?thesis
    by (auto simp: read_repr_def py_repr_def Let_def)
qed

lemma py_repr_inject [simp]: "py_repr s = py_repr t \<longleftrightarrow> s = t"
proof
  assume "py_repr s = py_repr t"
  then have "read_repr (py_repr s @ []) = read_repr (py_repr t @ [])" by simp
  then show "s = t" unfolding read_repr_py_repr by simp
qed simp

lemma repr_items_Cons:
  assumes "ys \<noteq> []"
  shows "\<exists>q t. (q = single_quote \<or> q = double_quote) \<and>
    join '', '' (map py_repr ys) @ rest = q # t"
proof -
  obtain y ys' where ys: "ys = y # ys'" using assms by (cases ys) auto
  have "repr_quote y = single_quote \<or> repr_quote y = double_quote" by (simp add: repr_quote_def)
  moreover have "\<exists>t. join '', '' (map py_repr ys) @ rest = repr_quote y # t"
    by (simp add: ys join_Cons py_repr_def Let_def)
  ultimately show ?thesis by blast
qed

text \<open>
  The items of a list are read back one after the other: two lists with the same text
  up to the closing bracket are the same list, and what follows the bracket is the
  same.
\<close>

lemma repr_items_inject:
  "join '', '' (map py_repr xs) @ '']'' @ r = join '', '' (map py_repr ys) @ '']'' @ r' \<Longrightarrow>
     xs = ys \<and> r = r'"
proof (induction xs arbitrary: ys)
  case Nil
  then show ?case using repr_items_Cons [of ys "'']'' @ r'"] by (cases "ys = []") auto
next
  case (Cons x xs)
  show ?case
  proof (cases ys)
    case Nil
    with Cons.prems repr_items_Cons [of "x # xs" "'']'' @ r"] show ?thesis by auto
  next
    case (Cons y ys')
    let ?tail = "\<lambda>zs r. (if zs = [] then [] else '', '' @ join '', '' (map py_repr zs)) @ '']'' @ r"
    from Cons.prems Cons have "py_repr x @ ?tail xs r = py_repr y @ ?tail ys' r'"
      by (cases "xs = []"; cases "ys' = []") (simp_all add: join_Cons)
    then have "read_repr (py_repr x @ ?tail xs r) = read_repr (py_repr y @ ?tail ys' r')" by simp
    then have xy: "x = y" and t: "?tail xs r = ?tail ys' r'"
      by (simp_all only: read_repr_py_repr option.inject prod.inject)
    from t have "join '', '' (map py_repr xs) @ '']'' @ r = join '', '' (map py_repr ys') @ '']'' @ r'"
      by (cases "xs = []"; cases "ys' = []") (auto split: if_splits)
    from Cons.IH [OF this] xy Cons show ?thesis by simp
  qed
qed

lemma repr_list_inject:
  "repr_list xs @ r = repr_list ys @ r' \<longleftrightarrow> xs = ys \<and> r = r'"
  using repr_items_inject [of xs r ys r'] by (auto simp: repr_list_def)

end
