(* ===== verification/Runtime.thy ===== *)
theory Runtime
  imports Py_Format
begin

text \<open>
  What the two scripts run in, as the interface the component theories share: the
  configuration read at start-up (\<open>env\<close>), the calls to Streamlit as a list of
  events in the order they are made (\<open>ui_event\<close>), the prompts sent to the text
  service, and the files written (\<open>world\<close>). The type of a deck is a parameter
  \<open>'d\<close>: the requester and the page flow do not look into a deck, and the lemmas
  about them hold for every deck type. Exceptions the scripts can raise are the
  values of \<open>py_error\<close>, and a function that can raise returns \<open>py_error + 'a\<close>.
\<close>

section \<open>Configuration\<close>

text \<open>
  \<open>GEMINI_API_KEY\<close> is the result of \<open>os.getenv\<close>, a string or \<open>None\<close>. The text
  service is a function of the prompt: \<open>Inr\<close> the text of the response, \<open>Inl\<close> the
  message of the exception raised by the call or by reading the response.
\<close>

record env =
  api_key :: "pystr option"
  service :: "pystr \<Rightarrow> pystr + pystr"

text \<open>\<open>not GEMINI_API_KEY\<close>: the key is \<open>None\<close> or the empty string.\<close>

definition key_missing :: "env \<Rightarrow> bool" where
  "key_missing e = (case api_key e of None \<Rightarrow> True | Some k \<Rightarrow> k = [])"

section \<open>Exceptions\<close>

datatype py_error = TypeError | IndexError | FileNotFoundError

type_synonym 'a result = "py_error + 'a"

section \<open>Events and the world\<close>

datatype 'd ui_event =
    St_title pystr
  | St_error pystr
  | St_info pystr
  | St_success pystr
  | St_write pystr
  | St_subheader pystr
  | St_text_area pystr pystr nat
  | St_download_button pystr 'd pystr pystr

record 'd world =
  ui :: "'d ui_event list"
  requests :: "pystr list"
  files :: "pystr \<rightharpoonup> 'd"

definition emit :: "'d ui_event \<Rightarrow> 'd world \<Rightarrow> 'd world" where
  "emit ev w = w\<lparr>ui := ui w @ [ev]\<rparr>"

definition send :: "pystr \<Rightarrow> 'd world \<Rightarrow> 'd world" where
  "send prompt w = w\<lparr>requests := requests w @ [prompt]\<rparr>"

definition save :: "pystr \<Rightarrow> 'd \<Rightarrow> 'd world \<Rightarrow> 'd world" where
  "save file_name prs w = w\<lparr>files := (files w)(file_name \<mapsto> prs)\<rparr>"

definition empty_world :: "'d world" where
  "empty_world = \<lparr>ui = [], requests = [], files = Map.empty\<rparr>"

text \<open>An event that shows an error to the user, and one that offers a deck.\<close>

fun is_error :: "'d ui_event \<Rightarrow> bool" where
  "is_error (St_error msg) = True"
| "is_error _ = False"

fun is_download :: "'d ui_event \<Rightarrow> bool" where
  "is_download (St_download_button label d file_name mime) = True"
| "is_download _ = False"

section \<open>Facts about the world\<close>

lemma ui_emit [simp]: "ui (emit ev w) = ui w @ [ev]"
  and requests_emit [simp]: "requests (emit ev w) = requests w"
  and files_emit [simp]: "files (emit ev w) = files w"
  by (simp_all add: emit_def)

lemma ui_send [simp]: "ui (send prompt w) = ui w"
  and requests_send [simp]: "requests (send prompt w) = requests w @ [prompt]"
  and files_send [simp]: "files (send prompt w) = files w"
  by (simp_all add: send_def)

lemma ui_save [simp]: "ui (save file_name prs w) = ui w"
  and requests_save [simp]: "requests (save file_name prs w) = requests w"
  and files_save [simp]: "files (save file_name prs w) = (files w)(file_name \<mapsto> prs)"
  by (simp_all add: save_def)

lemma empty_world_simps [simp]:
  "ui empty_world = []" "requests empty_world = []" "files empty_world = Map.empty"
  by (simp_all add: empty_world_def)

lemma key_missing_simps [simp]:
  "key_missing (e\<lparr>api_key := None\<rparr>)"
  "key_missing (e\<lparr>api_key := Some k\<rparr>) \<longleftrightarrow> k = []"
  by (simp_all add: key_missing_def)

lemma key_missing_iff: "key_missing e \<longleftrightarrow> api_key e = None \<or> api_key e = Some []"
  by (simp add: key_missing_def split: option.splits)

text \<open>
  The world only grows: a later world has the events and prompts of an earlier one
  as a prefix.
\<close>

definition extends :: "'d world \<Rightarrow> 'd world \<Rightarrow> bool" where
  "extends w w' \<longleftrightarrow> prefix (ui w) (ui w') \<and> prefix (requests w) (requests w')"

lemma extends_refl [simp]: "extends w w"
  by (simp add: extends_def)

lemma extends_trans [trans]: "extends w w' \<Longrightarrow> extends w' w'' \<Longrightarrow> extends w w''"
  by (auto simp: extends_def)

lemma extends_emit [simp]: "extends w (emit ev w)"
  and extends_send [simp]: "extends w (send prompt w)"
  and extends_save [simp]: "extends w (save file_name prs w)"
  by (simp_all add: extends_def)

lemma extends_emitI: "extends w w' \<Longrightarrow> extends w (emit ev w')"
  and extends_sendI: "extends w w' \<Longrightarrow> extends w (send prompt w')"
  and extends_saveI: "extends w w' \<Longrightarrow> extends w (save file_name prs w')"
  by (auto simp: extends_def intro: prefix_order.order_trans)

end
