(* ===== verification/Requester.thy ===== *)
theory Requester
  imports Runtime
begin

text \<open>
  The content requester: \<open>generate_content\<close> of \<open>App.py\<close>, which takes the prompt,
  and \<open>generate_content\<close> of \<open>App1.py\<close>, which builds it from title and topics and
  is named \<open>generate_content1\<close> here. Both return a string in every case: the text of
  the service, or a sentence that starts with \<open>Error\<close>. \<open>call_service\<close> is the
  \<open>try\<close> block the two functions share; it records the prompt in the world before
  the service answers.
\<close>

section \<open>The functions of the source\<close>

definition call_service :: "env \<Rightarrow> pystr \<Rightarrow> 'd world \<Rightarrow> pystr \<times> 'd world" where
  "call_service e prompt w =
     (case service e prompt of
        Inr response_text \<Rightarrow> (response_text, send prompt w)
      | Inl msg \<Rightarrow>
          (''Error generating content.'', emit (St_error (''Error: '' @ msg)) (send prompt w)))"

definition generate_content :: "env \<Rightarrow> pystr \<Rightarrow> 'd world \<Rightarrow> pystr \<times> 'd world" where
  "generate_content e prompt w =
     (if key_missing e then
        (''Error: Missing API key.'',
         emit (St_error ''Gemini API key not found. Please set it in the .env file.'') w)
      else call_service e prompt w)"

definition prompt_B :: "pystr \<Rightarrow> pystr list \<Rightarrow> pystr" where
  "prompt_B title topics =
     ''Generate ppt for the topic: '' @ join '', '' topics @ '' under title '' @ title"

definition generate_content1 :: "env \<Rightarrow> pystr \<Rightarrow> pystr list \<Rightarrow> 'd world \<Rightarrow> pystr \<times> 'd world" where
  "generate_content1 e title topics w =
     (if key_missing e then
        (''Error: Missing API key.'',
         emit (St_error ''Gemini API key not found. Please set it in the .env file.'') w)
      else
        (let prompt = prompt_B title topics
         in call_service e prompt w))"

declare call_service_def [py_unfold] generate_content_def [py_unfold]
  generate_content1_def [py_unfold] key_missing_def [py_unfold] prompt_B_def [py_unfold]
  emit_def [py_unfold] send_def [py_unfold] save_def [py_unfold]

section \<open>Outcomes of a request\<close>

text \<open>
  The three ways a request ends, as a case rule: no key, an exception of the
  service, a text.
\<close>

lemma generate_content_cases:
  obtains (no_key) "key_missing e"
      "generate_content e prompt w = (''Error: Missing API key.'',
         emit (St_error ''Gemini API key not found. Please set it in the .env file.'') w)"
  | (raised) msg where "\<not> key_missing e" "service e prompt = Inl msg"
      "generate_content e prompt w = (''Error generating content.'',
         emit (St_error (''Error: '' @ msg)) (send prompt w))"
  | (answered) response_text where "\<not> key_missing e" "service e prompt = Inr response_text"
      "generate_content e prompt w = (response_text, send prompt w)"
  by (cases "key_missing e"; cases "service e prompt")
     (auto simp: generate_content_def call_service_def)

lemma generate_content_extends: "extends w (snd (generate_content e prompt w))"
  by (rule generate_content_cases [of e prompt w]) (simp_all add: extends_emitI)

lemma generate_content_files [simp]: "files (snd (generate_content e prompt w)) = files w"
  by (rule generate_content_cases [of e prompt w]) simp_all

lemma generate_content_requests:
  "requests (snd (generate_content e prompt w)) =
     (if key_missing e then requests w else requests w @ [prompt])"
  by (rule generate_content_cases [of e prompt w]) simp_all

lemma generate_content_ui:
  "\<exists>evs. ui (snd (generate_content e prompt w)) = ui w @ evs \<and> list_all is_error evs \<and>
     (evs = [] \<longleftrightarrow> \<not> key_missing e \<and> \<not> isl (service e prompt))"
  by (rule generate_content_cases [of e prompt w]) simp_all

lemma generate_content_failed:
  "key_missing e \<or> isl (service e prompt) \<Longrightarrow>
     startswith (fst (generate_content e prompt w)) ''Error''"
  by (rule generate_content_cases [of e prompt w]) (simp_all add: startswith_def)

text \<open>
  The requester of \<open>App1.py\<close> is the requester of \<open>App.py\<close> on the prompt made of
  the topics, joined by comma and space, and the title.
\<close>

lemma generate_content1_prompt:
  "generate_content1 e title topics w = generate_content e (prompt_B title topics) w"
  by (simp add: generate_content1_def generate_content_def)

text \<open>
  The prompt of \<open>App1.py\<close> joins the topics with comma and space and does not
  quote them: different lists of topics can give the same prompt.
\<close>

lemma prompt_B_ambiguous: "prompt_B title [''a, b''] = prompt_B title [''a'', ''b'']"
  by (simp add: prompt_B_def)

section \<open>Properties of the requester\<close>

text \<open>
  Without a key, \<open>None\<close> or the empty string, \<open>generate_content\<close> returns the
  sentence \<open>Error: Missing API key.\<close>, shows one error and sends nothing to the
  service, whatever the prompt and whatever the service would answer.
\<close>

theorem generate_content_missing_key:
  assumes "key_missing e"
  shows "generate_content e prompt w =
      (''Error: Missing API key.'',
       emit (St_error ''Gemini API key not found. Please set it in the .env file.'') w) \<and>
    requests (snd (generate_content e prompt w)) = requests w"
  using assms by (simp add: generate_content_def)

theorem generate_content_missing_key_witness:
  "fst (generate_content \<lparr>api_key = Some '''', service = (\<lambda>p. Inr ''Slide 1: A'')\<rparr>
          ''Generate ppt'' (empty_world :: unit world)) = ''Error: Missing API key.''"
  using generate_content_missing_key
    [of "\<lparr>api_key = Some [], service = (\<lambda>p. Inr ''Slide 1: A'')\<rparr>" "''Generate ppt''"
        "empty_world :: unit world"]
  by (simp add: key_missing_def)

text \<open>
  With a key, \<open>generate_content\<close> sends the prompt once and returns what the
  service answers: its text unchanged and no event, or, when the call raises, the
  sentence \<open>Error generating content.\<close> and one error that shows the message of the
  exception.
\<close>

theorem generate_content_with_key:
  assumes "\<not> key_missing e"
  shows "generate_content e prompt w =
    (case service e prompt of
       Inr response_text \<Rightarrow> (response_text, send prompt w)
     | Inl msg \<Rightarrow> (''Error generating content.'',
         emit (St_error (''Error: '' @ msg)) (send prompt w)))"
  using assms by (simp add: generate_content_def call_service_def)

theorem generate_content_with_key_witness:
  "generate_content \<lparr>api_key = Some ''k'', service = (\<lambda>p. Inl ''quota'')\<rparr>
     ''Generate ppt'' (empty_world :: unit world) =
   (''Error generating content.'',
    \<lparr>ui = [St_error ''Error: quota''], requests = [''Generate ppt''], files = Map.empty\<rparr>)"
  by (subst generate_content_with_key) (simp_all add: py_unfold empty_world_def)

text \<open>
  Every failed request is signalled by the prefix \<open>Error\<close>: when the key is
  missing or the service raises, the returned string starts with \<open>Error\<close> and the
  events added are errors. The prefix is not a sign of failure, though: a text of
  the service that starts with \<open>Error\<close> is returned as it is.
\<close>

theorem generate_content_error_prefix:
  "(key_missing e \<or> isl (service e prompt) \<longrightarrow>
      startswith (fst (generate_content e prompt w)) ''Error'') \<and>
   (\<not> key_missing e \<and> service e prompt = Inr response_text \<longrightarrow>
      fst (generate_content e prompt w) = response_text)"
  using generate_content_failed [of e prompt w]
  by (auto simp: generate_content_def call_service_def)

theorem generate_content_error_prefix_witness:
  "startswith (fst (generate_content \<lparr>api_key = Some ''k'',
       service = (\<lambda>p. Inr ''Errors and exceptions in Python'')\<rparr> ''p'' (empty_world :: unit world)))
     ''Error''"
  using generate_content_error_prefix
    [of "\<lparr>api_key = Some ''k'', service = (\<lambda>p. Inr ''Errors and exceptions in Python'')\<rparr>"
        "''p''" "empty_world :: unit world" "''Errors and exceptions in Python''"]
  by (simp add: py_unfold)

end
