(* ===== verification/Deck.thy ===== *)
theory Deck
  imports Py_String
begin

text \<open>
  The part of \<open>python-pptx\<close> the scripts use, as data: a presentation is the list of
  its slides, a slide has a layout, a title shape and the placeholder with index 1,
  a shape holds a text frame, a text frame is a list of paragraphs, a paragraph a
  list of runs. The operations are the ones the scripts call on these objects:
  \<open>Presentation()\<close>, \<open>add_slide\<close>, assigning \<open>text\<close>, reading \<open>text\<close>, \<open>Pt\<close>.
  They are stated from the documented behaviour of the library, which is not part of
  the repository. A slide of the scripts is always the one added last, so the model
  builds a slide as a value and appends it when it is complete. The field \<open>bullet\<close>
  of a paragraph is not a property of the library: it holds what \<open>App.py\<close> assigns to
  the object under this name.
\<close>

section \<open>Data\<close>

datatype pp_align = LEFT | CENTER | RIGHT | JUSTIFY

record run =
  run_text :: pystr
  font_size :: "int option"

record text_paragraph =
  runs :: "run list"
  level :: nat
  bullet :: "pystr option"
  alignment :: "pp_align option"

type_synonym text_frame = "text_paragraph list"

record slide =
  layout :: nat
  shape_title :: text_frame
  placeholder_1 :: text_frame

type_synonym presentation = "slide list"

section \<open>Operations of the library\<close>

text \<open>A length in points, in English Metric Units.\<close>

definition Pt :: "int \<Rightarrow> int" where
  "Pt points = points * 12700"

text \<open>
  Assigning \<open>text\<close> replaces the paragraphs of a frame: one paragraph for each line
  of the string, with one run that holds the line, or with no run for an empty line.
  The new paragraphs have no properties of their own.
\<close>

definition line_paragraph :: "pystr \<Rightarrow> text_paragraph" where
  "line_paragraph line =
     \<lparr>runs = (if line = [] then [] else [\<lparr>run_text = line, font_size = None\<rparr>]),
      level = 0, bullet = None, alignment = None\<rparr>"

definition set_text :: "pystr \<Rightarrow> text_frame" where
  "set_text s = map line_paragraph (split_on newline s)"

text \<open>Reading \<open>text\<close>: the runs of each paragraph, the paragraphs joined by newlines.\<close>

definition paragraph_text :: "text_paragraph \<Rightarrow> pystr" where
  "paragraph_text p = concat (map run_text (runs p))"

definition frame_text :: "text_frame \<Rightarrow> pystr" where
  "frame_text f = join [newline] (map paragraph_text f)"

text \<open>
  A new presentation has no slide. A new slide of layout 0 (title slide) or 1 (title
  and content) has a title and a placeholder 1, each with one empty paragraph.
\<close>

definition Presentation :: presentation where
  "Presentation = []"

definition new_slide :: "nat \<Rightarrow> slide" where
  "new_slide lay = \<lparr>layout = lay, shape_title = set_text [], placeholder_1 = set_text []\<rparr>"

definition add_slide :: "slide \<Rightarrow> presentation \<Rightarrow> presentation" where
  "add_slide s prs = prs @ [s]"

text \<open>The text of the title and of the body of a slide.\<close>

definition title_text :: "slide \<Rightarrow> pystr" where
  "title_text s = frame_text (shape_title s)"

definition body_text :: "slide \<Rightarrow> pystr" where
  "body_text s = frame_text (placeholder_1 s)"

declare Pt_def [py_unfold] line_paragraph_def [py_unfold] set_text_def [py_unfold]
  paragraph_text_def [py_unfold] frame_text_def [py_unfold] Presentation_def [py_unfold]
  new_slide_def [py_unfold] add_slide_def [py_unfold]

section \<open>Facts about text frames\<close>

lemma paragraph_text_line [simp]: "paragraph_text (line_paragraph line) = line"
  by (simp add: paragraph_text_def line_paragraph_def)

lemma frame_text_set_text [simp]: "frame_text (set_text s) = s"
  by (simp add: frame_text_def set_text_def comp_def join_split_on)

lemma set_text_neq_Nil [simp]: "set_text s \<noteq> []"
  by (simp add: set_text_def split_on_neq_Nil)

lemma length_set_text: "length (set_text s) = Suc (count_list s newline)"
  by (simp add: set_text_def length_split_on)

lemma length_add_slide [simp]: "length (add_slide s prs) = Suc (length prs)"
  by (simp add: add_slide_def)

lemma level_line_paragraph [simp]: "level (line_paragraph line) = 0"
  and alignment_line_paragraph [simp]: "alignment (line_paragraph line) = None"
  and bullet_line_paragraph [simp]: "bullet (line_paragraph line) = None"
  by (simp_all add: line_paragraph_def)

lemma font_size_line_paragraph:
  "r \<in> set (runs (line_paragraph line)) \<Longrightarrow> font_size r = None"
  by (auto simp: line_paragraph_def split: if_splits)

end
