(* ===== verification/Assembler_A.thy ===== *)
theory Assembler_A
  imports Requester Deck Segmenter
begin

text \<open>
  The deck assembler of \<open>App.py\<close>: \<open>set_font_size\<close> and \<open>create_presentation\<close>. The
  body of the loop over the topics is \<open>topic_loop\<close>; the statements that fill one
  slide are \<open>title_slide\<close> and \<open>content_slide\<close>, the latter with the paragraph level
  as a parameter, since the source has the same statements twice, with level 0 for
  the first chunk of a topic and level 3 for the others. \<open>create_presentation\<close>
  returns the file name and the world in which the deck is saved under it;
  \<open>None\<close> stands for a segmenter that does not return and \<open>Inl\<close> for an exception.
  \<open>deck_A\<close> is the deck the function is meant to build, as a function of title,
  topics and generated text.
\<close>

section \<open>The functions of the source\<close>

definition set_font_size :: "text_frame \<Rightarrow> int \<Rightarrow> text_frame" where
  "set_font_size placeholder sz =
     map (\<lambda>par. par\<lparr>runs := map (\<lambda>r. r\<lparr>font_size := Some (Pt sz)\<rparr>) (runs par)\<rparr>) placeholder"

definition title_slide :: "pystr \<Rightarrow> slide" where
  "title_slide title =
     (let slide = new_slide 0;
          title_placeholder = set_text title;
          subtitle_placeholder = set_text ''Generated by AI''
      in slide\<lparr>shape_title := set_font_size title_placeholder 32,
                placeholder_1 := set_font_size subtitle_placeholder 20\<rparr>)"

definition remove_bullets :: "nat \<Rightarrow> text_frame \<Rightarrow> text_frame" where
  "remove_bullets lvl content_placeholder =
     map (\<lambda>par. par\<lparr>level := lvl, bullet := None, alignment := Some LEFT\<rparr>) content_placeholder"

definition content_slide :: "nat \<Rightarrow> pystr \<Rightarrow> pystr \<Rightarrow> slide" where
  "content_slide lvl topic chunk =
     (let slide = new_slide 1;
          slide_title = set_text topic;
          content_placeholder = remove_bullets lvl (set_text chunk)
      in slide\<lparr>shape_title := set_font_size slide_title 24,
                placeholder_1 := set_font_size content_placeholder 18\<rparr>)"

text \<open>
  The slides of one topic: \<open>content_chunks[0]\<close> raises \<open>IndexError\<close> on an empty
  list.
\<close>

definition topic_slides :: "pystr \<Rightarrow> pystr list \<Rightarrow> slide list result" where
  "topic_slides topic content_chunks =
     (case content_chunks of
        [] \<Rightarrow> Inl IndexError
      | first # others \<Rightarrow> Inr (content_slide 0 topic first # map (content_slide 3 topic) others))"

fun topic_loop :: "pystr \<Rightarrow> pystr list \<Rightarrow> presentation \<times> 'd world \<Rightarrow>
    (presentation \<times> 'd world) result option" where
  "topic_loop content [] (prs, w) = Some (Inr (prs, w))"
| "topic_loop content (topic # topics) (prs, w) =
     (let w = emit (St_write content) (emit (St_write (''### '' @ topic)) w) in
      case split_content content 900 of
        None \<Rightarrow> None
      | Some content_chunks \<Rightarrow>
          (case topic_slides topic content_chunks of
             Inl err \<Rightarrow> Some (Inl err)
           | Inr new_slides \<Rightarrow> topic_loop content topics (prs @ new_slides, w)))"

definition prompt_A :: "pystr \<Rightarrow> pystr list \<Rightarrow> pystr" where
  "prompt_A title topics =
     ''Generate ppt for the topic:'' @ repr_list topics @ '' under title '' @ title"

definition create_presentation :: "env \<Rightarrow> pystr \<Rightarrow> pystr list \<Rightarrow> presentation world \<Rightarrow>
    (pystr \<times> presentation world) result option" where
  "create_presentation e title topics w =
     (let prs = add_slide (title_slide title) Presentation;
          (content, w) = generate_content e (prompt_A title topics) w
      in case topic_loop content topics (prs, w) of
           None \<Rightarrow> None
         | Some (Inl err) \<Rightarrow> Some (Inl err)
         | Some (Inr (prs, w)) \<Rightarrow>
             (let file_name = replace title '' '' ''_'' @ ''.pptx''
              in Some (Inr (file_name, save file_name prs w))))"

declare set_font_size_def [py_unfold] title_slide_def [py_unfold] remove_bullets_def [py_unfold]
  content_slide_def [py_unfold] topic_slides_def [py_unfold] prompt_A_def [py_unfold]
  create_presentation_def [py_unfold]

section \<open>The deck that is meant\<close>

definition topic_deck :: "pystr \<Rightarrow> pystr \<Rightarrow> slide list" where
  "topic_deck content topic =
     (let chunks = split_chunks 900 content
      in content_slide 0 topic (hd chunks) # map (content_slide 3 topic) (tl chunks))"

definition deck_A :: "pystr \<Rightarrow> pystr list \<Rightarrow> pystr \<Rightarrow> presentation" where
  "deck_A title topics content = title_slide title # concat (map (topic_deck content) topics)"

definition file_name_A :: "pystr \<Rightarrow> pystr" where
  "file_name_A title = map (\<lambda>c. if c = space then CHR ''_'' else c) title @ ''.pptx''"

definition topic_events :: "pystr \<Rightarrow> pystr list \<Rightarrow> 'd ui_event list" where
  "topic_events content topics =
     concat (map (\<lambda>topic. [St_write (''### '' @ topic), St_write content]) topics)"

definition emits :: "'d ui_event list \<Rightarrow> 'd world \<Rightarrow> 'd world" where
  "emits evs w = w\<lparr>ui := ui w @ evs\<rparr>"

section \<open>Text frames under the formatting functions\<close>

lemma paragraph_text_font_size [simp]:
  "paragraph_text (par\<lparr>runs := map (\<lambda>r. r\<lparr>font_size := x\<rparr>) (runs par)\<rparr>) = paragraph_text par"
  by (simp add: paragraph_text_def comp_def)

lemma paragraph_text_properties [simp]:
  "paragraph_text (par\<lparr>level := l, bullet := b, alignment := a\<rparr>) = paragraph_text par"
  by (simp add: paragraph_text_def)

lemma frame_text_set_font_size [simp]: "frame_text (set_font_size f sz) = frame_text f"
  by (simp add: frame_text_def set_font_size_def comp_def)

lemma frame_text_remove_bullets [simp]: "frame_text (remove_bullets lvl f) = frame_text f"
  by (simp add: frame_text_def remove_bullets_def comp_def)

lemma font_size_set_font_size:
  "par \<in> set (set_font_size f sz) \<Longrightarrow> r \<in> set (runs par) \<Longrightarrow> font_size r = Some (Pt sz)"
  by (auto simp: set_font_size_def)

lemma level_set_font_size:
  "par \<in> set (set_font_size (remove_bullets lvl f) sz) \<Longrightarrow>
     level par = lvl \<and> bullet par = None \<and> alignment par = Some LEFT"
  by (auto simp: set_font_size_def remove_bullets_def)

lemma length_set_font_size [simp]: "length (set_font_size f sz) = length f"
  by (simp add: set_font_size_def)

lemma length_remove_bullets [simp]: "length (remove_bullets lvl f) = length f"
  by (simp add: remove_bullets_def)

section \<open>The slides\<close>

lemma title_slide_simps [simp]:
  "layout (title_slide title) = 0"
  "frame_text (shape_title (title_slide title)) = title"
  "frame_text (placeholder_1 (title_slide title)) = ''Generated by AI''"
  by (simp_all add: title_slide_def new_slide_def Let_def)

lemma content_slide_simps [simp]:
  "layout (content_slide lvl topic chunk) = 1"
  "frame_text (shape_title (content_slide lvl topic chunk)) = topic"
  "frame_text (placeholder_1 (content_slide lvl topic chunk)) = chunk"
  by (simp_all add: content_slide_def new_slide_def Let_def)

lemma content_slide_level:
  "par \<in> set (placeholder_1 (content_slide lvl topic chunk)) \<Longrightarrow>
     level par = lvl \<and> bullet par = None \<and> alignment par = Some LEFT"
  by (simp add: content_slide_def new_slide_def Let_def level_set_font_size)

text \<open>
  The assignment \<open>paragraph.bullet = None\<close> changes nothing: the paragraphs that
  assigning \<open>text\<close> makes have no such value, and the library has no property of
  this name that it would write to the file. What the loop changes is the level and
  the alignment.
\<close>

lemma bullet_assignment_idle:
  "remove_bullets lvl (set_text chunk) =
     map (\<lambda>par. par\<lparr>level := lvl, alignment := Some LEFT\<rparr>) (set_text chunk)"
  by (simp add: remove_bullets_def set_text_def line_paragraph_def)

lemma content_slide_font_size:
  "par \<in> set (shape_title (content_slide lvl topic chunk)) \<Longrightarrow> r \<in> set (runs par) \<Longrightarrow>
     font_size r = Some (Pt 24)"
  "par \<in> set (placeholder_1 (content_slide lvl topic chunk)) \<Longrightarrow> r \<in> set (runs par) \<Longrightarrow>
     font_size r = Some (Pt 18)"
  by (auto simp: content_slide_def new_slide_def Let_def dest: font_size_set_font_size)

section \<open>The loop over the topics\<close>

lemma emits_Nil [simp]: "emits [] w = w"
  by (simp add: emits_def)

lemma emits_emit: "emits evs (emit ev w) = emits (ev # evs) w"
  by (simp add: emits_def emit_def)

lemma emits_simps [simp]:
  "ui (emits evs w) = ui w @ evs" "requests (emits evs w) = requests w"
  "files (emits evs w) = files w"
  by (simp_all add: emits_def)

lemma topic_slides_chunks:
  "topic_slides topic (split_chunks 900 content) = Inr (topic_deck content topic)"
  by (cases "split_chunks 900 content") (simp_all add: topic_slides_def topic_deck_def)

lemma topic_loop_deck:
  "topic_loop content topics (prs, w) =
     Some (Inr (prs @ concat (map (topic_deck content) topics),
                emits (topic_events content topics) w))"
proof (induction topics arbitrary: prs w)
  case Nil
  show ?case by (simp add: topic_events_def)
next
  case (Cons topic topics)
  have "split_content content 900 = Some (split_chunks 900 content)"
    using split_content_chunks [of 900 content] by simp
  then show ?case
    by (simp add: Cons topic_slides_chunks topic_events_def emits_emit del: append.simps)
qed

lemma file_name_A_replace: "replace title '' '' ''_'' @ ''.pptx'' = file_name_A title"
  by (simp add: file_name_A_def replace_char)

text \<open>What \<open>create_presentation\<close> computes, in one equation.\<close>

lemma create_presentation_deck:
  assumes "generate_content e (prompt_A title topics) w = (content, w1)"
  shows "create_presentation e title topics w =
    Some (Inr (file_name_A title,
      save (file_name_A title) (deck_A title topics content)
        (emits (topic_events content topics) w1)))"
  using assms
  by (simp add: create_presentation_def topic_loop_deck file_name_A_replace deck_A_def
      add_slide_def Presentation_def Let_def)

section \<open>What is observed of a run\<close>

text \<open>
  The deck saved under the returned file name and the world at the end, when
  \<open>create_presentation\<close> returns; \<open>None\<close> when it does not return or raises.
\<close>

definition saved_deck :: "(pystr \<times> presentation world) result option \<Rightarrow> presentation option" where
  "saved_deck r = (case r of Some (Inr (file_name, w)) \<Rightarrow> files w file_name | _ \<Rightarrow> None)"

definition final_world :: "('a \<times> 'd world) result option \<Rightarrow> 'd world option" where
  "final_world r = (case r of Some (Inr (x, w)) \<Rightarrow> Some w | _ \<Rightarrow> None)"

lemma saved_deck_create_presentation:
  "saved_deck (create_presentation e title topics w) =
     Some (deck_A title topics (fst (generate_content e (prompt_A title topics) w)))"
  by (cases "generate_content e (prompt_A title topics) w")
     (simp add: create_presentation_deck saved_deck_def)

lemma final_world_create_presentation:
  assumes "generate_content e (prompt_A title topics) w = (content, w1)"
  shows "final_world (create_presentation e title topics w) =
    Some (save (file_name_A title) (deck_A title topics content)
      (emits (topic_events content topics) w1))"
  by (simp add: create_presentation_deck [OF assms] final_world_def)

lemma body_text_topic_deck: "map body_text (topic_deck content topic) = split_chunks 900 content"
proof -
  have "hd xs # tl xs = xs" if "xs \<noteq> []" for xs :: "pystr list"
    using that by simp
  then show ?thesis
    by (simp add: topic_deck_def body_text_def Let_def comp_def)
qed

lemma title_text_topic_deck:
  "map title_text (topic_deck content topic) = replicate (length (split_chunks 900 content)) topic"
proof (cases "split_chunks 900 content")
  case Nil
  then show ?thesis by simp
next
  case (Cons c cs)
  then show ?thesis
    by (simp add: topic_deck_def title_text_def Let_def comp_def map_replicate_const)
qed

lemma length_topic_deck: "length (topic_deck content topic) = length (split_chunks 900 content)"
  using arg_cong [OF body_text_topic_deck, of length content topic] by simp

lemma length_deck_A:
  "length (deck_A title topics content) = 1 + length topics * length (split_chunks 900 content)"
  by (induction topics) (simp_all add: deck_A_def length_topic_deck)

lemma body_text_deck_A:
  "map body_text (deck_A title topics content) =
     ''Generated by AI'' # concat (replicate (length topics) (split_chunks 900 content))"
proof -
  have "map body_text (concat (map (topic_deck content) ts)) =
      concat (replicate (length ts) (split_chunks 900 content))" for ts
    by (induction ts) (simp_all add: body_text_topic_deck)
  then show ?thesis by (simp add: deck_A_def body_text_def)
qed

lemma title_text_deck_A:
  "map title_text (deck_A title topics content) =
     title # concat (map (replicate (length (split_chunks 900 content))) topics)"
proof -
  have "map title_text (concat (map (topic_deck content) ts)) =
      concat (map (replicate (length (split_chunks 900 content))) ts)" for ts
    by (induction ts) (simp_all add: title_text_topic_deck)
  then show ?thesis by (simp add: deck_A_def title_text_def)
qed

section \<open>A well-formed deck\<close>

definition frame_font :: "text_frame \<Rightarrow> int \<Rightarrow> bool" where
  "frame_font f sz = list_all (\<lambda>par. list_all (\<lambda>r. font_size r = Some (Pt sz)) (runs par)) f"

definition title_slide_ok :: "pystr \<Rightarrow> slide \<Rightarrow> bool" where
  "title_slide_ok title s \<longleftrightarrow> layout s = 0 \<and> title_text s = title \<and>
     body_text s = ''Generated by AI'' \<and> frame_font (shape_title s) 32 \<and>
     frame_font (placeholder_1 s) 20"

definition content_slide_ok :: "pystr list \<Rightarrow> slide \<Rightarrow> bool" where
  "content_slide_ok topics s \<longleftrightarrow> layout s = 1 \<and> title_text s \<in> set topics \<and>
     length (body_text s) \<le> 900 \<and> frame_font (shape_title s) 24 \<and>
     frame_font (placeholder_1 s) 18 \<and>
     list_all (\<lambda>par. bullet par = None \<and> alignment par = Some LEFT) (placeholder_1 s)"

definition well_formed_deck :: "pystr \<Rightarrow> pystr list \<Rightarrow> presentation \<Rightarrow> bool" where
  "well_formed_deck title topics prs =
     (case prs of [] \<Rightarrow> False
      | s # ss \<Rightarrow> title_slide_ok title s \<and> ss \<noteq> [] \<and> list_all (content_slide_ok topics) ss)"

lemma frame_font_set_font_size [simp]: "frame_font (set_font_size f sz) sz"
  by (simp add: frame_font_def set_font_size_def list_all_iff)

lemma title_slide_ok_title_slide: "title_slide_ok title (title_slide title)"
  by (simp add: title_slide_ok_def title_text_def body_text_def)
     (simp add: title_slide_def new_slide_def Let_def)

lemma content_slide_ok_content_slide:
  "topic \<in> set topics \<Longrightarrow> length chunk \<le> 900 \<Longrightarrow> content_slide_ok topics (content_slide lvl topic chunk)"
  by (simp add: content_slide_ok_def title_text_def body_text_def)
     (auto simp: content_slide_def new_slide_def Let_def list_all_iff dest: level_set_font_size)

lemma content_slide_ok_topic_deck:
  assumes "topic \<in> set topics"
  shows "list_all (content_slide_ok topics) (topic_deck content topic)"
proof -
  let ?chunks = "split_chunks 900 content"
  have "list_all (\<lambda>c. length c \<le> 900) ?chunks" by (rule length_split_chunks_bound) simp
  then have "length (hd ?chunks) \<le> 900" "\<forall>c\<in>set (tl ?chunks). length c \<le> 900"
    by (cases ?chunks; simp add: list_all_iff)+
  with assms show ?thesis
    by (simp add: topic_deck_def Let_def list_all_iff content_slide_ok_content_slide)
qed

lemma well_formed_deck_A: "topics \<noteq> [] \<Longrightarrow> well_formed_deck title topics (deck_A title topics content)"
proof -
  assume "topics \<noteq> []"
  then obtain t ts where "topics = t # ts" by (cases topics) auto
  moreover have "topic_deck content t \<noteq> []" by (simp add: topic_deck_def Let_def)
  moreover have "list_all (content_slide_ok topics) (concat (map (topic_deck content) topics))"
    using content_slide_ok_topic_deck [of _ topics content] by (auto simp: list_all_iff)
  ultimately show ?thesis
    by (simp add: well_formed_deck_def deck_A_def title_slide_ok_title_slide)
qed

section \<open>Properties of the assembler\<close>

text \<open>The generated text of a run of \<open>create_presentation\<close>.\<close>

definition content_A :: "env \<Rightarrow> pystr \<Rightarrow> pystr list \<Rightarrow> presentation world \<Rightarrow> pystr" where
  "content_A e title topics w = fst (generate_content e (prompt_A title topics) w)"

lemma content_A_missing_key: "key_missing e \<Longrightarrow> content_A e title topics w = ''Error: Missing API key.''"
  by (simp add: content_A_def generate_content_def)

lemma content_A_answer:
  "\<not> key_missing e \<Longrightarrow> service e (prompt_A title topics) = Inr response_text \<Longrightarrow>
     content_A e title topics w = response_text"
  by (simp add: content_A_def generate_content_def call_service_def)

lemmas assembler_eval = content_A_def saved_deck_create_presentation generate_content_def
  call_service_def key_missing_def

text \<open>
  \<open>create_presentation\<close> returns for every title, every list of topics and
  every answer of the service: the segmenter is called with the bound 900, for which
  its loop ends, and the list of chunks it returns is never empty, so that
  \<open>content_chunks[0]\<close> does not raise.
\<close>

theorem create_presentation_total:
  "\<exists>file_name w'. create_presentation e title topics w = Some (Inr (file_name, w'))"
  by (cases "generate_content e (prompt_A title topics) w") (simp add: create_presentation_deck)

text \<open>
  C7. \<open>create_presentation\<close> implements \<open>deck_A\<close>: the deck saved under the returned
  file name is the title slide followed, for each topic in order, by one slide for
  each chunk of the generated text.
\<close>

theorem create_presentation_refines:
  "saved_deck (create_presentation e title topics w) =
     Some (deck_A title topics (content_A e title topics w))"
  by (simp add: content_A_def saved_deck_create_presentation)

text \<open>
  The saved deck has one title slide and, for each topic, as many content
  slides as the generated text has chunks of at most 900 characters.
\<close>

theorem create_presentation_slide_count:
  "\<exists>prs. saved_deck (create_presentation e title topics w) = Some prs \<and>
     length prs = 1 + length topics * length (split_chunks 900 (content_A e title topics w))"
  by (simp add: assembler_eval length_deck_A)

text \<open>
  C34. For a list of topics that is not empty the saved deck is well formed: it
  starts with a title slide that holds the title and \<open>Generated by AI\<close> in 32 and 20
  points, and every other slide, of which there is at least one, is a content slide
  with a topic as its title in 24 points and a body of at most 900 characters in 18
  points, whose paragraphs are aligned left.
\<close>

theorem create_presentation_well_formed:
  "topics \<noteq> [] \<Longrightarrow>
     \<exists>prs. saved_deck (create_presentation e title topics w) = Some prs \<and>
       well_formed_deck title topics prs"
  by (simp add: saved_deck_create_presentation well_formed_deck_A)

theorem create_presentation_well_formed_witness:
  "\<exists>prs. saved_deck (create_presentation \<lparr>api_key = Some ''k'', service = (\<lambda>p. Inr ''text'')\<rparr>
       ''Gen AI'' [''A'', ''B''] empty_world) = Some prs \<and>
     well_formed_deck ''Gen AI'' [''A'', ''B''] prs"
  by (rule create_presentation_well_formed) simp

text \<open>
  C35. Without a key a deck is saved all the same: \<open>create_presentation\<close> does not
  look at what the requester returns, and the sentence \<open>Error: Missing API key.\<close>
  becomes the body of one slide for each topic.
\<close>

theorem create_presentation_missing_key:
  "key_missing e \<Longrightarrow>
     \<exists>prs. saved_deck (create_presentation e title topics w) = Some prs \<and>
       map body_text prs =
         ''Generated by AI'' # replicate (length topics) ''Error: Missing API key.''"
proof -
  assume "key_missing e"
  then have "map body_text (deck_A title topics (content_A e title topics w)) =
      ''Generated by AI'' # replicate (length topics) ''Error: Missing API key.''"
    by (induction topics)
       (simp_all add: content_A_missing_key deck_A_def body_text_topic_deck body_text_def)
  then show ?thesis by (simp add: content_A_def saved_deck_create_presentation)
qed

theorem create_presentation_missing_key_witness:
  "\<exists>prs. saved_deck (create_presentation \<lparr>api_key = None, service = (\<lambda>p. Inr ''text'')\<rparr>
       ''Gen AI'' [''A'', ''B''] empty_world) = Some prs \<and>
     map body_text prs =
       [''Generated by AI'', ''Error: Missing API key.'', ''Error: Missing API key.'']"
  using create_presentation_missing_key
    [of "\<lparr>api_key = None, service = (\<lambda>p. Inr ''text'')\<rparr>" "''Gen AI''" "[''A'', ''B'']" empty_world]
  by (simp add: key_missing_def)

text \<open>
  The prompt of \<open>App.py\<close> determines the title and the topics: the topics are
  written as \<open>repr\<close> of the list, with quotes around each topic and escapes inside,
  so two runs send the same prompt only for the same title and the same list of
  topics.
\<close>

theorem prompt_A_inject:
  "prompt_A title topics = prompt_A title' topics' \<longleftrightarrow> title = title' \<and> topics = topics'"
  by (auto simp: prompt_A_def repr_list_inject simp del: append.simps)

text \<open>
  C40. Every topic gets the same content: the bodies of the saved deck are the
  chunks of the one generated text, repeated for each topic, and the titles are each
  topic, repeated for each chunk, behind the one title slide: the deck has one content
  slide for each topic and chunk.
\<close>

theorem create_presentation_texts:
  "\<exists>prs. saved_deck (create_presentation e title topics w) = Some prs \<and>
     map body_text prs = ''Generated by AI'' #
       concat (replicate (length topics) (split_chunks 900 (content_A e title topics w))) \<and>
     map title_text prs = title #
       concat (map (replicate (length (split_chunks 900 (content_A e title topics w)))) topics)"
  by (simp add: saved_deck_create_presentation body_text_deck_A title_text_deck_A
      flip: content_A_def)

text \<open>
  With a key and a service that answers, a run of \<open>create_presentation\<close> sends
  one prompt, whatever the number of topics, and shows the heading of each topic and
  the whole generated text once for each topic; it shows nothing else.
\<close>

theorem create_presentation_world:
  assumes "\<not> key_missing e" "service e (prompt_A title topics) = Inr response_text"
  shows "\<exists>w'. final_world (create_presentation e title topics w) = Some w' \<and>
    requests w' = requests w @ [prompt_A title topics] \<and>
    ui w' = ui w @ topic_events response_text topics"
proof -
  from assms have "generate_content e (prompt_A title topics) w =
      (response_text, send (prompt_A title topics) w)"
    by (simp add: generate_content_def call_service_def)
  from final_world_create_presentation [OF this] show ?thesis by simp
qed

theorem create_presentation_world_witness:
  "\<exists>w'. final_world (create_presentation \<lparr>api_key = Some ''k'', service = (\<lambda>p. Inr ''text'')\<rparr>
       ''Gen AI'' [''A'', ''B''] empty_world) = Some w' \<and>
     requests w' = [''Generate ppt for the topic:['' @ [single_quote] @ ''A'' @ [single_quote] @
       '', '' @ [single_quote] @ ''B'' @ [single_quote] @ ''] under title Gen AI''] \<and>
     ui w' = [St_write ''### A'', St_write ''text'', St_write ''### B'', St_write ''text'']"
  using create_presentation_world
    [of "\<lparr>api_key = Some ''k'', service = (\<lambda>p. Inr ''text'')\<rparr>" "''Gen AI''" "[''A'', ''B'']"
        "''text''" empty_world]
  by (simp add: key_missing_def topic_events_def prompt_A_def repr_list_def py_repr_def
      repr_quote_def repr_char_def py_printable_def Let_def)

text \<open>
  The file name is the title with every space replaced by an underscore,
  followed by \<open>.pptx\<close>: it has no space, and any other character of the title is in
  it unchanged. The deck is stored under this name in place of whatever was stored
  there before; no other file changes.
\<close>

theorem create_presentation_file:
  "\<exists>file_name w'. create_presentation e title topics w = Some (Inr (file_name, w')) \<and>
     files w' = (files w)(file_name \<mapsto> deck_A title topics (content_A e title topics w)) \<and>
     file_name = map (\<lambda>c. if c = space then CHR ''_'' else c) title @ ''.pptx'' \<and>
     space \<notin> set file_name"
proof (cases "generate_content e (prompt_A title topics) w")
  case (Pair content w1)
  then have "files w1 = files w"
    using generate_content_files [of e "prompt_A title topics" w] by simp
  with Pair show ?thesis
    by (auto simp: create_presentation_deck content_A_def file_name_A_def)
qed

text \<open>
  \<open>set_font_size\<close> gives every run of every paragraph of the placeholder the
  size in points and changes nothing else: the paragraphs, their runs and the text
  are as before.
\<close>

theorem set_font_size_runs:
  "frame_font (set_font_size placeholder sz) sz \<and>
   frame_text (set_font_size placeholder sz) = frame_text placeholder \<and>
   map (\<lambda>par. map run_text (runs par)) (set_font_size placeholder sz) =
     map (\<lambda>par. map run_text (runs par)) placeholder \<and>
   map level (set_font_size placeholder sz) = map level placeholder"
  by (simp add: set_font_size_def frame_font_def list_all_iff comp_def
      frame_text_set_font_size [unfolded set_font_size_def])

text \<open>
  Of the slides of one topic, the paragraphs of the first body are at level 0
  and the paragraphs of every other body are at level 3.
\<close>

theorem topic_slides_levels:
  assumes "topic_slides topic content_chunks = Inr new_slides"
  shows "list_all (\<lambda>par. level par = 0) (placeholder_1 (hd new_slides)) \<and>
    list_all (\<lambda>s. list_all (\<lambda>par. level par = 3) (placeholder_1 s)) (tl new_slides)"
proof (cases content_chunks)
  case Nil
  with assms show ?thesis by (simp add: topic_slides_def)
next
  case (Cons c cs)
  with assms have "new_slides = content_slide 0 topic c # map (content_slide 3 topic) cs"
    by (auto simp: topic_slides_def)
  then show ?thesis using content_slide_level by (auto simp: list_all_iff)
qed

theorem topic_slides_levels_witness:
  "map (\<lambda>s. map level (placeholder_1 s)) (projr (topic_slides ''A'' [''one'', ''two'', ''three''])) =
     [[0], [3], [3]]"
  using topic_slides_levels [of "''A''" "[''one'', ''two'', ''three'']"
      "projr (topic_slides ''A'' [''one'', ''two'', ''three''])"]
  by (simp add: py_unfold Let_def)

end
