(* ===== verification/Assembler_B.thy ===== *)
theory Assembler_B
  imports Requester Deck Markers Slide_Parser
begin

text \<open>
  The deck assembler of \<open>App1.py\<close>: \<open>create_presentation\<close>, named
  \<open>create_presentation1\<close> here, which requests the text and returns either the error
  sentence or the list of fragments, and \<open>generate_ppt\<close>, which makes one slide of
  each fragment. The body of the loop of \<open>generate_ppt\<close> is \<open>fragment_slide\<close>:
  unpacking the result of the parser raises \<open>TypeError\<close> when the parser returned
  \<open>None\<close>. The stream that \<open>generate_ppt\<close> returns is the deck written to it.
\<close>

section \<open>The functions of the source\<close>

text \<open>The value returned is a string or a list of strings: \<open>Inl\<close> the string.\<close>

definition create_presentation1 :: "env \<Rightarrow> pystr \<Rightarrow> pystr list \<Rightarrow> 'd world \<Rightarrow>
    (pystr + pystr list) \<times> 'd world" where
  "create_presentation1 e title topics w =
     (let (content, w) = generate_content1 e title topics w in
      if startswith content ''Error'' then (Inl content, w)
      else
        (let slides = split_into_slides content;
             filtered_slides = remove_double_asteris slides;
             w = emit (St_text_area ''raw content'' content 200) w
         in (Inr filtered_slides, w)))"

definition parsed_slide :: "pystr \<times> pystr \<times> pystr \<Rightarrow> slide" where
  "parsed_slide r =
     (case r of (no, title, content) \<Rightarrow>
        (let slide = new_slide 1
         in slide\<lparr>shape_title := set_text (no @ ''.'' @ title),
                   placeholder_1 := set_text content\<rparr>))"

definition fragment_slide :: "pystr \<Rightarrow> slide result" where
  "fragment_slide slide_content =
     (case process_slide_title slide_content of
        None \<Rightarrow> Inl TypeError
      | Some r \<Rightarrow> Inr (parsed_slide r))"

fun ppt_loop :: "pystr list \<Rightarrow> presentation \<Rightarrow> presentation result" where
  "ppt_loop [] prs = Inr prs"
| "ppt_loop (slide_content # slides) prs =
     (case fragment_slide slide_content of
        Inl err \<Rightarrow> Inl err
      | Inr s \<Rightarrow> ppt_loop slides (add_slide s prs))"

definition generate_ppt :: "pystr list \<Rightarrow> presentation result" where
  "generate_ppt slides = ppt_loop slides Presentation"

declare create_presentation1_def [py_unfold] parsed_slide_def [py_unfold]
  fragment_slide_def [py_unfold] generate_ppt_def [py_unfold]

lemmas assembler1_eval = py_unfold Let_def findall_slides.simps

section \<open>The loop of \<open>generate_ppt\<close>\<close>

text \<open>
  The loop as a map: the deck is the list of the slides of the parsed fragments, or
  the loop raises at the first fragment the parser does not accept.
\<close>

lemma ppt_loop_those:
  "ppt_loop slides prs =
     (case those (map process_slide_title slides) of
        None \<Rightarrow> Inl TypeError
      | Some rs \<Rightarrow> Inr (prs @ map parsed_slide rs))"
  by (induction slides arbitrary: prs)
     (auto simp: fragment_slide_def add_slide_def split: option.splits)

lemma those_eq_None_iff: "those xs = None \<longleftrightarrow> None \<in> set xs"
  by (induction xs) (auto split: option.splits)

lemma those_eq_Some: "those xs = Some ys \<Longrightarrow> xs = map Some ys"
  by (induction xs arbitrary: ys) (auto split: option.splits)

lemma those_map_Some [simp]: "those (map Some ys) = Some ys"
  by (induction ys) auto

lemma generate_ppt_those:
  "generate_ppt slides =
     (case those (map process_slide_title slides) of
        None \<Rightarrow> Inl TypeError
      | Some rs \<Rightarrow> Inr (map parsed_slide rs))"
  by (simp add: generate_ppt_def ppt_loop_those Presentation_def split: option.splits)

lemma generate_ppt_cases:
  obtains (raises) slide_content where "slide_content \<in> set slides"
      "process_slide_title slide_content = None" "generate_ppt slides = Inl TypeError"
  | (returns) rs where "map process_slide_title slides = map Some rs"
      "generate_ppt slides = Inr (map parsed_slide rs)"
proof (cases "those (map process_slide_title slides)")
  case None
  then obtain s where "s \<in> set slides" "process_slide_title s = None"
    by (auto simp: those_eq_None_iff)
  with None raises show ?thesis by (simp add: generate_ppt_those)
next
  case (Some rs)
  with those_eq_Some [OF Some] returns show ?thesis by (simp add: generate_ppt_those)
qed

section \<open>Outcomes of \<open>create_presentation1\<close>\<close>

lemma create_presentation1_cases:
  obtains (failed) content w1 where "generate_content1 e title topics w = (content, w1)"
      "startswith content ''Error''"
      "create_presentation1 e title topics w = (Inl content, w1)"
  | (fragments) content w1 where "generate_content1 e title topics w = (content, w1)"
      "\<not> startswith content ''Error''"
      "create_presentation1 e title topics w =
         (Inr (remove_double_asteris (split_into_slides content)),
          emit (St_text_area ''raw content'' content 200) w1)"
  by (cases "generate_content1 e title topics w")
     (auto simp: create_presentation1_def Let_def)

lemma parsed_slide_texts [simp]:
  "title_text (parsed_slide (no, title, content)) = no @ ''.'' @ title"
  "body_text (parsed_slide (no, title, content)) = content"
  "layout (parsed_slide (no, title, content)) = 1"
  by (simp_all add: parsed_slide_def title_text_def body_text_def new_slide_def Let_def
      del: append.simps)

section \<open>Properties of the assembler\<close>

text \<open>
  When the parser accepts every fragment, \<open>generate_ppt\<close> returns a deck with
  one slide for each fragment, in order: the title of a slide is the number of the
  fragment, a dot and its heading, the body is its points joined by commas.
\<close>

theorem generate_ppt_deck:
  assumes "map process_slide_title slides = map Some rs"
  shows "\<exists>prs. generate_ppt slides = Inr prs \<and> length prs = length slides \<and>
    map title_text prs = map (\<lambda>(no, title, content). no @ ''.'' @ title) rs \<and>
    map body_text prs = map (\<lambda>(no, title, content). content) rs"
proof -
  from assms have "generate_ppt slides = Inr (map parsed_slide rs)"
    by (simp add: generate_ppt_those)
  moreover from assms have "length rs = length slides"
    using length_map [of process_slide_title slides] by simp
  ultimately show ?thesis by (auto simp del: append.simps)
qed

theorem generate_ppt_deck_witness:
  "\<exists>prs. generate_ppt [''Slide 1: Intro\<newline>* a\<newline>* b'', ''Slide 2: End\<newline>* c''] = Inr prs \<and>
     length prs = Suc (Suc 0) \<and> map title_text prs = [''1.Intro'', ''2.End''] \<and>
     map body_text prs = [''a, b'', ''c'']"
  using generate_ppt_deck [of "[''Slide 1: Intro\<newline>* a\<newline>* b'', ''Slide 2: End\<newline>* c'']"
      "[(''1'', ''Intro'', ''a, b''), (''2'', ''End'', ''c'')]"]
  by (simp add: parser_eval)

text \<open>
  C8. \<open>generate_ppt\<close> raises exactly when the parser returns \<open>None\<close> for one of the
  fragments, and what it raises is \<open>TypeError\<close>: the result of the parser is unpacked
  without a test.
\<close>

theorem generate_ppt_raises:
  "generate_ppt slides = Inl err \<longleftrightarrow>
     err = TypeError \<and> (\<exists>slide_content\<in>set slides. process_slide_title slide_content = None)"
proof (rule generate_ppt_cases [of slides])
  fix slide_content
  assume "slide_content \<in> set slides" "process_slide_title slide_content = None"
    "generate_ppt slides = Inl TypeError"
  then show ?thesis by auto
next
  fix rs
  assume a: "map process_slide_title slides = map Some rs"
    "generate_ppt slides = Inr (map parsed_slide rs)"
  have "process_slide_title s \<noteq> None" if "s \<in> set slides" for s
  proof -
    from that have "process_slide_title s \<in> set (map process_slide_title slides)" by simp
    with a(1) show ?thesis by auto
  qed
  with a(2) show ?thesis by auto
qed

theorem generate_ppt_raises_witness:
  "generate_ppt [''Slide 1: Intro\<newline>* a'', ''Slide 2: Than''] = Inl TypeError"
  by (subst generate_ppt_raises) (simp add: parser_eval)

text \<open>
  Without a key \<open>create_presentation1\<close> returns the sentence
  \<open>Error: Missing API key.\<close> as a string: no list of fragments is made, nothing is
  sent, and the only event is the error of the requester.
\<close>

theorem create_presentation1_missing_key:
  "key_missing e \<Longrightarrow>
     create_presentation1 e title topics w =
       (Inl ''Error: Missing API key.'',
        emit (St_error ''Gemini API key not found. Please set it in the .env file.'') w)"
  by (simp add: create_presentation1_def generate_content1_def startswith_def)

theorem create_presentation1_missing_key_witness:
  "create_presentation1 \<lparr>api_key = None, service = (\<lambda>p. Inr ''Slide 1: A'')\<rparr>
     ''Gen AI'' [''A''] (empty_world :: unit world) =
   (Inl ''Error: Missing API key.'',
    \<lparr>ui = [St_error ''Gemini API key not found. Please set it in the .env file.''],
     requests = [], files = Map.empty\<rparr>)"
  by (subst create_presentation1_missing_key) (simp_all add: key_missing_def emit_def empty_world_def)


text \<open>
  When the text does not start with \<open>Error\<close>, \<open>create_presentation1\<close> returns
  one fragment for each marker of the text, each starting with \<open>Slide\<close> and a space,
  and shows the text once.
\<close>

theorem create_presentation1_fragments:
  assumes "generate_content1 e title topics w = (content, w1)"
    and "\<not> startswith content ''Error''"
  shows "\<exists>fs. create_presentation1 e title topics w =
      (Inr fs, emit (St_text_area ''raw content'' content 200) w1) \<and>
    length fs = count_markers content \<and> list_all (\<lambda>f. startswith f ''Slide '') fs"
  using assms
  by (simp add: create_presentation1_def remove_double_asteris_def split_into_slides_def
      length_findall_slides replace_wrap list_all_iff fragment_starts_with_marker
      del: append.simps)

theorem create_presentation1_fragments_witness:
  "\<exists>fs. create_presentation1 \<lparr>api_key = Some ''k'',
         service = (\<lambda>p. Inr ''Slide 1: A\<newline>* x\<newline>\<newline>Slide 2: B\<newline>* y\<newline>\<newline>'')\<rparr>
       ''T'' [''A''] (empty_world :: unit world) =
      (Inr fs, emit (St_text_area ''raw content''
          ''Slide 1: A\<newline>* x\<newline>\<newline>Slide 2: B\<newline>* y\<newline>\<newline>'' 200)
        (send ''Generate ppt for the topic: A under title T'' empty_world)) \<and>
     length fs = count_markers ''Slide 1: A\<newline>* x\<newline>\<newline>Slide 2: B\<newline>* y\<newline>\<newline>'' \<and>
     list_all (\<lambda>f. startswith f ''Slide '') fs"
  by (rule create_presentation1_fragments)
     (simp_all add: generate_content1_def call_service_def key_missing_def startswith_def
        prompt_B_def)

end
