(* ===== verification/App_Flow.thy ===== *)
theory App_Flow
  imports Assembler_A Assembler_B
begin

text \<open>
  The page of the two scripts, from the line that sets the title of the page to the
  download button: \<open>app\<close> is one run of \<open>App.py\<close> and \<open>app1\<close> one run of \<open>App1.py\<close>
  on the values of the form. \<open>parse_topics\<close> is the list comprehension that reads
  the topics, one per line. A run returns the exception that ended it, if any, and
  the world at that moment; for \<open>App.py\<close> the result is an option, since the run
  calls the segmenter.
\<close>

section \<open>The form\<close>

record form =
  form_title :: pystr
  form_topics :: pystr
  form_submit :: bool

text \<open>The values the form shows before the user types.\<close>

definition default_form :: form where
  "default_form = \<lparr>form_title = ''Gen AI'',
     form_topics = ''Introduction to GenAI\<newline>Applications of GenAI'', form_submit = False\<rparr>"

definition parse_topics :: "pystr \<Rightarrow> pystr list" where
  "parse_topics topics_input =
     map strip (filter (\<lambda>topic. strip topic \<noteq> []) (split_on newline topics_input))"

definition mime_pptx :: pystr where
  "mime_pptx = ''application/vnd.openxmlformats-officedocument.presentationml.presentation''"

section \<open>One run of \<open>App.py\<close>\<close>

definition app :: "env \<Rightarrow> form \<Rightarrow> presentation world \<Rightarrow>
    (py_error option \<times> presentation world) option" where
  "app e f w =
     (let w = emit (St_title ''AI-Powered Presentation Creator'') w;
          title = form_title f; topics_input = form_topics f
      in if form_submit f then
           (let topics = parse_topics topics_input in
            if topics = [] then
              Some (None, emit (St_error ''Please enter at least one topic.'') w)
            else
              (let w = emit (St_info ''Generating your presentation. Please wait...'') w in
               case create_presentation e title topics w of
                 None \<Rightarrow> None
               | Some (Inl err) \<Rightarrow> Some (Some err, w)
               | Some (Inr (file_name, w)) \<Rightarrow>
                   (let w = emit (St_success (''Presentation '' @ [single_quote] @ file_name @
                              [single_quote] @ '' created successfully!'')) w
                    in case files w file_name of
                         None \<Rightarrow> Some (Some FileNotFoundError, w)
                       | Some file \<Rightarrow>
                           Some (None, emit (St_download_button ''Download Presentation''
                             file file_name mime_pptx) w))))
         else Some (None, w))"

section \<open>One run of \<open>App1.py\<close>\<close>

text \<open>\<open>enumerate(xs, start)\<close> as a list of pairs.\<close>

definition py_enumerate :: "'a list \<Rightarrow> nat \<Rightarrow> (nat \<times> 'a) list" where
  "py_enumerate xs start = zip [start..<start + length xs] xs"

definition show_slides :: "pystr list \<Rightarrow> 'd world \<Rightarrow> 'd world" where
  "show_slides slides w =
     foldl (\<lambda>w (i, slide).
         emit (St_text_area (''Slide '' @ str_nat i @ '' Content'') slide 200)
           (emit (St_subheader (''Slide '' @ str_nat i)) w))
       w (py_enumerate slides 1)"

text \<open>
  The branch taken when \<open>create_presentation\<close> did not return an error string:
  the success message, the deck, the slides on the page, the download button.
\<close>

definition deliver :: "pystr \<Rightarrow> pystr list \<Rightarrow> presentation world \<Rightarrow>
    py_error option \<times> presentation world" where
  "deliver title slides w =
     (let w = emit (St_success ''Presentation content generated successfully!'') w in
      case generate_ppt slides of
        Inl err \<Rightarrow> (Some err, w)
      | Inr ppt_stream \<Rightarrow>
          (let w = show_slides slides w
           in (None, emit (St_download_button ''Download PowerPoint Presentation'' ppt_stream
                 (replace title '' '' ''_'' @ ''_presentation.pptx'') mime_pptx) w)))"

text \<open>
  A string that does not start with \<open>Error\<close> would be handed on as the slides; a
  loop over a string goes through its characters.
\<close>

definition app1 :: "env \<Rightarrow> form \<Rightarrow> presentation world \<Rightarrow> py_error option \<times> presentation world" where
  "app1 e f w =
     (let w = emit (St_title ''AI-Powered Presentation Creator'') w;
          title = form_title f; topics_input = form_topics f
      in if form_submit f then
           (let topics = parse_topics topics_input in
            if topics = [] then (None, emit (St_error ''Please enter at least one topic.'') w)
            else
              (let w = emit (St_info ''Generating your presentation. Please wait...'') w;
                   (slides, w) = create_presentation1 e title topics w
               in case slides of
                    Inl s \<Rightarrow>
                      if startswith s ''Error'' then (None, emit (St_error s) w)
                      else deliver title (map (\<lambda>c. [c]) s) w
                  | Inr fragments \<Rightarrow> deliver title fragments w))
         else (None, w))"

declare default_form_def [py_unfold] parse_topics_def [py_unfold] mime_pptx_def [py_unfold]
  app_def [py_unfold] py_enumerate_def [py_unfold] show_slides_def [py_unfold]
  deliver_def [py_unfold] app1_def [py_unfold]

section \<open>The topics\<close>

definition clean_topic :: "pystr \<Rightarrow> bool" where
  "clean_topic t \<longleftrightarrow> t \<noteq> [] \<and> strip t = t \<and> newline \<notin> set t"

lemma clean_topic_strip:
  assumes "piece \<in> set (split_on newline s)" "strip piece \<noteq> []"
  shows "clean_topic (strip piece)"
proof -
  from assms(1) have "newline \<notin> set piece" by (rule split_on_no_sep)
  with set_strip_subset [of piece] assms(2) show ?thesis by (auto simp: clean_topic_def)
qed

lemma parse_topics_clean_topics: "list_all clean_topic (parse_topics s)"
  by (auto simp: parse_topics_def list_all_iff clean_topic_strip)

lemma parse_topics_join:
  assumes "list_all clean_topic ts"
  shows "parse_topics (join [newline] ts) = ts"
proof (cases "ts = []")
  case True
  then show ?thesis by (simp add: parse_topics_def)
next
  case False
  with assms have "split_on newline (join [newline] ts) = ts"
    by (intro split_on_join) (auto simp: list_all_iff clean_topic_def)
  moreover from assms have "filter (\<lambda>topic. strip topic \<noteq> []) ts = ts" "map strip ts = ts"
    by (auto simp: list_all_iff clean_topic_def filter_id_conv map_idI)
  ultimately show ?thesis by (simp add: parse_topics_def)
qed

lemma set_split_on: "\<Union> (set ` set (split_on c s)) = set s - {c}"
proof -
  have "\<Union> (set ` set (split_on c s)) = set (concat (split_on c s))" by simp
  also have "\<dots> = set s - {c}" unfolding concat_split_on by auto
  finally show ?thesis .
qed

lemma parse_topics_Nil_iff: "parse_topics s = [] \<longleftrightarrow> (\<forall>c\<in>set s. py_isspace c)"
proof -
  have "parse_topics s = [] \<longleftrightarrow> (\<forall>piece\<in>set (split_on newline s). strip piece = [])"
    by (simp add: parse_topics_def filter_empty_conv)
  also have "\<dots> \<longleftrightarrow> (\<forall>c\<in>\<Union> (set ` set (split_on newline s)). py_isspace c)"
    unfolding strip_eq_Nil_iff by blast
  also have "\<dots> \<longleftrightarrow> (\<forall>c\<in>set s. py_isspace c)"
    unfolding set_split_on using py_isspace_newline by blast
  finally show ?thesis .
qed

section \<open>The runs, branch by branch\<close>

lemma app_not_submitted:
  "\<not> form_submit f \<Longrightarrow> app e f w = Some (None, emit (St_title ''AI-Powered Presentation Creator'') w)"
  by (simp add: app_def)

lemma app1_not_submitted:
  "\<not> form_submit f \<Longrightarrow> app1 e f w = (None, emit (St_title ''AI-Powered Presentation Creator'') w)"
  by (simp add: app1_def)

lemma app_empty:
  "form_submit f \<Longrightarrow> parse_topics (form_topics f) = [] \<Longrightarrow>
     app e f w = Some (None, emit (St_error ''Please enter at least one topic.'')
       (emit (St_title ''AI-Powered Presentation Creator'') w))"
  by (simp add: app_def)

lemma app1_empty:
  "form_submit f \<Longrightarrow> parse_topics (form_topics f) = [] \<Longrightarrow>
     app1 e f w = (None, emit (St_error ''Please enter at least one topic.'')
       (emit (St_title ''AI-Powered Presentation Creator'') w))"
  by (simp add: app1_def)

text \<open>The world in which the request of a run is made.\<close>

definition started :: "'d world \<Rightarrow> 'd world" where
  "started w = emit (St_info ''Generating your presentation. Please wait...'')
     (emit (St_title ''AI-Powered Presentation Creator'') w)"

lemma started_simps [simp]:
  "ui (started w) = ui w @ [St_title ''AI-Powered Presentation Creator'',
     St_info ''Generating your presentation. Please wait...'']"
  "requests (started w) = requests w" "files (started w) = files w"
  by (simp_all add: started_def)

lemma app_run:
  assumes "form_submit f" "parse_topics (form_topics f) = topics" "topics \<noteq> []"
    and "generate_content e (prompt_A (form_title f) topics) (started w) = (content, w1)"
  shows "app e f w = Some (None,
    emit (St_download_button ''Download Presentation'' (deck_A (form_title f) topics content)
      (file_name_A (form_title f)) mime_pptx)
     (emit (St_success (''Presentation '' @ [single_quote] @ file_name_A (form_title f) @
         [single_quote] @ '' created successfully!''))
       (save (file_name_A (form_title f)) (deck_A (form_title f) topics content)
         (emits (topic_events content topics) w1))))"
  using assms create_presentation_deck [OF assms(4)]
  by (simp add: app_def started_def Let_def del: append.simps)

lemma app1_run:
  assumes "form_submit f" "parse_topics (form_topics f) = topics" "topics \<noteq> []"
    and "create_presentation1 e (form_title f) topics (started w) = (slides, w1)"
  shows "app1 e f w =
    (case slides of
       Inl s \<Rightarrow> (None, emit (St_error s) w1)
     | Inr fragments \<Rightarrow> deliver (form_title f) fragments w1)"
proof (cases slides)
  case (Inl s)
  with assms(4) have "startswith s ''Error''"
    by (rule_tac create_presentation1_cases [of e "form_title f" topics "started w"]) auto
  with Inl assms show ?thesis by (simp add: app1_def started_def Let_def)
next
  case (Inr fragments)
  with assms show ?thesis by (simp add: app1_def started_def Let_def)
qed

section \<open>The delivery of \<open>App1.py\<close>\<close>

definition file_name_B :: "pystr \<Rightarrow> pystr" where
  "file_name_B title = map (\<lambda>c. if c = space then CHR ''_'' else c) title @ ''_presentation.pptx''"

lemma show_slides_keeps [simp]:
  "files (show_slides slides w) = files w" "requests (show_slides slides w) = requests w"
proof -
  have "files (foldl (\<lambda>w (i, slide).
          emit (St_text_area (''Slide '' @ str_nat i @ '' Content'') slide 200)
            (emit (St_subheader (''Slide '' @ str_nat i)) w)) w xs) = files w \<and>
        requests (foldl (\<lambda>w (i, slide).
          emit (St_text_area (''Slide '' @ str_nat i @ '' Content'') slide 200)
            (emit (St_subheader (''Slide '' @ str_nat i)) w)) w xs) = requests w"
    for xs :: "(nat \<times> pystr) list"
    by (induction xs arbitrary: w) (auto simp: case_prod_beta)
  then show "files (show_slides slides w) = files w" "requests (show_slides slides w) = requests w"
    by (simp_all add: show_slides_def)
qed

lemma deliver_returns:
  "generate_ppt slides = Inr prs \<Longrightarrow>
     deliver title slides w =
       (None, emit (St_download_button ''Download PowerPoint Presentation'' prs
          (file_name_B title) mime_pptx)
         (show_slides slides (emit (St_success ''Presentation content generated successfully!'') w)))"
  by (simp add: deliver_def file_name_B_def replace_char)

lemma deliver_raises:
  "generate_ppt slides = Inl err \<Longrightarrow>
     deliver title slides w =
       (Some err, emit (St_success ''Presentation content generated successfully!'') w)"
  by (simp add: deliver_def)

section \<open>Properties of the page\<close>

text \<open>
  Every topic read from the form is a line of the input without the whitespace
  at its ends: it is not empty, has no whitespace at either end and no newline.
\<close>

theorem parse_topics_clean: "list_all clean_topic (parse_topics topics_input)"
  by (rule parse_topics_clean_topics)

text \<open>
  Topics written one per line are read back as they are, when no topic is
  empty, has whitespace at an end or spans lines.
\<close>

theorem parse_topics_roundtrip:
  "list_all clean_topic ts \<Longrightarrow> parse_topics (join [newline] ts) = ts"
  by (rule parse_topics_join)

theorem parse_topics_roundtrip_witness:
  "parse_topics (join [newline] [''Introduction to GenAI'', ''Applications of GenAI'']) =
     [''Introduction to GenAI'', ''Applications of GenAI'']"
  by (rule parse_topics_roundtrip) (simp add: clean_topic_def py_unfold)

text \<open>
  When the form is submitted with a topics field that holds whitespace only,
  both scripts show the title of the page and the request for a topic and stop:
  nothing is sent to the service and no file is written.
\<close>

theorem app_no_topics:
  assumes "form_submit f" "\<forall>c\<in>set (form_topics f). py_isspace c"
  shows "app e f w = Some (None, emit (St_error ''Please enter at least one topic.'')
      (emit (St_title ''AI-Powered Presentation Creator'') w)) \<and>
    app1 e f w = (None, emit (St_error ''Please enter at least one topic.'')
      (emit (St_title ''AI-Powered Presentation Creator'') w))"
  using assms by (simp add: app_empty app1_empty parse_topics_Nil_iff)

theorem app_no_topics_witness:
  "app \<lparr>api_key = Some ''k'', service = (\<lambda>p. Inr ''text'')\<rparr>
     \<lparr>form_title = ''Gen AI'', form_topics = '' \<newline>  \<newline>'', form_submit = True\<rparr> empty_world =
   Some (None, \<lparr>ui = [St_title ''AI-Powered Presentation Creator'',
     St_error ''Please enter at least one topic.''], requests = [], files = Map.empty\<rparr>)"
  using app_no_topics [of "\<lparr>form_title = ''Gen AI'', form_topics = '' \<newline>  \<newline>'', form_submit = True\<rparr>"
      "\<lparr>api_key = Some ''k'', service = (\<lambda>p. Inr ''text'')\<rparr>" empty_world]
  by (simp add: emit_def empty_world_def)



text \<open>
  Without a key a run of \<open>App1.py\<close> on a submitted form with at least one topic
  shows the error of the requester and the error sentence and stops: no deck is made,
  no download is offered, nothing is sent and no file is written.
\<close>

theorem app1_missing_key:
  assumes "form_submit f" "parse_topics (form_topics f) \<noteq> []" "key_missing e"
  shows "\<exists>w'. app1 e f w = (None, w') \<and>
    ui w' = ui w @ [St_title ''AI-Powered Presentation Creator'',
      St_info ''Generating your presentation. Please wait...'',
      St_error ''Gemini API key not found. Please set it in the .env file.'',
      St_error ''Error: Missing API key.''] \<and>
    requests w' = requests w \<and> files w' = files w"
proof -
  from assms(3) have "create_presentation1 e (form_title f) (parse_topics (form_topics f)) (started w) =
      (Inl ''Error: Missing API key.'',
       emit (St_error ''Gemini API key not found. Please set it in the .env file.'') (started w))"
    by (simp add: create_presentation1_def generate_content1_def startswith_def)
  from app1_run [OF assms(1) refl assms(2) this] show ?thesis by simp
qed

theorem app1_missing_key_witness:
  "\<exists>w'. app1 \<lparr>api_key = Some [], service = (\<lambda>p. Inr ''Slide 1: A\<newline>* x\<newline>\<newline>'')\<rparr>
       \<lparr>form_title = ''Gen AI'', form_topics = ''A\<newline>B'', form_submit = True\<rparr> empty_world =
       (None, w') \<and>
     ui w' = [St_title ''AI-Powered Presentation Creator'',
       St_info ''Generating your presentation. Please wait...'',
       St_error ''Gemini API key not found. Please set it in the .env file.'',
       St_error ''Error: Missing API key.''] \<and>
     requests w' = [] \<and> files w' = Map.empty"
  using app1_missing_key [of "\<lparr>form_title = ''Gen AI'', form_topics = ''A\<newline>B'', form_submit = True\<rparr>"
      "\<lparr>api_key = Some [], service = (\<lambda>p. Inr ''Slide 1: A\<newline>* x\<newline>\<newline>'')\<rparr>" empty_world]
  by (simp add: parse_topics_def py_isspace_def strip_def lstrip_def rstrip_def key_missing_def)

end
