(* ===== verification/Startup.thy ===== *)
theory Startup
  imports Runtime
begin

text \<open>
  The first statements of both scripts: \<open>load_dotenv()\<close> puts the variables of the
  file \<open>.env\<close> into the environment of the process, \<open>os.getenv\<close> reads
  \<open>GOOGLE_API_KEY\<close> from it, and the client is configured with the result. The
  environment and the parsed file are maps from names to values; \<open>startup\<close> gives the
  configuration \<open>env\<close> the rest of the script runs with. Nothing here can fail: a
  variable that is not set gives \<open>None\<close>, which \<open>generate_content\<close> reports later.
\<close>

section \<open>The environment\<close>

type_synonym environ = "pystr \<rightharpoonup> pystr"

text \<open>
  \<open>load_dotenv\<close> with its default \<open>override=False\<close>: a variable that the process
  already has keeps its value, the others are taken from the file.
\<close>

definition load_dotenv :: "environ \<Rightarrow> environ \<Rightarrow> environ" where
  "load_dotenv dotenv environ = dotenv ++ environ"

definition getenv :: "environ \<Rightarrow> pystr \<Rightarrow> pystr option" where
  "getenv environ name = environ name"

definition startup :: "environ \<Rightarrow> environ \<Rightarrow> (pystr \<Rightarrow> pystr + pystr) \<Rightarrow> env" where
  "startup dotenv environ client =
     (let environ = load_dotenv dotenv environ;
          GEMINI_API_KEY = getenv environ ''GOOGLE_API_KEY''
      in \<lparr>api_key = GEMINI_API_KEY, service = client\<rparr>)"

declare load_dotenv_def [py_unfold] getenv_def [py_unfold] startup_def [py_unfold]

section \<open>Which key the script runs with\<close>

lemma getenv_load_dotenv:
  "getenv (load_dotenv dotenv environ) name =
     (case environ name of Some v \<Rightarrow> Some v | None \<Rightarrow> dotenv name)"
  by (simp add: getenv_def load_dotenv_def map_add_def split: option.splits)

lemma api_key_startup:
  "api_key (startup dotenv environ client) =
     (case environ ''GOOGLE_API_KEY'' of Some v \<Rightarrow> Some v | None \<Rightarrow> dotenv ''GOOGLE_API_KEY'')"
  by (simp add: startup_def Let_def getenv_load_dotenv)

lemma service_startup [simp]: "service (startup dotenv environ client) = client"
  by (simp add: startup_def Let_def)

section \<open>Properties of the start\<close>


text \<open>An empty variable of the process hides the key of the file.\<close>

lemma startup_empty_variable_hides_file:
  "key_missing (startup [''GOOGLE_API_KEY'' \<mapsto> ''secret''] [''GOOGLE_API_KEY'' \<mapsto> []] client)"
  by (simp add: key_missing_def api_key_startup)

end
