(* ===== verification/Sessions.thy ===== *)
theory Sessions
  imports App_Flow
begin

text \<open>
  The two pages over several interactions. Streamlit runs the script from its first
  line for each interaction of the user and draws the page anew; what a run wrote to
  the file system, and what was sent to the service, stays. \<open>rerun\<close> clears the page,
  \<open>page_A\<close> and \<open>page_B\<close> are one interaction with \<open>App.py\<close> and \<open>App1.py\<close> as step
  functions on the world, with the values of the form as the input of the step, and
  \<open>session_A\<close> and \<open>session_B\<close> run a list of interactions. \<open>reachable_A\<close> and
  \<open>reachable_B\<close> are the worlds that interactions lead to from the empty world. The
  lemmas are safety properties: what is true of every page and of every file that
  can come about.
\<close>

section \<open>Interactions\<close>

definition rerun :: "'d world \<Rightarrow> 'd world" where
  "rerun w = w\<lparr>ui := []\<rparr>"

definition page_A :: "env \<Rightarrow> presentation world \<Rightarrow> form \<Rightarrow> presentation world option" where
  "page_A e w f = map_option snd (app e f (rerun w))"

definition page_B :: "env \<Rightarrow> presentation world \<Rightarrow> form \<Rightarrow> presentation world" where
  "page_B e w f = snd (app1 e f (rerun w))"

fun session_A :: "env \<Rightarrow> presentation world \<Rightarrow> form list \<Rightarrow> presentation world option" where
  "session_A e w [] = Some w"
| "session_A e w (f # fs) =
     (case page_A e w f of None \<Rightarrow> None | Some w' \<Rightarrow> session_A e w' fs)"

fun session_B :: "env \<Rightarrow> presentation world \<Rightarrow> form list \<Rightarrow> presentation world" where
  "session_B e w [] = w"
| "session_B e w (f # fs) = session_B e (page_B e w f) fs"

inductive reachable_A :: "env \<Rightarrow> presentation world \<Rightarrow> bool" for e where
  start_A: "reachable_A e empty_world"
| interact_A: "reachable_A e w \<Longrightarrow> page_A e w f = Some w' \<Longrightarrow> reachable_A e w'"

inductive reachable_B :: "env \<Rightarrow> presentation world \<Rightarrow> bool" for e where
  start_B: "reachable_B e empty_world"
| interact_B: "reachable_B e w \<Longrightarrow> reachable_B e (page_B e w f)"

declare rerun_def [py_unfold] page_A_def [py_unfold] page_B_def [py_unfold]

lemma rerun_simps [simp]:
  "ui (rerun w) = []" "requests (rerun w) = requests w" "files (rerun w) = files w"
  by (simp_all add: rerun_def)

section \<open>What is on a page\<close>

text \<open>The events of the loop that shows the slides.\<close>

definition slide_events :: "pystr list \<Rightarrow> 'd ui_event list" where
  "slide_events slides =
     concat (map (\<lambda>(i, slide). [St_subheader (''Slide '' @ str_nat i),
         St_text_area (''Slide '' @ str_nat i @ '' Content'') slide 200])
       (py_enumerate slides 1))"

lemma ui_show_slides: "ui (show_slides slides w) = ui w @ slide_events slides"
proof -
  have "ui (foldl (\<lambda>w (i, slide).
          emit (St_text_area (''Slide '' @ str_nat i @ '' Content'') slide 200)
            (emit (St_subheader (''Slide '' @ str_nat i)) w)) w xs) =
        ui w @ concat (map (\<lambda>(i, slide). [St_subheader (''Slide '' @ str_nat i),
          St_text_area (''Slide '' @ str_nat i @ '' Content'') slide 200]) xs)"
    for xs :: "(nat \<times> pystr) list"
    by (induction xs arbitrary: w) (auto simp: case_prod_beta simp del: append.simps)
  then show ?thesis by (simp add: show_slides_def slide_events_def)
qed

lemma slide_events_quiet:
  "ev \<in> set (slide_events slides) \<Longrightarrow> \<not> is_error ev \<and> \<not> is_download ev"
  by (auto simp: slide_events_def)

text \<open>The world after a run of \<open>App.py\<close> that made a deck of the text \<open>content\<close>.\<close>

definition made_page :: "form \<Rightarrow> pystr \<Rightarrow> presentation world \<Rightarrow> presentation world" where
  "made_page f content w =
     emit (St_download_button ''Download Presentation''
         (deck_A (form_title f) (parse_topics (form_topics f)) content)
         (file_name_A (form_title f)) mime_pptx)
       (emit (St_success (''Presentation '' @ [single_quote] @ file_name_A (form_title f) @
           [single_quote] @ '' created successfully!''))
         (save (file_name_A (form_title f))
            (deck_A (form_title f) (parse_topics (form_topics f)) content)
            (emits (topic_events content (parse_topics (form_topics f))) w)))"

lemma made_page_simps [simp]:
  "ui (made_page f content w) = ui w @ topic_events content (parse_topics (form_topics f)) @
     [St_success (''Presentation '' @ [single_quote] @ file_name_A (form_title f) @
        [single_quote] @ '' created successfully!''),
      St_download_button ''Download Presentation''
        (deck_A (form_title f) (parse_topics (form_topics f)) content)
        (file_name_A (form_title f)) mime_pptx]"
  "files (made_page f content w) = (files w)(file_name_A (form_title f) \<mapsto>
     deck_A (form_title f) (parse_topics (form_topics f)) content)"
  "requests (made_page f content w) = requests w"
  by (simp_all add: made_page_def)

text \<open>
  The page of one interaction with \<open>App.py\<close>: nothing but the title when the form was
  not submitted, the request for a topic, or the page of a run that made a deck.
\<close>

lemma page_A_cases:
  obtains (idle) "\<not> form_submit f"
      "page_A e w f = Some (emit (St_title ''AI-Powered Presentation Creator'') (rerun w))"
  | (no_topics) "form_submit f" "parse_topics (form_topics f) = []"
      "page_A e w f = Some (emit (St_error ''Please enter at least one topic.'')
         (emit (St_title ''AI-Powered Presentation Creator'') (rerun w)))"
  | (made) content w1 where "form_submit f" "parse_topics (form_topics f) \<noteq> []"
      "generate_content e (prompt_A (form_title f) (parse_topics (form_topics f)))
         (started (rerun w)) = (content, w1)"
      "files w1 = files w"
      "page_A e w f = Some (made_page f content w1)"
proof (cases "form_submit f")
  case False
  then show ?thesis by (auto simp: page_A_def app_not_submitted intro: idle)
next
  case True
  show ?thesis
  proof (cases "parse_topics (form_topics f) = []")
    case True
    with \<open>form_submit f\<close> show ?thesis by (auto simp: page_A_def app_empty intro: no_topics)
  next
    case False
    obtain content w1 where g: "generate_content e
        (prompt_A (form_title f) (parse_topics (form_topics f))) (started (rerun w)) = (content, w1)"
      by (cases "generate_content e (prompt_A (form_title f) (parse_topics (form_topics f)))
          (started (rerun w))")
    from g generate_content_files
      [of e "prompt_A (form_title f) (parse_topics (form_topics f))" "started (rerun w)"]
    have "files w1 = files w" by simp
    moreover from app_run [OF \<open>form_submit f\<close> refl False g]
    have "page_A e w f = Some (made_page f content w1)" by (simp add: page_A_def made_page_def)
    ultimately show ?thesis by (rule made [OF \<open>form_submit f\<close> False g])
  qed
qed

lemma page_A_total: "\<exists>w'. page_A e w f = Some w'"
  by (rule page_A_cases [of f e w]) auto

section \<open>The files of \<open>App.py\<close>\<close>

text \<open>
  What a stored file looks like: a deck with a title slide and at least one content
  slide, each as \<open>create_presentation\<close> formats it, under the name made of the title
  on its first slide.
\<close>

definition deck_ok :: "presentation \<Rightarrow> bool" where
  "deck_ok prs =
     (case prs of [] \<Rightarrow> False
      | s # ss \<Rightarrow> title_slide_ok (title_text s) s \<and> ss \<noteq> [] \<and>
          list_all (\<lambda>c. content_slide_ok [title_text c] c) ss)"

definition stored_ok :: "pystr \<Rightarrow> presentation \<Rightarrow> bool" where
  "stored_ok name prs \<longleftrightarrow> deck_ok prs \<and> name = file_name_A (title_text (hd prs))"

definition files_ok :: "presentation world \<Rightarrow> bool" where
  "files_ok w \<longleftrightarrow> (\<forall>name prs. files w name = Some prs \<longrightarrow> stored_ok name prs)"

lemma well_formed_deck_ok:
  "well_formed_deck title topics prs \<Longrightarrow> deck_ok prs \<and> title_text (hd prs) = title"
  by (cases prs)
     (auto simp: well_formed_deck_def deck_ok_def title_slide_ok_def content_slide_ok_def
        list_all_iff)

lemma stored_ok_deck_A:
  "topics \<noteq> [] \<Longrightarrow> stored_ok (file_name_A title) (deck_A title topics content)"
  using well_formed_deck_ok [OF well_formed_deck_A] by (simp add: stored_ok_def)

lemma files_ok_empty [simp]: "files_ok empty_world"
  by (simp add: files_ok_def)

lemma files_ok_save:
  "files_ok w \<Longrightarrow> stored_ok name prs \<Longrightarrow> files w' = (files w)(name \<mapsto> prs) \<Longrightarrow> files_ok w'"
  by (simp add: files_ok_def)

lemma page_A_files:
  assumes "page_A e w f = Some w'"
  shows "files w' = files w \<or>
    (\<exists>content. form_submit f \<and> parse_topics (form_topics f) \<noteq> [] \<and>
       files w' = (files w)(file_name_A (form_title f) \<mapsto>
         deck_A (form_title f) (parse_topics (form_topics f)) content))"
  by (rule page_A_cases [of f e w]) (use assms in auto)

lemma page_A_files_ok:
  assumes "files_ok w" "page_A e w f = Some w'"
  shows "files_ok w'"
  using page_A_files [OF assms(2)]
proof (elim disjE exE conjE)
  assume "files w' = files w"
  with assms(1) show ?thesis by (simp add: files_ok_def)
next
  fix content
  assume "parse_topics (form_topics f) \<noteq> []"
    and "files w' = (files w)(file_name_A (form_title f) \<mapsto>
      deck_A (form_title f) (parse_topics (form_topics f)) content)"
  then show ?thesis by (rule files_ok_save [OF assms(1) stored_ok_deck_A])
qed

lemma reachable_A_files_ok: "reachable_A e w \<Longrightarrow> files_ok w"
  by (induction rule: reachable_A.induct) (simp_all add: page_A_files_ok)

section \<open>The page and the files of \<open>App1.py\<close>\<close>

text \<open>A page that shows an error does not offer a download.\<close>

definition safe_page :: "'d ui_event list \<Rightarrow> bool" where
  "safe_page evs \<longleftrightarrow> \<not> (list_ex is_error evs \<and> list_ex is_download evs)"

lemma generate_content1_quiet:
  assumes "generate_content1 e title topics w = (content, w1)" "\<not> startswith content ''Error''"
  shows "ui w1 = ui w" "files w1 = files w"
proof -
  from assms have g: "generate_content e (prompt_B title topics) w = (content, w1)"
    by (simp add: generate_content1_prompt)
  with assms(2) show "ui w1 = ui w"
    by (rule_tac generate_content_cases [of e "prompt_B title topics" w])
       (auto simp: startswith_def)
  from g generate_content_files [of e "prompt_B title topics" w] show "files w1 = files w"
    by simp
qed

lemma generate_content1_files [simp]:
  "files (snd (generate_content1 e title topics w)) = files w"
  by (simp add: generate_content1_prompt)

lemma deliver_page:
  "\<not> list_ex is_error (ui w) \<Longrightarrow> \<not> list_ex is_error (ui (snd (deliver title slides w)))"
  "files (snd (deliver title slides w)) = files w"
  "requests (snd (deliver title slides w)) = requests w"
  by (cases "generate_ppt slides";
      auto simp: deliver_returns deliver_raises ui_show_slides list_ex_iff
        dest: slide_events_quiet)+

lemma page_B_files [simp]: "files (page_B e w f) = files w"
proof (cases "form_submit f \<and> parse_topics (form_topics f) \<noteq> []")
  case True
  obtain slides w1 where c: "create_presentation1 e (form_title f) (parse_topics (form_topics f))
      (started (rerun w)) = (slides, w1)"
    by (cases "create_presentation1 e (form_title f) (parse_topics (form_topics f))
        (started (rerun w))")
  then have "files w1 = files w"
    by (rule_tac create_presentation1_cases
          [of e "form_title f" "parse_topics (form_topics f)" "started (rerun w)"])
       (use generate_content1_files [of e "form_title f" "parse_topics (form_topics f)"
          "started (rerun w)"] in auto)
  with True app1_run [OF _ refl _ c] show ?thesis
    by (cases slides) (simp_all add: page_B_def deliver_page)
next
  case False
  then show ?thesis
    by (cases "form_submit f") (auto simp: page_B_def app1_not_submitted app1_empty)
qed

lemma page_B_safe: "safe_page (ui (page_B e w f))"
proof (cases "form_submit f \<and> parse_topics (form_topics f) \<noteq> []")
  case True
  let ?topics = "parse_topics (form_topics f)"
  show ?thesis
  proof (rule create_presentation1_cases [of e "form_title f" ?topics "started (rerun w)"])
    fix content w1
    assume "create_presentation1 e (form_title f) ?topics (started (rerun w)) = (Inl content, w1)"
    from app1_run [OF _ refl _ this] True
    have "ui (page_B e w f) = ui w1 @ [St_error content]" by (simp add: page_B_def)
    moreover assume "generate_content1 e (form_title f) ?topics (started (rerun w)) = (content, w1)"
    then have "generate_content e (prompt_B (form_title f) ?topics) (started (rerun w)) = (content, w1)"
      by (simp add: generate_content1_prompt)
    then have "\<not> list_ex is_download (ui w1)"
      by (rule_tac generate_content_cases [of e "prompt_B (form_title f) ?topics" "started (rerun w)"])
         auto
    ultimately show ?thesis by (simp add: safe_page_def)
  next
    fix content w1
    assume g: "generate_content1 e (form_title f) ?topics (started (rerun w)) = (content, w1)"
      "\<not> startswith content ''Error''"
      and c: "create_presentation1 e (form_title f) ?topics (started (rerun w)) =
        (Inr (remove_double_asteris (split_into_slides content)),
         emit (St_text_area ''raw content'' content 200) w1)"
    from generate_content1_quiet(1) [OF g]
    have "\<not> list_ex is_error (ui (emit (St_text_area ''raw content'' content 200) w1))"
      by simp
    from deliver_page(1) [OF this] app1_run [OF _ refl _ c] True
    show ?thesis by (simp add: page_B_def safe_page_def)
  qed
next
  case False
  then show ?thesis
    by (cases "form_submit f")
       (auto simp: page_B_def app1_not_submitted app1_empty safe_page_def)
qed

section \<open>Sessions and reachable worlds\<close>

lemma session_A_append:
  "session_A e w (fs @ [f]) =
     (case session_A e w fs of None \<Rightarrow> None | Some w' \<Rightarrow> page_A e w' f)"
  by (induction fs arbitrary: w) (auto split: option.splits)

lemma session_B_append: "session_B e w (fs @ [f]) = page_B e (session_B e w fs) f"
  by (induction fs arbitrary: w) auto

lemma session_A_total: "\<exists>w'. session_A e w fs = Some w'"
proof (induction fs arbitrary: w)
  case (Cons f fs)
  obtain w1 where "page_A e w f = Some w1" using page_A_total by blast
  with Cons [of w1] show ?case by simp
qed simp

lemma reachable_A_iff_session:
  "reachable_A e w \<longleftrightarrow> (\<exists>fs. session_A e empty_world fs = Some w)"
proof
  assume "reachable_A e w"
  then show "\<exists>fs. session_A e empty_world fs = Some w"
  proof (induction rule: reachable_A.induct)
    case start_A
    have "session_A e empty_world [] = Some empty_world" by simp
    then show ?case by blast
  next
    case (interact_A w f w')
    then obtain fs where "session_A e empty_world fs = Some w" by blast
    with interact_A(2) have "session_A e empty_world (fs @ [f]) = Some w'"
      by (simp add: session_A_append)
    then show ?case by blast
  qed
next
  have "session_A e empty_world fs = Some w \<Longrightarrow> reachable_A e w" for fs
  proof (induction fs arbitrary: w rule: rev_induct)
    case Nil
    then show ?case by (simp add: start_A)
  next
    case (snoc f fs)
    then show ?case
      by (auto simp: session_A_append split: option.splits intro: interact_A)
  qed
  then show "\<exists>fs. session_A e empty_world fs = Some w \<Longrightarrow> reachable_A e w" by blast
qed

lemma reachable_B_iff_session: "reachable_B e w \<longleftrightarrow> (\<exists>fs. w = session_B e empty_world fs)"
proof
  assume "reachable_B e w"
  then show "\<exists>fs. w = session_B e empty_world fs"
  proof (induction rule: reachable_B.induct)
    case start_B
    have "empty_world = session_B e empty_world []" by simp
    then show ?case by blast
  next
    case (interact_B w f)
    then obtain fs where "w = session_B e empty_world fs" by blast
    then have "page_B e w f = session_B e empty_world (fs @ [f])"
      by (simp add: session_B_append)
    then show ?case by blast
  qed
next
  have "reachable_B e (session_B e empty_world fs)" for fs
    by (induction fs rule: rev_induct) (simp_all add: session_B_append start_B interact_B)
  then show "\<exists>fs. w = session_B e empty_world fs \<Longrightarrow> reachable_B e w" by blast
qed

section \<open>The requests of a session\<close>

text \<open>
  A run sends a request when the form was submitted with at least one topic and there
  is a key; \<open>prompts_A\<close> and \<open>prompts_B\<close> are the prompts of the runs that do.
\<close>

definition sends :: "env \<Rightarrow> form \<Rightarrow> bool" where
  "sends e f \<longleftrightarrow> form_submit f \<and> parse_topics (form_topics f) \<noteq> [] \<and> \<not> key_missing e"

definition prompts_A :: "env \<Rightarrow> form list \<Rightarrow> pystr list" where
  "prompts_A e fs =
     map (\<lambda>f. prompt_A (form_title f) (parse_topics (form_topics f))) (filter (sends e) fs)"

definition prompts_B :: "env \<Rightarrow> form list \<Rightarrow> pystr list" where
  "prompts_B e fs =
     map (\<lambda>f. prompt_B (form_title f) (parse_topics (form_topics f))) (filter (sends e) fs)"

lemma page_A_requests:
  assumes "page_A e w f = Some w'"
  shows "requests w' = requests w @ prompts_A e [f]"
proof (rule page_A_cases [of f e w])
  fix content w1
  assume "form_submit f" "parse_topics (form_topics f) \<noteq> []"
    "generate_content e (prompt_A (form_title f) (parse_topics (form_topics f)))
       (started (rerun w)) = (content, w1)"
    "page_A e w f = Some (made_page f content w1)"
  with assms generate_content_requests
      [of e "prompt_A (form_title f) (parse_topics (form_topics f))" "started (rerun w)"]
  show ?thesis by (auto simp: prompts_A_def sends_def)
qed (use assms in \<open>auto simp: prompts_A_def sends_def\<close>)

lemma page_B_requests: "requests (page_B e w f) = requests w @ prompts_B e [f]"
proof (cases "form_submit f \<and> parse_topics (form_topics f) \<noteq> []")
  case True
  let ?topics = "parse_topics (form_topics f)"
  obtain slides w1 where c: "create_presentation1 e (form_title f) ?topics (started (rerun w)) =
      (slides, w1)"
    by (cases "create_presentation1 e (form_title f) ?topics (started (rerun w))")
  from generate_content_requests [of e "prompt_B (form_title f) ?topics" "started (rerun w)"]
  have "requests (snd (generate_content1 e (form_title f) ?topics (started (rerun w)))) =
      requests w @ prompts_B e [f]"
    using True by (simp add: generate_content1_prompt prompts_B_def sends_def)
  with c have "requests w1 = requests w @ prompts_B e [f]"
    by (rule_tac create_presentation1_cases [of e "form_title f" ?topics "started (rerun w)"])
       auto
  with True app1_run [OF _ refl _ c] show ?thesis
    by (cases slides) (simp_all add: page_B_def deliver_page)
next
  case False
  then show ?thesis
    by (cases "form_submit f")
       (auto simp: page_B_def app1_not_submitted app1_empty prompts_B_def sends_def)
qed

lemma prompts_Cons:
  "prompts_A e (f # fs) = prompts_A e [f] @ prompts_A e fs"
  "prompts_B e (f # fs) = prompts_B e [f] @ prompts_B e fs"
  by (simp_all add: prompts_A_def prompts_B_def)

lemma session_A_requests:
  "session_A e w fs = Some w' \<Longrightarrow> requests w' = requests w @ prompts_A e fs"
proof (induction fs arbitrary: w)
  case Nil
  then show ?case by (simp add: prompts_A_def)
next
  case (Cons f fs)
  then show ?case
    by (subst prompts_Cons) (auto split: option.splits dest!: page_A_requests)
qed

lemma session_B_requests: "requests (session_B e w fs) = requests w @ prompts_B e fs"
proof (induction fs arbitrary: w)
  case Nil
  show ?case by (simp add: prompts_B_def)
next
  case (Cons f fs)
  then show ?case by (subst prompts_Cons) (simp add: page_B_requests)
qed

section \<open>Safety of the sessions\<close>

text \<open>
  C19. Every file that a session of \<open>App.py\<close> leaves in the file system is a deck
  with a title slide and at least one content slide, formatted as \<open>create_presentation\<close>
  formats them, stored under the name made of the title on its first slide. This
  holds after any number of interactions, also when a later presentation overwrote
  the file of an earlier one.
\<close>

theorem reachable_A_files:
  "reachable_A e w \<Longrightarrow> files w name = Some prs \<Longrightarrow> stored_ok name prs"
  using reachable_A_files_ok [of e w] by (simp add: files_ok_def)

theorem reachable_A_files_witness:
  "stored_ok ''Gen_AI.pptx'' (deck_A ''Gen AI'' [''A''] ''text'')"
proof -
  let ?e = "\<lparr>api_key = Some ''k'', service = (\<lambda>p. Inr ''text'')\<rparr>"
  let ?f = "\<lparr>form_title = ''Gen AI'', form_topics = ''A'', form_submit = True\<rparr>"
  have t: "parse_topics ''A'' = [''A'']"
    by (simp add: parse_topics_def parser_eval)
  have g: "generate_content ?e p w = (''text'', send p w)" for p and w :: "presentation world"
    by (simp add: generate_content_def call_service_def key_missing_def)
  obtain w' where w': "page_A ?e empty_world ?f = Some w'"
    using page_A_total by blast
  then have "files w' ''Gen_AI.pptx'' = Some (deck_A ''Gen AI'' [''A''] ''text'')"
    by (rule_tac page_A_cases [of ?f ?e empty_world]) (auto simp: t g file_name_A_def)
  with interact_A [OF start_A w'] show ?thesis by (rule reachable_A_files)
qed

text \<open>
  C38. A run of \<open>App.py\<close> that makes a deck stores it under the name made of the
  title, whatever the file system held under that name: a later presentation with the
  same title, or with a title that differs in spaces and underscores only, overwrites
  the earlier file, and every other file stays as it was.
\<close>

theorem page_A_overwrites:
  assumes "form_submit f" "parse_topics (form_topics f) \<noteq> []"
  shows "\<exists>w'. page_A e w f = Some w' \<and>
    files w' = (files w)(file_name_A (form_title f) \<mapsto>
      deck_A (form_title f) (parse_topics (form_topics f))
        (fst (generate_content e (prompt_A (form_title f) (parse_topics (form_topics f)))
           (started (rerun w)))))"
  by (rule page_A_cases [of f e w]) (use assms in auto)

theorem page_A_overwrites_witness:
  "\<exists>w'.
     page_A \<lparr>api_key = None, service = (\<lambda>p. Inr ''text'')\<rparr>
       (save ''Gen_AI.pptx'' [] empty_world)
       \<lparr>form_title = ''Gen AI'', form_topics = ''A'', form_submit = True\<rparr> = Some w' \<and>
     files w' = [''Gen_AI.pptx'' \<mapsto> deck_A ''Gen AI'' [''A''] ''Error: Missing API key.'']"
  using page_A_overwrites [of
      "\<lparr>form_title = ''Gen AI'', form_topics = ''A'', form_submit = True\<rparr>"
      "\<lparr>api_key = None, service = (\<lambda>p. Inr ''text'')\<rparr>" "save ''Gen_AI.pptx'' [] empty_world"]
  by (simp add: parse_topics_def parser_eval file_name_A_def generate_content_def key_missing_def)

lemma file_name_A_collision: "file_name_A ''Gen AI'' = file_name_A ''Gen_AI''"
  by (simp add: file_name_A_def)

text \<open>
  C20. A session of \<open>App1.py\<close> never writes a file, and no page of it shows an error
  together with a download: when the requester failed, or the text starts with
  \<open>Error\<close>, the run ends at the error, and when the deck could not be built the run
  ends before the download button.
\<close>

theorem reachable_B_safe: "reachable_B e w \<Longrightarrow> files w = Map.empty \<and> safe_page (ui w)"
proof (induction rule: reachable_B.induct)
  case start_B
  show ?case by (simp add: safe_page_def)
next
  case (interact_B w f)
  then show ?case by (simp add: page_B_safe)
qed

theorem reachable_B_safe_witness:
  "files (page_B \<lparr>api_key = None, service = (\<lambda>p. Inr ''text'')\<rparr> empty_world
      \<lparr>form_title = ''Gen AI'', form_topics = ''A'', form_submit = True\<rparr>) = Map.empty \<and>
   safe_page (ui (page_B \<lparr>api_key = None, service = (\<lambda>p. Inr ''text'')\<rparr> empty_world
      \<lparr>form_title = ''Gen AI'', form_topics = ''A'', form_submit = True\<rparr>))"
  by (rule reachable_B_safe [OF interact_B [OF start_B]])

text \<open>
  Neither script sends a request twice: a session sends one request for each
  interaction that submits the form with at least one topic while there is a key, in
  the order of the interactions, and no other. A session of \<open>App.py\<close> always ends.
\<close>

theorem session_requests:
  "(\<exists>w'. session_A e w fs = Some w' \<and> requests w' = requests w @ prompts_A e fs) \<and>
   requests (session_B e w fs) = requests w @ prompts_B e fs"
  using session_A_total [of e w fs] by (auto simp: session_A_requests session_B_requests)

text \<open>
  When the requester fails in a run of \<open>App.py\<close> on a submitted form with at
  least one topic, the page shows the error and offers a download all the same, and
  the deck of the error sentence is in the file system.
\<close>

theorem page_A_error_and_download:
  assumes "form_submit f" "parse_topics (form_topics f) \<noteq> []"
    and "key_missing e \<or> isl (service e (prompt_A (form_title f) (parse_topics (form_topics f))))"
  shows "\<exists>w'. page_A e w f = Some w' \<and> \<not> safe_page (ui w') \<and>
    files w' (file_name_A (form_title f)) \<noteq> None"
proof (rule page_A_cases [of f e w])
  let ?p = "prompt_A (form_title f) (parse_topics (form_topics f))"
  fix content w1
  assume g: "generate_content e ?p (started (rerun w)) = (content, w1)"
    and p: "page_A e w f = Some (made_page f content w1)"
  from assms(3) g have "list_ex is_error (ui w1)"
    by (rule_tac generate_content_cases [of e ?p "started (rerun w)"]) auto
  with p show ?thesis by (simp add: safe_page_def)
qed (use assms in auto)

theorem page_A_error_and_download_witness:
  "\<exists>w'. page_A \<lparr>api_key = None, service = (\<lambda>p. Inr ''text'')\<rparr> empty_world
      \<lparr>form_title = ''Gen AI'', form_topics = ''A'', form_submit = True\<rparr> = Some w' \<and>
    \<not> safe_page (ui w') \<and> files w' ''Gen_AI.pptx'' \<noteq> None"
  using page_A_error_and_download [of
      "\<lparr>form_title = ''Gen AI'', form_topics = ''A'', form_submit = True\<rparr>"
      "\<lparr>api_key = None, service = (\<lambda>p. Inr ''text'')\<rparr>" empty_world]
  by (simp add: parse_topics_def parser_eval key_missing_def file_name_A_def)

end
