(* ===== verification/Answer_Format.thy ===== *)
theory Answer_Format
  imports Assembler_B
begin

text \<open>
  The text that \<open>App1.py\<close> expects from the service, and what the script makes of it.
  An outline is a list of slides, each a number, a heading and a list of points.
  \<open>render_answer\<close> writes it down in the format of the markers: for each slide a
  line \<open>Slide n: heading\<close>, plain or between \<open>**\<close> as a bold heading, one line
  \<open>* point\<close> for each point and an empty line, and one more newline at the end of the
  text. \<open>well_formed_outline\<close> says which slides can be written down this way without
  loss. The lemmas follow such a text, after any introduction without a marker,
  through \<open>split_into_slides\<close>, \<open>remove_double_asteris\<close>, \<open>process_slide_title\<close> and
  \<open>generate_ppt\<close>: the deck has the slides of the outline. With bold headings the two
  characters that \<open>split_into_slides\<close> cuts off a match are the \<open>**\<close> that open the
  next heading.
\<close>

section \<open>Outlines and their text\<close>

type_synonym outline = "pystr \<times> pystr \<times> pystr list"

definition bullet_line :: "pystr \<Rightarrow> pystr" where
  "bullet_line p = ''* '' @ p"

definition header_line :: "outline \<Rightarrow> pystr" where
  "header_line s = (case s of (n, title, ps) \<Rightarrow> ''Slide '' @ n @ '': '' @ title)"

definition bullet_lines :: "outline \<Rightarrow> pystr" where
  "bullet_lines s = (case s of (n, title, ps) \<Rightarrow> concat (map (\<lambda>p. bullet_line p @ [newline]) ps))"

text \<open>
  A slide from its marker on: the heading, the markup that closes it, the points and
  the empty line.
\<close>

definition slide_text :: "pystr \<Rightarrow> outline \<Rightarrow> pystr" where
  "slide_text markup s = header_line s @ markup @ [newline] @ bullet_lines s @ [newline]"

definition render_slide :: "pystr \<Rightarrow> outline \<Rightarrow> pystr" where
  "render_slide markup s = markup @ slide_text markup s"

definition render_answer :: "pystr \<Rightarrow> outline list \<Rightarrow> pystr" where
  "render_answer markup slides = concat (map (render_slide markup) slides) @ [newline]"

text \<open>A text that holds no marker and no \<open>**\<close>.\<close>

definition inline_text :: "pystr \<Rightarrow> bool" where
  "inline_text t \<longleftrightarrow> count_markers t = 0 \<and> \<not> double_star t"

definition well_formed_outline :: "outline \<Rightarrow> bool" where
  "well_formed_outline s =
     (case s of (n, title, ps) \<Rightarrow>
        n \<noteq> [] \<and> list_all is_digit n \<and>
        title \<noteq> [] \<and> strip title = title \<and> newline \<notin> set title \<and> inline_text title \<and>
        ps \<noteq> [] \<and> list_all (\<lambda>p. clean_point p \<and> inline_text p) ps)"

text \<open>What the parser is to return for a slide of the outline.\<close>

definition parsed_outline :: "outline \<Rightarrow> pystr \<times> pystr \<times> pystr" where
  "parsed_outline s = (case s of (n, title, ps) \<Rightarrow> (n, title, join '', '' ps))"

text \<open>
  The matches of the pattern in the text of an outline: the text of each slide, and
  with it the markup that opens the next heading.
\<close>

fun matches_of :: "pystr \<Rightarrow> outline list \<Rightarrow> pystr list" where
  "matches_of markup [] = []"
| "matches_of markup [s] = [slide_text markup s]"
| "matches_of markup (s # s' # slides) =
     (slide_text markup s @ markup) # matches_of markup (s' # slides)"

text \<open>
  The fragments: heading and points of each slide, and behind a bold heading the
  empty line, of which the last slide loses its two characters.
\<close>

definition fragment_of :: "outline \<Rightarrow> pystr" where
  "fragment_of s =
     (case s of (n, title, ps) \<Rightarrow> header_line s @ newline # join [newline] (map bullet_line ps))"

fun fragments :: "pystr \<Rightarrow> outline list \<Rightarrow> pystr list" where
  "fragments markup [] = []"
| "fragments markup [s] = [fragment_of s]"
| "fragments markup (s # s' # slides) =
     (fragment_of s @ (if markup = [] then [] else [newline, newline]))
       # fragments markup (s' # slides)"

section \<open>Markers in a longer text\<close>

text \<open>The characters of a marker after its first.\<close>

definition marker_char :: "char \<Rightarrow> bool" where
  "marker_char c \<longleftrightarrow> c \<in> set ''lide :'' \<or> is_digit c"

lemma marker_char_simps [simp]:
  "\<not> marker_char (CHR ''S'')" "\<not> marker_char newline" "\<not> marker_char (CHR ''*'')"
  by (simp_all add: marker_char_def is_digit_def)

lemma match_marker_intro:
  assumes "d \<noteq> []" "list_all is_digit d"
  shows "match_marker (''Slide '' @ d @ '':'' @ rest) = Some (''Slide '' @ d @ '':'', rest)"
  using assms takeWhile_digits_colon [OF assms(2), of rest]
  by (simp add: match_marker_def)

lemma match_marker_extend:
  "match_marker x = Some (mk, rest) \<Longrightarrow> match_marker (x @ y) = Some (mk, rest @ y)"
proof -
  assume m: "match_marker x = Some (mk, rest)"
  from match_marker_shape [OF m] obtain d
    where d: "mk = ''Slide '' @ d @ '':''" "d \<noteq> []" "list_all is_digit d" by blast
  from match_marker_append [OF m] d(1) have "x @ y = ''Slide '' @ d @ '':'' @ (rest @ y)" by simp
  with match_marker_intro [OF d(2,3), of "rest @ y"] d(1) show ?thesis by simp
qed

lemma append_eq_fresh:
  "a @ b = x @ s \<Longrightarrow> s \<noteq> [] \<Longrightarrow> hd s \<notin> set a \<Longrightarrow> \<exists>x'. x = a @ x'"
proof (induction a arbitrary: x)
  case Nil
  show ?case by simp
next
  case (Cons c a)
  then show ?case by (cases x) (auto simp: neq_Nil_conv)
qed

lemma match_marker_cut:
  assumes "x \<noteq> []" "s \<noteq> []" "\<not> marker_char (hd s)"
  shows "match_marker (x @ s) = None \<longleftrightarrow> match_marker x = None"
proof
  assume "match_marker (x @ s) = None"
  then show "match_marker x = None"
    using match_marker_extend [of x _ _ s] by (cases "match_marker x") auto
next
  assume n: "match_marker x = None"
  show "match_marker (x @ s) = None"
  proof (rule ccontr)
    assume "match_marker (x @ s) \<noteq> None"
    then obtain mk rest where m: "match_marker (x @ s) = Some (mk, rest)" by auto
    from match_marker_shape [OF m] obtain d
      where d: "mk = ''Slide '' @ d @ '':''" "d \<noteq> []" "list_all is_digit d" by blast
    obtain c x2 where x: "x = c # x2" using assms(1) by (cases x) auto
    let ?p = "''lide '' @ d @ '':''"
    from d(3) have "list_all marker_char ?p" by (auto simp: marker_char_def list_all_iff)
    with assms(3) have "hd s \<notin> set ?p" by (auto simp: list_all_iff)
    moreover from match_marker_append [OF m] d(1) x have "c = CHR ''S''" "?p @ rest = x2 @ s"
      by simp_all
    ultimately obtain x' where "x2 = ?p @ x'"
      using append_eq_fresh [of ?p rest x2 s] assms(2) by blast
    with x \<open>c = CHR ''S''\<close> have "x = ''Slide '' @ d @ '':'' @ x'" by simp
    with match_marker_intro [OF d(2,3), of x'] n show False by simp
  qed
qed

lemma count_markers_cut:
  assumes "s \<noteq> []" "\<not> marker_char (hd s)"
  shows "count_markers (x @ s) = count_markers x + count_markers s"
proof (induction x)
  case Nil
  show ?case by simp
next
  case (Cons c x)
  from match_marker_cut [OF _ assms, of "c # x"] Cons show ?case by simp
qed

lemma count_markers_line:
  "count_markers (x @ newline # r) = count_markers x + count_markers r"
  using count_markers_cut [of "newline # r" x] by simp

lemma count_markers_skip [simp]: "c \<noteq> CHR ''S'' \<Longrightarrow> count_markers (c # s) = count_markers s"
  by simp

text \<open>
  The lazy body runs over a text without a marker up to a place where the lookahead
  holds, and \<open>findall\<close> runs over an introduction without a marker.
\<close>

lemma lazy_body_free:
  assumes "count_markers b = 0" "r \<noteq> []" "\<not> marker_char (hd r)" "lookahead r"
  shows "lazy_body (b @ r) = (b, r)"
  using assms(1)
proof (induction b)
  case Nil
  from assms(2,4) show ?case by (cases r) auto
next
  case (Cons c b)
  then have "match_marker (c # b) = None" "count_markers b = 0"
    by (cases "match_marker (c # b)"; simp)+
  with match_marker_cut [OF _ assms(2,3), of "c # b"] Cons.IH assms(2) show ?case
    by (cases r) (simp_all add: lookahead_def at_end_def)
qed

lemma findall_slides_free:
  assumes "count_markers pre = 0" "s \<noteq> []" "\<not> marker_char (hd s)"
  shows "findall_slides (pre @ s) = findall_slides s"
  using assms(1)
proof (induction pre)
  case Nil
  show ?case by simp
next
  case (Cons c pre)
  then have "match_marker (c # pre) = None" "count_markers pre = 0"
    by (cases "match_marker (c # pre)"; simp)+
  with match_marker_cut [OF _ assms(2,3), of "c # pre"] Cons.IH show ?case
    by (simp add: findall_slides_skip)
qed

section \<open>Double asterisks\<close>

text \<open>A \<open>**\<close> between two texts that have none is taken out.\<close>

lemma replace_markup:
  assumes "\<not> double_star x" "\<not> double_star y" "y = [] \<or> hd y \<noteq> CHR ''*''"
  shows "replace (x @ ''**'' @ y) ''**'' '''' = x @ y"
proof -
  from assms(2,3) have "replace_scan ''**'' [] (CHR ''*'' # y) = CHR ''*'' # y"
    by (cases y) (simp_all add: replace_scan_no_double_star)
  with assms(1,2) have "replace_scan ''**'' [] (x @ ''**'' @ y) = x @ y"
    by (induction x rule: double_star.induct) (auto simp: replace_scan_no_double_star)
  then show ?thesis by (simp add: replace_def)
qed

lemma digits_no_star: "list_all is_digit n \<Longrightarrow> CHR ''*'' \<notin> set n"
proof -
  have "\<not> is_digit (CHR ''*'')" by (simp add: is_digit_def)
  then show "list_all is_digit n \<Longrightarrow> CHR ''*'' \<notin> set n" by (auto simp: list_all_iff)
qed

lemma bullet_line_simps [simp]:
  "double_star (bullet_line p) = double_star p"
  "count_markers (bullet_line p) = count_markers p"
  "newline \<in> set (bullet_line p) \<longleftrightarrow> newline \<in> set p"
  by (simp_all add: bullet_line_def)

section \<open>The text of a slide\<close>

text \<open>The text of a slide after its marker.\<close>

definition slide_body :: "pystr \<Rightarrow> outline \<Rightarrow> pystr" where
  "slide_body markup s =
     (case s of (n, title, ps) \<Rightarrow> space # title @ markup @ [newline] @ bullet_lines s @ [newline])"

lemma slide_text_split:
  "slide_text markup (n, title, ps) = (''Slide '' @ n @ '':'') @ slide_body markup (n, title, ps)"
  by (simp add: slide_text_def slide_body_def header_line_def)

lemma count_bullet_lines:
  "list_all (\<lambda>p. count_markers p = 0) ps \<Longrightarrow> count_markers (bullet_lines (n, title, ps)) = 0"
  by (induction ps) (simp_all add: bullet_lines_def count_markers_line)

lemma count_slide_body:
  assumes "well_formed_outline s" "markup = [] \<or> markup = ''**''"
  shows "count_markers (slide_body markup s) = 0" "count_markers (slide_body markup s @ markup) = 0"
proof -
  obtain n title ps where s: "s = (n, title, ps)" by (cases s)
  from assms(1) s have "count_markers title = 0" "list_all (\<lambda>p. count_markers p = 0) ps"
    by (auto simp: well_formed_outline_def inline_text_def list_all_iff)
  with count_bullet_lines [of ps n title]
  have t: "count_markers (space # title) = 0" and l: "count_markers (bullet_lines s) = 0"
    by (simp_all add: s)
  have "count_markers (slide_body markup s) = 0 \<and> count_markers (slide_body markup s @ markup) = 0"
    using assms(2)
  proof
    assume "markup = []"
    with t l count_markers_line [of "space # title" "bullet_lines s @ [newline]"]
      count_markers_line [of "bullet_lines s" "[]"]
    show ?thesis by (simp add: slide_body_def s)
  next
    assume m: "markup = ''**''"
    have "count_markers ((space # title) @ ''**'' @ newline # bullet_lines s @ newline # r) =
        count_markers r" for r
      using t l count_markers_cut [of "''**'' @ newline # bullet_lines s @ newline # r" "space # title"]
        count_markers_line [of "bullet_lines s" r]
      by simp
    from this [of "[]"] this [of "''**''"] m show ?thesis by (simp add: slide_body_def s)
  qed
  then show "count_markers (slide_body markup s) = 0"
    "count_markers (slide_body markup s @ markup) = 0" by simp_all
qed

section \<open>The matches in the text of an outline\<close>

lemma slide_text_marker:
  assumes "well_formed_outline (n, title, ps)"
  shows "match_marker (slide_text markup (n, title, ps) @ r) =
    Some (''Slide '' @ n @ '':'', slide_body markup (n, title, ps) @ r)"
  using assms match_marker_intro [of n "slide_body markup (n, title, ps) @ r"]
  by (simp add: well_formed_outline_def slide_text_split del: append.simps)

lemma findall_slide_text:
  assumes "well_formed_outline s" "count_markers (slide_body markup s @ t) = 0"
    and "r \<noteq> []" "\<not> marker_char (hd r)" "lookahead r"
  shows "findall_slides (slide_text markup s @ t @ r) = (slide_text markup s @ t) # findall_slides r"
proof -
  obtain n title ps where s: "s = (n, title, ps)" by (cases s)
  from slide_text_marker [of n title ps markup "t @ r"] assms(1) s
  have "match_marker (slide_text markup s @ t @ r) =
      Some (''Slide '' @ n @ '':'', (slide_body markup s @ t) @ r)" by simp
  from findall_slides_match [OF this lazy_body_free [OF assms(2-5)]] s
  show ?thesis by (simp add: slide_text_split)
qed

lemma matches_of_Cons:
  "\<exists>rest. concat (matches_of markup (s # slides)) = slide_text markup s @ rest"
  by (cases slides) auto

lemma matches_lookahead:
  assumes "well_formed_outline s"
  shows "\<not> marker_char (hd (concat (matches_of markup (s # slides)) @ r))"
    and "lookahead (concat (matches_of markup (s # slides)) @ r)"
proof -
  obtain n title ps where s: "s = (n, title, ps)" by (cases s)
  from matches_of_Cons [of markup s slides] obtain rest
    where c: "concat (matches_of markup (s # slides)) = slide_text markup s @ rest" by blast
  with s show "\<not> marker_char (hd (concat (matches_of markup (s # slides)) @ r))"
    by (simp add: slide_text_def header_line_def)
  from slide_text_marker [of n title ps markup "rest @ r"] assms s c
  show "lookahead (concat (matches_of markup (s # slides)) @ r)"
    by (simp add: lookahead_def)
qed

lemma findall_matches:
  assumes "list_all well_formed_outline slides" "markup = [] \<or> markup = ''**''"
  shows "findall_slides (concat (matches_of markup slides) @ [newline]) = matches_of markup slides"
  using assms(1)
proof (induction slides rule: induct_list012)
  case 1
  show ?case by (simp add: findall_slides_skip)
next
  case (2 s)
  with findall_slide_text [of s markup "[]" "[newline]"] count_slide_body(1) [OF _ assms(2), of s]
  show ?case by (simp add: lookahead_def at_end_def findall_slides_skip)
next
  case (3 s s' slides)
  let ?r = "concat (matches_of markup (s' # slides)) @ [newline]"
  from 3 have w: "well_formed_outline s" "well_formed_outline s'" by simp_all
  from findall_slide_text [OF w(1) count_slide_body(2) [OF w(1) assms(2)] _
      matches_lookahead [OF w(2), of markup slides "[newline]"]] 3
  show ?case by simp
qed

lemma render_matches:
  "slides \<noteq> [] \<Longrightarrow>
     concat (map (render_slide markup) slides) = markup @ concat (matches_of markup slides)"
  by (induction slides rule: induct_list012) (simp_all add: render_slide_def)

lemma findall_render_answer:
  assumes "list_all well_formed_outline slides" "markup = [] \<or> markup = ''**''"
    and "count_markers pre = 0"
  shows "findall_slides (pre @ render_answer markup slides) = matches_of markup slides"
proof (cases slides)
  case Nil
  with findall_slides_free [OF assms(3), of "[newline]"] show ?thesis
    by (simp add: render_answer_def findall_slides_skip)
next
  case (Cons s ss)
  let ?r = "concat (matches_of markup slides) @ [newline]"
  from assms(1) Cons have w: "well_formed_outline s" by simp
  from assms(2,3) have "count_markers (pre @ markup) = 0"
    using count_markers_cut [of "''**''" pre] by auto
  from findall_slides_free [OF this, of ?r] matches_lookahead(1) [OF w, of markup ss "[newline]"]
    Cons
  have "findall_slides ((pre @ markup) @ ?r) = findall_slides ?r" by simp
  with findall_matches [OF assms(1,2)] render_matches [of slides markup] Cons show ?thesis
    by (simp add: render_answer_def)
qed

section \<open>From the matches to the fragments\<close>

lemma concat_lines:
  "ls \<noteq> [] \<Longrightarrow> concat (map (\<lambda>l. l @ [newline]) ls) = join [newline] ls @ [newline]"
  by (induction "[newline]" ls rule: join.induct) auto

lemma slide_text_fragment:
  "ps \<noteq> [] \<Longrightarrow>
     slide_text markup (n, title, ps) =
       header_line (n, title, ps) @ markup @ newline # join [newline] (map bullet_line ps) @
       [newline, newline]"
  using concat_lines [of "map bullet_line ps"]
  by (simp add: slide_text_def bullet_lines_def comp_def)

lemma py_take_two: "py_take (- 2) (x @ [a, b]) = x"
  by (simp add: py_take_minus2)

lemma double_star_lines:
  "list_all (\<lambda>p. \<not> double_star p) ps \<Longrightarrow> \<not> double_star (join [newline] (map bullet_line ps))"
  by (induction ps rule: induct_list012) (simp_all add: double_star_sep)

lemma double_star_newlines: "double_star (x @ [newline, newline]) = double_star x"
  using double_star_sep [of newline x "[newline]"] by simp

lemma header_no_double_star:
  assumes "well_formed_outline s"
  shows "\<not> double_star (header_line s)"
proof -
  obtain n title ps where s: "s = (n, title, ps)" by (cases s)
  from assms s have "list_all is_digit n" "\<not> double_star title"
    by (auto simp: well_formed_outline_def inline_text_def)
  with digits_no_star [of n] s show ?thesis
    by (simp add: header_line_def double_star_fresh)
qed

text \<open>
  What \<open>remove_double_asteris\<close> leaves of a fragment: the markup of the heading is
  gone, and so is the \<open>**\<close> put in front.
\<close>

lemma clean_fragment:
  assumes "well_formed_outline (n, title, ps)" "markup = [] \<or> markup = ''**''"
    and "t = [] \<or> t = [newline, newline]"
  shows "replace (''**'' @ header_line (n, title, ps) @ markup @
      newline # join [newline] (map bullet_line ps) @ t) ''**'' '''' =
    fragment_of (n, title, ps) @ t"
proof -
  let ?h = "header_line (n, title, ps)"
  let ?y = "newline # join [newline] (map bullet_line ps) @ t"
  from assms(1) have "list_all (\<lambda>p. \<not> double_star p) ps"
    by (auto simp: well_formed_outline_def inline_text_def list_all_iff)
  with assms(3) have y: "\<not> double_star ?y"
    by (auto simp: double_star_lines double_star_newlines)
  note h = header_no_double_star [OF assms(1)]
  from assms(2) have "replace (?h @ markup @ ?y) ''**'' '''' = ?h @ ?y"
  proof
    assume "markup = []"
    moreover from h y have "\<not> double_star (?h @ ?y)" by (subst double_star_sep) simp_all
    ultimately show ?thesis by (simp add: replace_no_double_star)
  next
    assume "markup = ''**''"
    with replace_markup [OF h y] show ?thesis by simp
  qed
  then show ?thesis by (simp add: replace_wrap fragment_of_def del: append.simps)
qed

lemma fragment_last:
  assumes "well_formed_outline s" "markup = [] \<or> markup = ''**''"
  shows "replace (''**'' @ py_take (- 2) (slide_text markup s)) ''**'' '''' = fragment_of s"
proof -
  obtain n title ps where s: "s = (n, title, ps)" by (cases s)
  with assms(1) have "ps \<noteq> []" by (simp add: well_formed_outline_def)
  from slide_text_fragment [OF this, of markup n title]
  have "py_take (- 2) (slide_text markup s) =
      header_line s @ markup @ newline # join [newline] (map bullet_line ps)"
    using py_take_two [of "header_line s @ markup @ newline # join [newline] (map bullet_line ps)"
        newline newline]
    by (simp add: s)
  with clean_fragment [OF _ assms(2), of n title ps "[]"] assms(1) s show ?thesis by simp
qed

lemma fragment_inner:
  assumes "well_formed_outline s" "markup = [] \<or> markup = ''**''"
  shows "replace (''**'' @ py_take (- 2) (slide_text markup s @ markup)) ''**'' '''' =
    fragment_of s @ (if markup = [] then [] else [newline, newline])"
proof (cases "markup = []")
  case True
  with fragment_last [OF assms] show ?thesis by simp
next
  case False
  with assms(2) have m: "markup = ''**''" by simp
  obtain n title ps where s: "s = (n, title, ps)" by (cases s)
  with assms(1) have "ps \<noteq> []" by (simp add: well_formed_outline_def)
  from slide_text_fragment [OF this, of markup n title] m
  have "py_take (- 2) (slide_text markup s @ markup) =
      header_line s @ markup @ newline # join [newline] (map bullet_line ps) @ [newline, newline]"
    using py_take_two [of "slide_text markup s" "CHR ''*''" "CHR ''*''"] by (simp add: s)
  with clean_fragment [OF _ assms(2), of n title ps "[newline, newline]"] assms(1) s m
  show ?thesis by simp
qed

lemma fragments_matches:
  assumes "list_all well_formed_outline slides" "markup = [] \<or> markup = ''**''"
  shows "map (\<lambda>m. replace (''**'' @ py_take (- 2) m) ''**'' '''') (matches_of markup slides) =
    fragments markup slides"
  using assms(1)
  by (induction slides rule: induct_list012)
     (simp_all add: fragment_last [OF _ assms(2)] fragment_inner [OF _ assms(2)]
        del: append.simps)

lemma fragments_render_answer:
  assumes "list_all well_formed_outline slides" "markup = [] \<or> markup = ''**''"
    and "count_markers pre = 0"
  shows "remove_double_asteris (split_into_slides (pre @ render_answer markup slides)) =
    fragments markup slides"
  using fragments_matches [OF assms(1,2)]
  by (simp add: remove_double_asteris_def split_into_slides_def findall_render_answer [OF assms]
        comp_def del: append.simps)

section \<open>From the fragments to the slides\<close>

lemma strip_bullets:
  assumes "ps \<noteq> []" "list_all clean_point ps"
  shows "strip (join [newline] (map bullet_line ps)) = join [newline] (map bullet_line ps)"
proof -
  let ?ls = "map bullet_line ps"
  from assms have "clean_point (last ps)" by (simp add: list_all_iff)
  with assms(1) have "last ?ls \<noteq> []" "last (last ?ls) = last (last ps)"
    by (simp_all add: last_map bullet_line_def clean_point_def)
  with assms(1) last_join [of ?ls "[newline]"]
  have "last (join [newline] ?ls) = last (last ps)" by simp
  moreover from assms(1) hd_join [of ?ls "[newline]"]
  have "hd (join [newline] ?ls) = CHR ''*''" by (simp add: hd_map bullet_line_def)
  moreover from \<open>clean_point (last ps)\<close> have "\<not> py_isspace (last (last ps))"
    by (simp add: clean_point_def)
  ultimately show ?thesis by (intro strip_id) (simp add: py_isspace_def)
qed

lemma process_fragment:
  assumes "well_formed_outline s" "list_all py_isspace t"
  shows "process_slide_title (fragment_of s @ t) = Some (parsed_outline s)"
proof -
  obtain n title ps where s: "s = (n, title, ps)" by (cases s)
  from assms(1) s have h: "n \<noteq> []" "list_all is_digit n" "title \<noteq> []" "strip title = title"
    "newline \<notin> set title" and ps: "ps \<noteq> []" "list_all clean_point ps"
    by (auto simp: well_formed_outline_def list_all_iff)
  have "bullet_line = (@) ''* ''" by (rule ext) (simp add: bullet_line_def)
  with points_of_bullets [OF ps] strip_bullets [OF ps] strip_append_space [OF assms(2)]
  have "points_of (strip (join [newline] (map bullet_line ps) @ t)) = ps" by simp
  with process_slide_title_header [OF h, of "join [newline] (map bullet_line ps) @ t"] s
  show ?thesis by (simp add: fragment_of_def header_line_def parsed_outline_def)
qed

lemma parse_fragments:
  "list_all well_formed_outline slides \<Longrightarrow>
     map process_slide_title (fragments markup slides) = map Some (map parsed_outline slides)"
  using process_fragment [of _ "[]"] process_fragment [of _ "[newline, newline]"]
  by (induction slides rule: induct_list012) simp_all

lemma generate_ppt_render_answer:
  assumes "list_all well_formed_outline slides" "markup = [] \<or> markup = ''**''"
    and "count_markers pre = 0"
  shows "generate_ppt (remove_double_asteris (split_into_slides (pre @ render_answer markup slides))) =
    Inr (map parsed_slide (map parsed_outline slides))"
  by (simp only: generate_ppt_those fragments_render_answer [OF assms]
        parse_fragments [OF assms(1)] those_map_Some option.case)

lemma render_answer_no_error:
  "markup = [] \<or> markup = ''**'' \<Longrightarrow> \<not> startswith (render_answer markup slides) ''Error''"
  by (cases slides)
     (auto simp: startswith_def render_answer_def render_slide_def slide_text_def header_line_def)

section \<open>Properties of the pipeline\<close>

text \<open>
  C16. When the text of the service is an outline of well-formed slides in the format
  of the markers, with plain or with bold headings and after any introduction that
  holds no marker, \<open>generate_ppt\<close> builds a deck from the fragments that
  \<open>split_into_slides\<close> and \<open>remove_double_asteris\<close> return: one slide for each slide
  of the outline, in order, on the layout with title and content, with number, dot and
  heading as its title and the points, joined by comma and space, as its body. A
  heading or a point may hold any text of one line that has no marker and no \<open>**\<close>
  inside; the empty line after the last slide and the newline at the end are what the
  cut of two characters and the \<open>$\<close> of the pattern take away.
\<close>

theorem outline_deck:
  assumes "list_all well_formed_outline slides" "markup = [] \<or> markup = ''**''"
    and "count_markers pre = 0"
  shows "\<exists>prs. generate_ppt (remove_double_asteris (split_into_slides
        (pre @ render_answer markup slides))) = Inr prs \<and>
    map title_text prs = map (\<lambda>(n, title, ps). n @ ''.'' @ title) slides \<and>
    map body_text prs = map (\<lambda>(n, title, ps). join '', '' ps) slides \<and>
    map layout prs = map (\<lambda>s. 1) slides"
  by (simp add: generate_ppt_render_answer [OF assms] parsed_outline_def comp_def
        case_prod_beta del: append.simps)

theorem outline_deck_witness:
  "\<exists>prs. generate_ppt (remove_double_asteris (split_into_slides
       (''Here is the deck:\<newline>\<newline>'' @ render_answer ''**''
          [(''1'', ''Intro'', [''a'', ''b'']), (''2'', ''Summary *'', [''c''])]))) =
      Inr prs \<and>
    map title_text prs = [''1.Intro'', ''2.Summary *''] \<and>
    map body_text prs = [''a, b'', ''c''] \<and> map layout prs = [1, 1]"
  using outline_deck [of "[(''1'', ''Intro'', [''a'', ''b'']), (''2'', ''Summary *'', [''c''])]"
      "''**''" "''Here is the deck:\<newline>\<newline>''"]
  by (simp add: well_formed_outline_def inline_text_def clean_point_def py_unfold)

text \<open>
  With bold headings the two characters cut off a match that is not the last are the
  \<open>**\<close> that open the next heading.
\<close>

lemma cut_removes_markup:
  "py_take (- 2) (slide_text ''**'' s @ ''**'') = slide_text ''**'' s"
  using py_take_two [of "slide_text ''**'' s" "CHR ''*''" "CHR ''*''"] by simp

text \<open>
  Without the newline at the end the last slide loses the last character of its last
  point: the pattern ends the match before the final newline, and two characters
  more are cut off.
\<close>

lemma last_slide_cut:
  "map process_slide_title (remove_double_asteris (split_into_slides
     (''Slide 1: Intro'' @ [newline] @ ''* ab'' @ [newline, newline]))) =
   [Some (''1'', ''Intro'', ''a'')]"
  by (simp add: assembler1_eval)

end
