(* ===== verification/Word_Wrap.thy ===== *)
theory Word_Wrap
  imports Segmenter
begin

text \<open>
  What \<open>split_content\<close> of \<open>App.py\<close> computes, said without indices. Two reference
  definitions: \<open>chop\<close> cuts a list into pieces of a fixed length, and \<open>fill\<close> sets
  words into lines, as many words to a line as fit and a word that is too long for a
  line in pieces. The lemmas show that for a positive bound \<open>split_content\<close> is
  \<open>chop\<close> on a text without whitespace and \<open>fill\<close> on words with one space between
  them. A line that is followed by another one is shorter than the bound: the search
  for the space ends one character before it.
\<close>

section \<open>Reference definitions\<close>

text \<open>Pieces of \<open>n\<close> elements; the last piece has what is left.\<close>

fun chop :: "nat \<Rightarrow> 'a list \<Rightarrow> 'a list list" where
  "chop 0 xs = []"
| "chop n [] = []"
| "chop n xs = take n xs # chop n (drop n xs)"

declare chop.simps [simp del]

text \<open>A word: at least one character, none of them whitespace.\<close>

definition word :: "pystr \<Rightarrow> bool" where
  "word w \<longleftrightarrow> w \<noteq> [] \<and> list_all (\<lambda>c. \<not> py_isspace c) w"

text \<open>
  How many of the words go into a line of \<open>n\<close> characters, with one space between
  two words: \<open>more\<close> counts the words that go into the room that is left.
\<close>

fun more_words :: "nat \<Rightarrow> pystr list \<Rightarrow> nat" where
  "more_words r [] = 0"
| "more_words r (w # ws) =
     (if Suc (length w) \<le> r then Suc (more_words (r - Suc (length w)) ws) else 0)"

fun fit :: "nat \<Rightarrow> pystr list \<Rightarrow> nat" where
  "fit n [] = 0"
| "fit n (w # ws) = (if length w \<le> n then Suc (more_words (n - length w) ws) else 0)"

lemma length_concat_drop: "length (concat (drop k xs)) \<le> length (concat xs)"
proof -
  have "length (concat xs) = length (concat (take k xs)) + length (concat (drop k xs))"
    by (metis append_take_drop_id concat_append length_append)
  then show ?thesis by simp
qed

text \<open>The words behind a first word that was cut after \<open>m\<close> characters.\<close>

abbreviation (input) behind :: "nat \<Rightarrow> pystr \<Rightarrow> pystr list \<Rightarrow> pystr list" where
  "behind m w ws \<equiv> (if length w \<le> m then ws else drop m w # ws)"

text \<open>
  The lines of a list of words for the bound \<open>m\<close>. Words that all go into one line
  of \<open>m\<close> characters are the last line. Otherwise the line takes the words that go
  into \<open>m - 1\<close> characters, and when not even the first word does, its first \<open>m\<close>
  characters.
\<close>

function fill :: "nat \<Rightarrow> pystr list \<Rightarrow> pystr list" where
  "fill m ws =
     (if m = 0 \<or> length (join '' '' ws) \<le> m then [join '' '' ws]
      else
        (case fit (m - 1) ws of
           0 \<Rightarrow>
             (case ws of
                [] \<Rightarrow> []
              | w # ws' \<Rightarrow> take m w # fill m (behind m w ws'))
         | Suc k \<Rightarrow> join '' '' (take (Suc k) ws) # fill m (drop (Suc k) ws)))"
  by pat_completeness auto
termination
proof (relation "measure (\<lambda>(m, ws). length (concat ws) + length ws)", goal_cases)
  case 1
  show ?case by simp
next
  case (2 m ws w ws')
  then show ?case by (cases "length w \<le> m") auto
next
  case (3 m ws k)
  then have "ws \<noteq> []" by auto
  with length_concat_drop [of "Suc k" ws] show ?case by (cases ws) auto
qed

declare fill.simps [simp del]

section \<open>Words that fit\<close>

abbreviation (input) cost :: "pystr list \<Rightarrow> nat" where
  "cost ws \<equiv> sum_list (map (\<lambda>w. Suc (length w)) ws)"

lemma length_join_space: "length (join '' '' (w # ws)) = length w + cost ws"
  by (induction ws arbitrary: w) (simp_all add: join_Cons)

lemma more_words_le: "more_words r ws \<le> length ws"
  by (induction r ws rule: more_words.induct) auto

lemma more_words_fits: "cost (take (more_words r ws) ws) \<le> r"
  by (induction r ws rule: more_words.induct) auto

lemma more_words_max:
  "more_words r ws < length ws \<Longrightarrow> r < cost (take (Suc (more_words r ws)) ws)"
  by (induction r ws rule: more_words.induct) (auto split: if_splits)

lemma fit_le: "fit n ws \<le> length ws"
  using more_words_le by (cases ws) auto

lemma fit_fits: "length (join '' '' (take (fit n ws) ws)) \<le> n"
proof (cases ws)
  case (Cons w ws')
  with more_words_fits [of "n - length w" ws'] show ?thesis
    by (auto simp: length_join_space)
qed simp

lemma fit_max:
  assumes "fit n ws < length ws"
  shows "n < length (join '' '' (take (Suc (fit n ws)) ws))"
proof (cases ws)
  case Nil
  with assms show ?thesis by simp
next
  case (Cons w ws')
  show ?thesis
  proof (cases "length w \<le> n")
    case True
    with assms Cons more_words_max [of "n - length w" ws'] show ?thesis
      by (simp add: length_join_space)
  next
    case False
    with Cons show ?thesis by simp
  qed
qed

lemma fit_less: "n < length (join '' '' ws) \<Longrightarrow> fit n ws < length ws"
  using fit_fits [of n ws] fit_le [of n ws] by (cases "fit n ws = length ws") auto

lemma take_Suc_drop: "drop k xs = x # r \<Longrightarrow> take (Suc k) xs = take k xs @ [x]"
  by (cases "k < length xs") (simp_all add: take_Suc_conv_app_nth nth_via_drop)

text \<open>The word behind the ones that fit does not.\<close>

lemma fit_next:
  assumes "0 < fit n ws" "drop (fit n ws) ws = w # r"
  shows "n < length (join '' '' (take (fit n ws) ws)) + 1 + length w"
proof -
  from assms(2) have k: "fit n ws < length ws" by (cases "fit n ws < length ws") auto
  from assms(1) k have "take (fit n ws) ws \<noteq> []" by (cases ws) auto
  with fit_max [OF k] take_Suc_drop [OF assms(2)] show ?thesis by (simp add: join_append)
qed

section \<open>The text of a list of words\<close>

lemma word_ends: "word w \<Longrightarrow> w \<noteq> [] \<and> \<not> py_isspace (hd w) \<and> \<not> py_isspace (last w)"
  by (cases w) (auto simp: word_def list_all_iff)

lemma word_no_space: "word w \<Longrightarrow> space \<notin> set w"
  by (auto simp: word_def list_all_iff)

lemma word_drop: "word w \<Longrightarrow> k < length w \<Longrightarrow> word (drop k w)"
  by (auto simp: word_def list_all_iff dest: in_set_dropD)

lemma words_text_ends:
  assumes "ws \<noteq> []" "list_all word ws"
  shows "join '' '' ws \<noteq> [] \<and> \<not> py_isspace (hd (join '' '' ws)) \<and>
    \<not> py_isspace (last (join '' '' ws))"
proof -
  from assms have "word (hd ws)" "word (last ws)" by (simp_all add: list_all_iff)
  with assms(1) hd_join [of ws "'' ''"] last_join [of ws "'' ''"] join_eq_Nil [of "'' ''" ws]
  show ?thesis by (auto dest: word_ends)
qed

lemma strip_Cons_space: "py_isspace c \<Longrightarrow> strip (c # s) = strip s"
  by (simp add: strip_def lstrip_def)

lemma strip_words:
  assumes "ws \<noteq> []" "list_all word ws"
  shows "strip (join '' '' ws) = join '' '' ws" "strip (space # join '' '' ws) = join '' '' ws"
proof -
  from words_text_ends [OF assms] show "strip (join '' '' ws) = join '' '' ws"
    by (intro strip_id) simp
  then show "strip (space # join '' '' ws) = join '' '' ws" by (simp add: strip_Cons_space)
qed

section \<open>The lines of \<open>fill\<close>\<close>

lemma fill_neq_Nil [simp]: "ws \<noteq> [] \<Longrightarrow> fill m ws \<noteq> []"
  by (subst fill.simps) (auto split: nat.splits list.splits)

lemma fill_short: "length (join '' '' ws) \<le> m \<Longrightarrow> fill m ws = [join '' '' ws]"
  by (simp add: fill.simps [of m ws])

lemma fill_long_word:
  assumes "0 < m" "m < length (join '' '' (w # ws))" "m \<le> length w"
  shows "fill m (w # ws) = take m w # fill m (behind m w ws)"
proof -
  from assms(1,3) have "\<not> length w \<le> m - 1" by simp
  with assms(1,2) show ?thesis by (simp add: fill.simps [of m "w # ws"])
qed

lemma fill_words:
  "0 < m \<Longrightarrow> m < length (join '' '' ws) \<Longrightarrow> 0 < fit (m - 1) ws \<Longrightarrow>
    fill m ws = join '' '' (take (fit (m - 1) ws) ws) # fill m (drop (fit (m - 1) ws) ws)"
  by (cases "fit (m - 1) ws") (simp_all add: fill.simps [of m ws])

lemma behind_neq_Nil:
  "m < length (join '' '' (w # ws)) \<Longrightarrow> m \<le> length w \<Longrightarrow> behind m w ws \<noteq> []"
  by (cases ws) auto

lemma words_behind:
  "list_all word (w # ws) \<Longrightarrow> m \<le> length w \<Longrightarrow> list_all word (behind m w ws)"
  by (simp add: word_drop)

text \<open>
  Induction over the lines: the words are the last line, or the first line is the start
  of a long word, or it is the words that fit.
\<close>

lemma fill_induct [consumes 1, case_names short long_word words]:
  assumes "0 < m"
    and short: "\<And>ws. length (join '' '' ws) \<le> m \<Longrightarrow> P ws"
    and long_word: "\<And>w ws. m < length (join '' '' (w # ws)) \<Longrightarrow> m \<le> length w \<Longrightarrow>
      behind m w ws \<noteq> [] \<Longrightarrow> P (behind m w ws) \<Longrightarrow> P (w # ws)"
    and words: "\<And>ws. m < length (join '' '' ws) \<Longrightarrow> 0 < fit (m - 1) ws \<Longrightarrow>
      drop (fit (m - 1) ws) ws \<noteq> [] \<Longrightarrow> P (drop (fit (m - 1) ws) ws) \<Longrightarrow> P ws"
  shows "P ws"
proof -
  have "P ws" if "n = m" for n
    using that
  proof (induction n ws rule: fill.induct)
    case (1 n ws)
    note IH = "1.IH" [unfolded "1.prems"]
    show ?case
    proof (cases "length (join '' '' ws) \<le> m")
      case True
      then show ?thesis by (rule short)
    next
      case long: False
      then obtain w ws' where ws: "ws = w # ws'" by (cases ws) auto
      show ?thesis
      proof (cases "fit (m - 1) ws")
        case 0
        with ws assms(1) have w: "m \<le> length w" by (auto split: if_splits)
        have "P (behind m w ws')"
          by (rule IH(1) [OF _ 0 ws]) (use long assms(1) in simp_all)
        then show ?thesis
          unfolding ws by (rule long_word [rotated 3]) (use long w ws behind_neq_Nil in simp_all)
      next
        case (Suc k)
        from long have "fit (m - 1) ws < length ws" by (intro fit_less) simp
        moreover have "P (drop (Suc k) ws)"
          by (rule IH(2) [OF _ Suc]) (use long assms(1) in simp_all)
        ultimately show ?thesis by (intro words [of ws]) (use long Suc in simp_all)
      qed
    qed
  qed
  then show ?thesis by simp
qed

section \<open>One iteration on a text of words\<close>

text \<open>When the first word goes into the line, the cut is behind the last word that does.\<close>

lemma cut_index_words:
  assumes "list_all word ws" "0 < m" "m < length (join '' '' ws)" "0 < fit (m - 1) ws"
  shows "cut_index m (join '' '' ws) = length (join '' '' (take (fit (m - 1) ws) ws))"
proof -
  let ?k = "fit (m - 1) ws"
  let ?a = "join '' '' (take ?k ws)"
  from fit_fits [of "m - 1" ws] assms(2) have a: "length ?a < m" by simp
  from assms(3) have k: "?k < length ws" by (intro fit_less) simp
  then obtain w' r where d: "drop ?k ws = w' # r" by (cases "drop ?k ws") auto
  then have "w' \<in> set ws" by (metis in_set_dropD list.set_intros(1))
  with assms(1) have w': "space \<notin> set w'" by (auto simp: list_all_iff dest: word_no_space)
  from fit_next [OF assms(4) d] a have room: "m - Suc (length ?a) \<le> length w'" by simp
  obtain rest where "join '' '' (w' # r) = w' @ rest" by (cases r) auto
  with join_take_drop [OF assms(4) k, of "'' ''"] d
  have tx: "join '' '' ws = ?a @ space # w' @ rest" by simp
  from a have "m - length ?a = Suc (m - Suc (length ?a))" by simp
  with room have "take m (join '' '' ws) = ?a @ space # take (m - Suc (length ?a)) w'"
    by (simp add: tx)
  moreover from w' have "space \<notin> set (take (m - Suc (length ?a)) w')"
    by (auto dest: in_set_takeD)
  ultimately show ?thesis
    by (simp add: cut_index_def find_last_append_fresh)
qed

lemma split_chunks_words_step:
  assumes "list_all word ws" "0 < m" "m < length (join '' '' ws)" "0 < fit (m - 1) ws"
  shows "split_chunks m (join '' '' ws) =
    join '' '' (take (fit (m - 1) ws) ws) # split_chunks m (join '' '' (drop (fit (m - 1) ws) ws))"
proof -
  let ?k = "fit (m - 1) ws"
  note c = cut_index_words [OF assms]
  from assms(3) have k: "?k < length ws" by (intro fit_less) simp
  from join_take_drop [OF assms(4) k, of "'' ''"]
  have "join '' '' ws = join '' '' (take ?k ws) @ space # join '' '' (drop ?k ws)" by simp
  then have "take (length (join '' '' (take ?k ws))) (join '' '' ws) = join '' '' (take ?k ws)"
    and "drop (length (join '' '' (take ?k ws))) (join '' '' ws) = space # join '' '' (drop ?k ws)"
    by (simp_all add: append_eq_conv_conj)
  moreover from assms(1) k have "strip (space # join '' '' (drop ?k ws)) = join '' '' (drop ?k ws)"
    by (intro strip_words) (auto simp: list_all_iff dest: in_set_dropD)
  ultimately show ?thesis using assms(2,3) by (simp add: split_chunks_long c)
qed

text \<open>When the first word does not go into the line, the line is its first characters.\<close>

lemma split_chunks_long_word:
  assumes "list_all word (w # ws)" "0 < m" "m < length (join '' '' (w # ws))" "m \<le> length w"
  shows "split_chunks m (join '' '' (w # ws)) =
    take m w # split_chunks m (join '' '' (behind m w ws))"
proof -
  let ?t = "if ws = [] then [] else space # join '' '' ws"
  have tx: "join '' '' (w # ws) = w @ ?t" by (simp add: join_Cons)
  from assms(1) have "space \<notin> set (take m w)" by (auto dest: word_no_space in_set_takeD)
  with assms(4) have "cut_index m (join '' '' (w # ws)) = m"
    by (simp add: tx cut_index_no_space)
  with assms(2-4) have s: "split_chunks m (join '' '' (w # ws)) =
      take m w # split_chunks m (strip (drop m w @ ?t))"
    by (simp add: split_chunks_long) (simp add: tx)
  show ?thesis
  proof (cases "length w \<le> m")
    case True
    with assms(3) tx have "ws \<noteq> []" by (cases ws) auto
    with assms(1) True strip_words(2) [of ws] s show ?thesis by simp
  next
    case False
    with assms(1) have "list_all word (drop m w # ws)" by (simp add: word_drop)
    moreover have e: "drop m w @ ?t = join '' '' (drop m w # ws)" by (simp add: join_Cons)
    ultimately have "strip (drop m w @ ?t) = join '' '' (drop m w # ws)"
      unfolding e by (intro strip_words) simp_all
    with False s show ?thesis by simp
  qed
qed

section \<open>The segmenter and the reference definitions\<close>

lemma split_chunks_fill:
  assumes "0 < m" "ws \<noteq> []" "list_all word ws"
  shows "split_chunks m (join '' '' ws) = fill m ws"
  using assms
proof (induction ws rule: fill_induct)
  case (short ws)
  then show ?case by (simp add: fill_short)
next
  case (long_word w ws)
  from long_word.prems long_word.hyps(2) have "list_all word (behind m w ws)"
    by (intro words_behind)
  with long_word assms(1) show ?case
    by (simp add: split_chunks_long_word fill_long_word)
next
  case (words ws)
  from words.prems have "list_all word (drop (fit (m - 1) ws) ws)" by (simp add: list_all_drop)
  with words assms(1) show ?case
    by (simp add: split_chunks_words_step fill_words)
qed

section \<open>Properties of the reference definitions\<close>

lemma chop_Nil [simp]: "chop n [] = []"
  by (cases n) (simp_all add: chop.simps)

lemma chop_reduce: "0 < n \<Longrightarrow> xs \<noteq> [] \<Longrightarrow> chop n xs = take n xs # chop n (drop n xs)"
  by (cases n; cases xs) (simp_all add: chop.simps)

lemma concat_chop [simp]: "0 < n \<Longrightarrow> concat (chop n xs) = xs"
  by (induction n xs rule: chop.induct) (simp_all add: chop.simps)

lemma length_chop: "0 < n \<Longrightarrow> length (chop n xs) = (length xs + (n - 1)) div n"
proof (induction "length xs" arbitrary: xs rule: less_induct)
  case less
  show ?case
  proof (cases "length xs \<le> n")
    case True
    have "(length xs + (n - 1)) div n = 1" if "xs \<noteq> []"
    proof (rule div_nat_eqI)
      from that obtain y ys where "xs = y # ys" by (cases xs) auto
      with True show "n * 1 \<le> length xs + (n - 1)" "length xs + (n - 1) < n * Suc 1"
        by simp_all
    qed
    with True less.prems show ?thesis by (cases "xs = []") (simp_all add: chop_reduce)
  next
    case False
    define k where "k = length xs - n + (n - 1)"
    with False less.prems have "length (chop n (drop n xs)) = k div n"
      by (subst less.hyps) simp_all
    moreover from False have "length xs + (n - 1) = k + n" by (simp add: k_def)
    with less.prems have "(length xs + (n - 1)) div n = Suc (k div n)" by (simp only: div_add_self2)
    moreover from False less.prems have "chop n xs = take n xs # chop n (drop n xs)"
      by (intro chop_reduce) auto
    ultimately show ?thesis by simp
  qed
qed

text \<open>A text without whitespace is one word, and \<open>fill\<close> chops it.\<close>

lemma fill_single: "0 < m \<Longrightarrow> w \<noteq> [] \<Longrightarrow> fill m [w] = chop m w"
proof (induction "length w" arbitrary: w rule: less_induct)
  case less
  show ?case
  proof (cases "length w \<le> m")
    case True
    with less.prems show ?thesis by (simp add: fill_short chop_reduce)
  next
    case False
    with less.prems have "fill m [w] = take m w # fill m [drop m w]"
      using fill_long_word [of m w "[]"] by simp
    with False less.prems less.hyps [of "drop m w"] show ?thesis by (simp add: chop_reduce)
  qed
qed

text \<open>
  When no word is longer than the bound, the lines hold whole words: with a space for each
  line break they are the text.
\<close>

lemma join_fill:
  assumes "0 < m" "ws \<noteq> []" "list_all (\<lambda>w. length w \<le> m) ws"
  shows "join '' '' (fill m ws) = join '' '' ws"
  using assms
proof (induction ws rule: fill_induct)
  case (short ws)
  then show ?case by (simp add: fill_short)
next
  case (long_word w ws)
  then have "length w = m" "join '' '' (fill m ws) = join '' '' ws" by simp_all
  with long_word.hyps assms(1) show ?case by (simp add: fill_long_word join_Cons)
next
  case (words ws)
  let ?k = "fit (m - 1) ws"
  from words have "join '' '' (fill m (drop ?k ws)) = join '' '' (drop ?k ws)"
    by (simp add: list_all_drop)
  moreover from words.hyps(3) have "?k < length ws" by (cases "?k < length ws") auto
  ultimately show ?case using words.hyps assms(1) join_take_drop [of ?k ws "'' ''"]
    by (simp add: fill_words join_Cons)
qed

text \<open>
  The lines are as long as the window allows: behind a line, a space and the first word of
  the next line there would be at least \<open>m\<close> characters.
\<close>

abbreviation (input) first_word :: "pystr \<Rightarrow> pystr" where
  "first_word l \<equiv> takeWhile (\<lambda>c. c \<noteq> space) l"

lemma first_word_append: "space \<notin> set w \<Longrightarrow> first_word (w @ space # t) = w"
  by (induction w) auto

lemma first_word_join: "word w \<Longrightarrow> first_word (join '' '' (w # ws)) = w"
  by (cases ws) (auto simp: join_Cons first_word_append dest: word_no_space)

lemma first_word_fill:
  assumes "0 < m" "word w"
  shows "first_word (hd (fill m (w # ws))) = take m w"
proof (cases "length (join '' '' (w # ws)) \<le> m")
  case True
  with assms(2) show ?thesis by (simp add: fill_short first_word_join length_join_space)
next
  case long: False
  show ?thesis
  proof (cases "fit (m - 1) (w # ws)")
    case 0
    with assms(1) have "m \<le> length w" by (auto split: if_splits)
    with assms long fill_long_word [of m w ws] show ?thesis
      by (auto dest: word_no_space in_set_takeD)
  next
    case (Suc k)
    then have "length w \<le> m - 1" by (auto split: if_splits)
    with assms long Suc fill_words [of m "w # ws"] show ?thesis
      by (simp add: first_word_join)
  qed
qed

lemma fill_greedy:
  assumes "0 < m" "list_all word ws"
  shows "successively (\<lambda>l l'. m \<le> length l + 1 + length (first_word l')) (fill m ws)"
  using assms
proof (induction ws rule: fill_induct)
  case (short ws)
  then show ?case by (simp add: fill_short)
next
  case (long_word w ws)
  from long_word.prems long_word.hyps(2) have "list_all word (behind m w ws)"
    by (intro words_behind)
  with long_word assms(1) show ?case
    by (simp add: fill_long_word successively_Cons)
next
  case (words ws)
  let ?k = "fit (m - 1) ws"
  from words.hyps(3) obtain w' r where rest: "drop ?k ws = w' # r" by (cases "drop ?k ws") auto
  from words.prems have ws: "list_all word (drop ?k ws)" by (simp add: list_all_drop)
  with rest assms(1) have "length (first_word (hd (fill m (drop ?k ws)))) = min m (length w')"
    by (simp add: first_word_fill)
  moreover from fit_next [OF words.hyps(2) rest]
  have "m - 1 < length (join '' '' (take ?k ws)) + 1 + length w'" .
  ultimately have "m \<le> length (join '' '' (take ?k ws)) + 1 +
      length (first_word (hd (fill m (drop ?k ws))))"
    by arith
  with words ws assms(1) show ?case by (simp add: fill_words successively_Cons)
qed

section \<open>What \<open>split_content\<close> returns for ordinary text\<close>

text \<open>
  C4. On words with one space between each two, and for a positive \<open>max_length\<close>,
  \<open>split_content\<close> returns the lines of the reference definition \<open>fill\<close>: each line
  takes the words that go into \<open>max_length - 1\<close> characters, and the first
  \<open>max_length\<close> characters of a word that is longer.
\<close>

theorem split_content_fill:
  "0 < max_length \<Longrightarrow> ws \<noteq> [] \<Longrightarrow> list_all word ws \<Longrightarrow>
     split_content (join '' '' ws) max_length = Some (fill (nat max_length) ws)"
  by (simp add: split_content_chunks split_chunks_fill)

lemma fill_hello: "fill 11 [''hello'', ''world'', ''foo''] = [''hello'', ''world foo'']"
  by (simp add: fill.simps py_unfold)

theorem split_content_fill_witness:
  "split_content (join '' '' [''hello'', ''world'', ''foo'']) 11 = Some [''hello'', ''world foo'']"
  using split_content_fill [of 11 "[''hello'', ''world'', ''foo'']"]
  by (simp add: word_def py_isspace_def fill_hello)

text \<open>
  A text without whitespace is cut into pieces of \<open>max_length\<close> characters, the last
  one being what is left: \<open>split_content\<close> returns \<open>chop\<close> of it, which has the length
  of the text divided by \<open>max_length\<close>, rounded up, as its number of pieces.
\<close>

theorem split_content_chop:
  assumes "0 < max_length" "content \<noteq> []" "list_all (\<lambda>c. \<not> py_isspace c) content"
  shows "\<exists>chunks. split_content content max_length = Some chunks \<and>
    chunks = chop (nat max_length) content \<and>
    int (length chunks) = (int (length content) + max_length - 1) div max_length"
proof -
  from assms have "split_chunks (nat max_length) (join '' '' [content]) = fill (nat max_length) [content]"
    by (intro split_chunks_fill) (simp_all add: word_def)
  moreover from assms(1)
  have "int ((length content + (nat max_length - 1)) div nat max_length) =
      (int (length content) + max_length - 1) div max_length"
    by (simp add: zdiv_int of_nat_diff)
  ultimately show ?thesis using assms
    by (simp add: split_content_chunks fill_single length_chop)
qed

theorem split_content_chop_witness:
  "\<exists>chunks. split_content ''abcdefgh'' 3 = Some chunks \<and> chunks = chop (nat 3) ''abcdefgh'' \<and>
     int (length chunks) = (int (length ''abcdefgh'') + 3 - 1) div 3"
  using split_content_chop [of 3 "''abcdefgh''"] by (simp add: py_unfold)

text \<open>
  C30. When the text is words with one space between each two and no word is longer than
  \<open>max_length\<close>, no word is cut: the chunks of \<open>split_content\<close> joined with one space
  are the text.
\<close>

theorem split_content_rejoin:
  assumes "0 < max_length" "ws \<noteq> []" "list_all word ws"
    "list_all (\<lambda>w. int (length w) \<le> max_length) ws"
  shows "\<exists>chunks. split_content (join '' '' ws) max_length = Some chunks \<and>
    join '' '' chunks = join '' '' ws"
proof -
  from assms(1,4) have "list_all (\<lambda>w. length w \<le> nat max_length) ws"
    by (auto simp: list_all_iff)
  with assms(1,2) have "join '' '' (fill (nat max_length) ws) = join '' '' ws"
    by (intro join_fill) simp_all
  with assms(1-3) show ?thesis by (simp add: split_content_chunks split_chunks_fill)
qed

theorem split_content_rejoin_witness:
  "\<exists>chunks. split_content (join '' '' [''hello'', ''world'', ''foo'']) 11 = Some chunks \<and>
     join '' '' chunks = join '' '' [''hello'', ''world'', ''foo'']"
  using split_content_rejoin [of 11 "[''hello'', ''world'', ''foo'']"]
  by (simp add: word_def py_isspace_def)

text \<open>
  On words with one space between each two no chunk of \<open>split_content\<close> that is
  followed by another one is shorter than the window allows: the chunk, a space and the
  first word of the next chunk have at least \<open>max_length\<close> characters together.
\<close>

theorem split_content_greedy:
  assumes "0 < max_length" "ws \<noteq> []" "list_all word ws"
  shows "\<exists>chunks. split_content (join '' '' ws) max_length = Some chunks \<and>
    successively (\<lambda>l l'. max_length \<le>
      int (length l) + 1 + int (length (takeWhile (\<lambda>c. c \<noteq> space) l'))) chunks"
proof -
  from assms have "successively (\<lambda>l l'. nat max_length \<le> length l + 1 + length (first_word l'))
      (fill (nat max_length) ws)"
    by (intro fill_greedy) simp_all
  then have "successively (\<lambda>l l'. max_length \<le> int (length l) + 1 + int (length (first_word l')))
      (fill (nat max_length) ws)"
    by (rule successively_mono) auto
  with assms show ?thesis by (simp add: split_content_chunks split_chunks_fill)
qed

theorem split_content_greedy_witness:
  "\<exists>chunks. split_content (join '' '' [''hello'', ''world'', ''foo'']) 11 = Some chunks \<and>
     successively (\<lambda>l l'. 11 \<le>
       int (length l) + 1 + int (length (takeWhile (\<lambda>c. c \<noteq> space) l'))) chunks"
  using split_content_greedy [of 11 "[''hello'', ''world'', ''foo'']"]
  by (simp add: word_def py_isspace_def)

end
