(* ===== verification/Shared_Files.thy ===== *)
theory Shared_Files
  imports Sessions
begin

text \<open>
  Runs of \<open>App.py\<close> that share the file system. Streamlit serves every user from one
  process and one working directory: the runs of different users have their own page
  each and write their decks into the same directory. Between \<open>prs.save\<close> and the
  \<open>open\<close> of the download another run can write a file, so a run is two atomic parts
  here, \<open>app_make\<close> up to the return of \<open>create_presentation\<close> and \<open>app_offer\<close> from the
  success message on. A \<open>thread\<close> is the run of one user with its form, its phase and
  its page; \<open>conc_step\<close> lets one thread do its next part on the shared files, and
  \<open>run_schedule\<close> executes a schedule, the list of the threads that move. The lemmas show what
  a user can be offered: always a deck that some run made for the same file name, the
  user's own deck when the file names of the forms differ, and the deck of another
  user in a schedule that saves twice before it opens.
\<close>

section \<open>A run of \<open>App.py\<close> in two parts\<close>

datatype made = Finished "py_error option" | Saved pystr

definition app_make :: "env \<Rightarrow> form \<Rightarrow> presentation world \<Rightarrow> (made \<times> presentation world) option" where
  "app_make e f w =
     (let w = emit (St_title ''AI-Powered Presentation Creator'') w;
          title = form_title f; topics_input = form_topics f
      in if form_submit f then
           (let topics = parse_topics topics_input in
            if topics = [] then
              Some (Finished None, emit (St_error ''Please enter at least one topic.'') w)
            else
              (let w = emit (St_info ''Generating your presentation. Please wait...'') w in
               case create_presentation e title topics w of
                 None \<Rightarrow> None
               | Some (Inl err) \<Rightarrow> Some (Finished (Some err), w)
               | Some (Inr (file_name, w)) \<Rightarrow> Some (Saved file_name, w)))
         else Some (Finished None, w))"

definition app_offer :: "pystr \<Rightarrow> presentation world \<Rightarrow> py_error option \<times> presentation world" where
  "app_offer file_name w =
     (let w = emit (St_success (''Presentation '' @ [single_quote] @ file_name @
                [single_quote] @ '' created successfully!'')) w
      in case files w file_name of
           None \<Rightarrow> (Some FileNotFoundError, w)
         | Some file \<Rightarrow>
             (None, emit (St_download_button ''Download Presentation''
                file file_name mime_pptx) w))"

section \<open>Threads on shared files\<close>

datatype phase = Waiting | Made pystr | Ended "py_error option"

record thread =
  thread_form :: form
  thread_phase :: phase
  thread_page :: "presentation world"

type_synonym file_system = "pystr \<rightharpoonup> presentation"

type_synonym system = "thread list \<times> file_system"

text \<open>The next part of a thread, on the files as they are now; a thread that ended has none.\<close>

definition thread_step :: "env \<Rightarrow> thread \<Rightarrow> file_system \<Rightarrow> (thread \<times> file_system) option" where
  "thread_step e t fs =
     (case thread_phase t of
        Waiting \<Rightarrow>
          (case app_make e (thread_form t) ((thread_page t)\<lparr>files := fs\<rparr>) of
             None \<Rightarrow> None
           | Some (Finished r, w) \<Rightarrow> Some (t\<lparr>thread_phase := Ended r, thread_page := w\<rparr>, files w)
           | Some (Saved file_name, w) \<Rightarrow>
               Some (t\<lparr>thread_phase := Made file_name, thread_page := w\<rparr>, files w))
      | Made file_name \<Rightarrow>
          (let (r, w) = app_offer file_name ((thread_page t)\<lparr>files := fs\<rparr>)
           in Some (t\<lparr>thread_phase := Ended r, thread_page := w\<rparr>, files w))
      | Ended r \<Rightarrow> None)"

inductive conc_step :: "env \<Rightarrow> system \<Rightarrow> system \<Rightarrow> bool" for e where
  move: "i < length ts \<Longrightarrow> thread_step e (ts ! i) fs = Some (t, fs') \<Longrightarrow>
    conc_step e (ts, fs) (ts[i := t], fs')"

inductive_cases conc_stepE: "conc_step e (ts, fs) s"

text \<open>A schedule names the thread that moves next.\<close>

fun run_schedule :: "env \<Rightarrow> nat list \<Rightarrow> system \<Rightarrow> system option" where
  "run_schedule e [] s = Some s"
| "run_schedule e (i # schedule) (ts, fs) =
     (if i < length ts then
        (case thread_step e (ts ! i) fs of
           None \<Rightarrow> None
         | Some (t, fs') \<Rightarrow> run_schedule e schedule (ts[i := t], fs'))
      else None)"

text \<open>Every user has the page open and has not pressed the button yet.\<close>

definition start :: "form list \<Rightarrow> thread list" where
  "start forms = map (\<lambda>f. \<lparr>thread_form = f, thread_phase = Waiting, thread_page = empty_world\<rparr>) forms"

section \<open>What is observed\<close>

text \<open>The decks that the download buttons of a page offer.\<close>

fun offers :: "'d ui_event list \<Rightarrow> 'd list" where
  "offers [] = []"
| "offers (St_download_button label d file_name mime # evs) = d # offers evs"
| "offers (ev # evs) = offers evs"

text \<open>A form whose run makes a deck, its file name and the deck.\<close>

definition makes_deck :: "form \<Rightarrow> bool" where
  "makes_deck f \<longleftrightarrow> form_submit f \<and> parse_topics (form_topics f) \<noteq> []"

definition name_of :: "form \<Rightarrow> pystr" where
  "name_of f = file_name_A (form_title f)"

definition deck_of :: "env \<Rightarrow> form \<Rightarrow> presentation" where
  "deck_of e f = deck_A (form_title f) (parse_topics (form_topics f))
     (content_A e (form_title f) (parse_topics (form_topics f)) empty_world)"

section \<open>The two parts\<close>

lemma app_parts:
  "app e f w =
     (case app_make e f w of
        None \<Rightarrow> None
      | Some (Finished r, w') \<Rightarrow> Some (r, w')
      | Some (Saved file_name, w') \<Rightarrow> Some (app_offer file_name w'))"
  by (simp add: app_def app_make_def app_offer_def Let_def
      split: option.splits sum.splits prod.splits)

lemma offers_append [simp]: "offers (xs @ ys) = offers xs @ offers ys"
  by (induction xs rule: offers.induct) simp_all

lemma offers_quiet: "list_all (\<lambda>ev. \<not> is_download ev) evs \<Longrightarrow> offers evs = []"
  by (induction evs rule: offers.induct) simp_all

lemma offers_errors: "list_all is_error evs \<Longrightarrow> offers evs = []"
  by (induction evs rule: offers.induct) simp_all

lemma offers_topic_events [simp]: "offers (topic_events content topics) = []"
  by (rule offers_quiet) (auto simp: topic_events_def list_all_iff)

lemma content_A_world: "content_A e title topics w = content_A e title topics w'"
  unfolding content_A_def
  by (rule generate_content_cases [of e "prompt_A title topics" w];
      rule generate_content_cases [of e "prompt_A title topics" w']) simp_all

text \<open>The first part ends without a file, or it has saved the deck of the form.\<close>

lemma app_make_cases:
  obtains (idle) w' where "\<not> makes_deck f" "app_make e f w = Some (Finished None, w')"
      "files w' = files w" "offers (ui w') = offers (ui w)"
  | (saved) w' where "makes_deck f" "app_make e f w = Some (Saved (name_of f), w')"
      "files w' = (files w)(name_of f \<mapsto> deck_of e f)" "offers (ui w') = offers (ui w)"
proof (cases "makes_deck f")
  case False
  show ?thesis
  proof (cases "form_submit f")
    case True
    with False show ?thesis
      by (intro idle [of "emit (St_error ''Please enter at least one topic.'')
          (emit (St_title ''AI-Powered Presentation Creator'') w)"])
         (simp_all add: makes_deck_def app_make_def)
  next
    case False
    then show ?thesis
      by (intro idle [of "emit (St_title ''AI-Powered Presentation Creator'') w"])
         (simp_all add: makes_deck_def app_make_def)
  qed
next
  case True
  let ?title = "form_title f" and ?topics = "parse_topics (form_topics f)"
  obtain content w1 where g: "generate_content e (prompt_A ?title ?topics) (started w) = (content, w1)"
    by (cases "generate_content e (prompt_A ?title ?topics) (started w)")
  then have "content = content_A e ?title ?topics (started w)" by (simp add: content_A_def)
  then have c: "deck_A ?title ?topics content = deck_of e f"
    by (simp add: deck_of_def content_A_world [of e ?title ?topics "started w" empty_world])
  from generate_content_ui [of e "prompt_A ?title ?topics" "started w"] g
  have "offers (ui w1) = offers (ui w)" by (auto simp: offers_errors)
  moreover from generate_content_files [of e "prompt_A ?title ?topics" "started w"] g
  have "files w1 = files w" by simp
  ultimately show ?thesis using True create_presentation_deck [OF g] c
    by (intro saved [of "save (name_of f) (deck_of e f) (emits (topic_events content ?topics) w1)"])
       (simp_all add: makes_deck_def app_make_def started_def name_of_def Let_def)
qed

lemma app_offer_cases:
  obtains (missing) w' where "files w file_name = None"
      "app_offer file_name w = (Some FileNotFoundError, w')"
      "files w' = files w" "offers (ui w') = offers (ui w)"
  | (found) d w' where "files w file_name = Some d" "app_offer file_name w = (None, w')"
      "files w' = files w" "offers (ui w') = offers (ui w) @ [d]"
  by (cases "files w file_name") (auto simp: app_offer_def Let_def)

section \<open>One step of a thread\<close>

lemma thread_step_cases:
  obtains (finish) w where "thread_phase t = Waiting" "\<not> makes_deck (thread_form t)"
      "thread_step e t fs = Some (t\<lparr>thread_phase := Ended None, thread_page := w\<rparr>, fs)"
      "offers (ui w) = offers (ui (thread_page t))"
  | (save) w where "thread_phase t = Waiting" "makes_deck (thread_form t)"
      "thread_step e t fs =
         Some (t\<lparr>thread_phase := Made (name_of (thread_form t)), thread_page := w\<rparr>,
           fs(name_of (thread_form t) \<mapsto> deck_of e (thread_form t)))"
      "offers (ui w) = offers (ui (thread_page t))"
  | (missing) file_name w where "thread_phase t = Made file_name" "fs file_name = None"
      "thread_step e t fs =
         Some (t\<lparr>thread_phase := Ended (Some FileNotFoundError), thread_page := w\<rparr>, fs)"
      "offers (ui w) = offers (ui (thread_page t))"
  | (offer) file_name d w where "thread_phase t = Made file_name" "fs file_name = Some d"
      "thread_step e t fs = Some (t\<lparr>thread_phase := Ended None, thread_page := w\<rparr>, fs)"
      "offers (ui w) = offers (ui (thread_page t)) @ [d]"
  | (ended) r where "thread_phase t = Ended r" "thread_step e t fs = None"
proof (cases "thread_phase t")
  case Waiting
  show ?thesis
  proof (cases rule: app_make_cases [of "thread_form t" e "(thread_page t)\<lparr>files := fs\<rparr>"])
    case (idle w')
    with Waiting show ?thesis by (intro finish [of w']) (simp_all add: thread_step_def)
  next
    case (saved w')
    with Waiting show ?thesis by (intro save [of w']) (simp_all add: thread_step_def)
  qed
next
  case (Made file_name)
  show ?thesis
  proof (cases rule: app_offer_cases [of "(thread_page t)\<lparr>files := fs\<rparr>" file_name])
    case (missing w')
    with Made show ?thesis by (intro that(3) [of file_name w']) (simp_all add: thread_step_def)
  next
    case (found d w')
    with Made show ?thesis by (intro offer [of file_name d w']) (simp_all add: thread_step_def)
  qed
next
  case (Ended r)
  then show ?thesis by (intro ended [of r]) (simp_all add: thread_step_def)
qed

section \<open>What every execution keeps\<close>

text \<open>A deck that the run of one of the forms makes for the file name.\<close>

definition written :: "env \<Rightarrow> form list \<Rightarrow> pystr \<Rightarrow> presentation \<Rightarrow> bool" where
  "written e forms file_name d \<longleftrightarrow>
     list_ex (\<lambda>f. makes_deck f \<and> name_of f = file_name \<and> deck_of e f = d) forms"

text \<open>
  A thread that waits or has saved offers nothing yet; one that has saved finds a
  written deck under its file name; one that ended did so without an exception and
  offers one written deck, or none when its form makes no deck.
\<close>

definition thread_ok :: "env \<Rightarrow> form list \<Rightarrow> file_system \<Rightarrow> thread \<Rightarrow> bool" where
  "thread_ok e forms fs t =
     (case thread_phase t of
        Waiting \<Rightarrow> offers (ui (thread_page t)) = []
      | Made file_name \<Rightarrow>
          offers (ui (thread_page t)) = [] \<and> makes_deck (thread_form t) \<and>
          file_name = name_of (thread_form t) \<and>
          (case fs file_name of None \<Rightarrow> False | Some d \<Rightarrow> written e forms file_name d)
      | Ended r \<Rightarrow>
          r = None \<and>
          (if makes_deck (thread_form t)
           then (case offers (ui (thread_page t)) of
                   [d] \<Rightarrow> written e forms (name_of (thread_form t)) d
                 | _ \<Rightarrow> False)
           else offers (ui (thread_page t)) = []))"

definition system_ok :: "env \<Rightarrow> form list \<Rightarrow> system \<Rightarrow> bool" where
  "system_ok e forms s \<longleftrightarrow>
     map thread_form (fst s) = forms \<and> list_all (thread_ok e forms (snd s)) (fst s)"

lemma system_ok_start: "system_ok e forms (start forms, fs)"
  by (simp add: system_ok_def start_def thread_ok_def list_all_iff comp_def)

lemma written_own: "f \<in> set forms \<Longrightarrow> makes_deck f \<Longrightarrow> written e forms (name_of f) (deck_of e f)"
  by (auto simp: written_def list_ex_iff)

lemma thread_ok_save:
  "thread_ok e forms fs t \<Longrightarrow> written e forms file_name d \<Longrightarrow>
     thread_ok e forms (fs(file_name \<mapsto> d)) t"
  by (auto simp: thread_ok_def split: phase.splits option.splits)

lemma system_ok_step:
  assumes "conc_step e s s'" "system_ok e forms s"
  shows "system_ok e forms s'"
  using assms(1)
proof cases
  case (move i ts fs t fs')
  with assms(2) have forms: "map thread_form ts = forms" and ok: "list_all (thread_ok e forms fs) ts"
    by (simp_all add: system_ok_def)
  from ok move(3) have i: "thread_ok e forms fs (ts ! i)" by (simp add: list_all_length)
  from forms move(3) have f: "thread_form (ts ! i) \<in> set forms" by (auto simp: in_set_conv_nth)
  have t: "thread_form t = thread_form (ts ! i) \<and> thread_ok e forms fs' t \<and>
      list_all (thread_ok e forms fs') ts"
  proof (cases rule: thread_step_cases [of "ts ! i" e fs])
    case (finish w)
    with move(4) i ok show ?thesis by (auto simp: thread_ok_def)
  next
    case (save w)
    from f save(2) have "written e forms (name_of (thread_form (ts ! i))) (deck_of e (thread_form (ts ! i)))"
      by (rule written_own)
    moreover from this ok have "list_all (thread_ok e forms
        (fs(name_of (thread_form (ts ! i)) \<mapsto> deck_of e (thread_form (ts ! i))))) ts"
      by (auto simp: list_all_iff intro: thread_ok_save)
    ultimately show ?thesis using save move(4) i by (auto simp: thread_ok_def)
  next
    case (missing file_name w)
    with i show ?thesis by (simp add: thread_ok_def)
  next
    case (offer file_name d w)
    with move(4) i ok show ?thesis by (auto simp: thread_ok_def)
  next
    case (ended r)
    with move(4) show ?thesis by simp
  qed
  with move(3) have "map thread_form (ts[i := t]) = map thread_form ts"
    by (simp add: map_update list_update_same_conv)
  with t forms move(2) show ?thesis by (simp add: system_ok_def list_all_update)
qed

lemma system_ok_steps:
  "(conc_step e)\<^sup>*\<^sup>* s s' \<Longrightarrow> system_ok e forms s \<Longrightarrow> system_ok e forms s'"
  by (induction rule: rtranclp_induct) (auto intro: system_ok_step)

section \<open>Schedules and steps\<close>

lemma run_steps: "run_schedule e schedule s = Some s' \<Longrightarrow> (conc_step e)\<^sup>*\<^sup>* s s'"
proof (induction schedule arbitrary: s)
  case (Cons i schedule)
  obtain ts fs where s: "s = (ts, fs)" by (cases s)
  with Cons.prems obtain t fs' where "i < length ts" "thread_step e (ts ! i) fs = Some (t, fs')"
    "run_schedule e schedule (ts[i := t], fs') = Some s'"
    by (auto split: if_splits option.splits)
  with Cons.IH s show ?case by (auto intro: converse_rtranclp_into_rtranclp conc_step.move)
qed simp

lemma steps_run: "(conc_step e)\<^sup>*\<^sup>* s s' \<Longrightarrow> \<exists>schedule. run_schedule e schedule s = Some s'"
proof (induction rule: converse_rtranclp_induct)
  case base
  have "run_schedule e [] s' = Some s'" by simp
  then show ?case ..
next
  case (step s s'')
  from step.IH obtain schedule where schedule: "run_schedule e schedule s'' = Some s'" ..
  from step.hyps(1) show ?case
  proof cases
    case (move i ts fs t fs')
    with schedule have "run_schedule e (i # schedule) s = Some s'" by simp
    then show ?thesis ..
  qed
qed

section \<open>Executions end\<close>

text \<open>The parts a thread still has to do, and their number in a system.\<close>

fun parts_left :: "phase \<Rightarrow> nat" where
  "parts_left Waiting = 2"
| "parts_left (Made file_name) = 1"
| "parts_left (Ended r) = 0"

definition work_left :: "system \<Rightarrow> nat" where
  "work_left s = sum_list (map (\<lambda>t. parts_left (thread_phase t)) (fst s))"

lemma thread_step_less:
  "thread_step e t fs = Some (t', fs') \<Longrightarrow>
     parts_left (thread_phase t') < parts_left (thread_phase t)"
  by (cases rule: thread_step_cases [of t e fs]) auto

lemma thread_step_None_iff: "thread_step e t fs = None \<longleftrightarrow> parts_left (thread_phase t) = 0"
  by (cases rule: thread_step_cases [of t e fs]) auto

lemma conc_step_less:
  assumes "conc_step e s s'"
  shows "work_left s' < work_left s"
  using assms
proof cases
  case (move i ts fs t fs')
  from move(3) have "parts_left (thread_phase (ts ! i)) \<le> sum_list (map (\<lambda>t. parts_left (thread_phase t)) ts)"
    by (intro member_le_sum_list) (auto intro!: imageI nth_mem)
  with move thread_step_less [OF move(4)] show ?thesis
    by (simp add: work_left_def map_update sum_list_update)
qed

text \<open>
  Every thread does at most two parts: a schedule that is executed from the start is at
  most twice as long as the list of forms. A thread that has not ended can move, so
  when no thread can, all have ended.
\<close>

lemma run_schedule_length:
  "run_schedule e schedule s = Some s' \<Longrightarrow> length schedule + work_left s' \<le> work_left s"
proof (induction schedule arbitrary: s)
  case (Cons i schedule)
  obtain ts fs where s: "s = (ts, fs)" by (cases s)
  with Cons.prems obtain t fs' where "i < length ts" "thread_step e (ts ! i) fs = Some (t, fs')"
    "run_schedule e schedule (ts[i := t], fs') = Some s'"
    by (auto split: if_splits option.splits)
  with Cons.IH [of "(ts[i := t], fs')"] conc_step_less [OF conc_step.move, of i ts e fs t fs'] s
  show ?case by simp
qed simp

lemma work_left_start: "work_left (start forms, fs) = 2 * length forms"
  by (induction forms) (simp_all add: work_left_def start_def)

lemma schedule_bound:
  "run_schedule e schedule (start forms, fs0) = Some s \<Longrightarrow> length schedule \<le> 2 * length forms"
  using run_schedule_length [of e schedule "(start forms, fs0)" s] by (simp add: work_left_start)

lemma stuck_iff_ended:
  "(\<nexists>s'. conc_step e (ts, fs) s') \<longleftrightarrow> list_all (\<lambda>t. parts_left (thread_phase t) = 0) ts"
proof
  assume stuck: "\<nexists>s'. conc_step e (ts, fs) s'"
  have "parts_left (thread_phase (ts ! i)) = 0" if "i < length ts" for i
  proof (rule ccontr)
    assume "parts_left (thread_phase (ts ! i)) \<noteq> 0"
    then obtain t fs' where "thread_step e (ts ! i) fs = Some (t, fs')"
      by (cases "thread_step e (ts ! i) fs") (auto simp: thread_step_None_iff)
    from conc_step.move [OF that this] stuck show False by blast
  qed
  then show "list_all (\<lambda>t. parts_left (thread_phase t) = 0) ts" by (simp add: list_all_length)
next
  assume "list_all (\<lambda>t. parts_left (thread_phase t) = 0) ts"
  then show "\<nexists>s'. conc_step e (ts, fs) s'"
    by (auto simp: list_all_length elim!: conc_stepE dest!: thread_step_less)
qed

section \<open>One thread alone\<close>

text \<open>The two parts after one another are the run of \<open>app\<close>.\<close>

lemma thread_alone:
  assumes "app e f w = Some (r, w')"
  shows "\<exists>schedule. run_schedule e schedule
      ([\<lparr>thread_form = f, thread_phase = Waiting, thread_page = w\<rparr>], files w) =
    Some ([\<lparr>thread_form = f, thread_phase = Ended r, thread_page = w'\<rparr>], files w')"
proof (cases "app_make e f w")
  case None
  with assms show ?thesis by (simp add: app_parts)
next
  case (Some a)
  obtain m w0 where a: "a = (m, w0)" by (cases a)
  show ?thesis
  proof (cases m)
    case (Finished r0)
    with assms Some a have "run_schedule e [0]
        ([\<lparr>thread_form = f, thread_phase = Waiting, thread_page = w\<rparr>], files w) =
      Some ([\<lparr>thread_form = f, thread_phase = Ended r, thread_page = w'\<rparr>], files w')"
      by (simp add: app_parts thread_step_def)
    then show ?thesis ..
  next
    case (Saved file_name)
    with assms Some a have "run_schedule e [0, 0]
        ([\<lparr>thread_form = f, thread_phase = Waiting, thread_page = w\<rparr>], files w) =
      Some ([\<lparr>thread_form = f, thread_phase = Ended r, thread_page = w'\<rparr>], files w')"
      by (simp add: app_parts thread_step_def)
    then show ?thesis ..
  qed
qed

section \<open>What a user is offered\<close>

lemma ended_thread:
  assumes "(conc_step e)\<^sup>*\<^sup>* (start forms, fs0) (ts, fs)" "i < length forms"
    "thread_phase (ts ! i) = Ended r"
  shows "r = None \<and>
    (if makes_deck (forms ! i)
     then \<exists>d. offers (ui (thread_page (ts ! i))) = [d] \<and> written e forms (name_of (forms ! i)) d
     else offers (ui (thread_page (ts ! i))) = [])"
proof -
  from system_ok_steps [OF assms(1) system_ok_start]
  have forms: "map thread_form ts = forms" and "list_all (thread_ok e forms fs) ts"
    by (simp_all add: system_ok_def)
  with assms(2) have "thread_ok e forms fs (ts ! i)" "thread_form (ts ! i) = forms ! i"
    by (auto simp: list_all_length)
  with assms(3) show ?thesis by (auto simp: thread_ok_def split: list.splits if_splits)
qed

text \<open>When the forms that make a deck have different file names, a written deck is one's own.\<close>

lemma written_distinct:
  assumes "distinct (map name_of (filter makes_deck forms))" "f \<in> set forms" "makes_deck f"
    "written e forms (name_of f) d"
  shows "d = deck_of e f"
proof -
  from assms(4) obtain g where "g \<in> set forms" "makes_deck g" "name_of g = name_of f"
    "deck_of e g = d"
    by (auto simp: written_def list_ex_iff)
  moreover from assms(1) have "inj_on name_of (set (filter makes_deck forms))"
    by (simp add: distinct_map)
  ultimately show ?thesis using assms(2,3) by (auto dest: inj_onD)
qed

lemma thread_step_save:
  assumes "thread_phase t = Waiting" "makes_deck (thread_form t)"
  shows "\<exists>w. thread_step e t fs =
      Some (t\<lparr>thread_phase := Made (name_of (thread_form t)), thread_page := w\<rparr>,
        fs(name_of (thread_form t) \<mapsto> deck_of e (thread_form t))) \<and>
    offers (ui w) = offers (ui (thread_page t))"
  using assms by (cases rule: thread_step_cases [of t e fs]) auto

lemma thread_step_offer:
  assumes "thread_phase t = Made file_name" "fs file_name = Some d"
  shows "\<exists>w. thread_step e t fs = Some (t\<lparr>thread_phase := Ended None, thread_page := w\<rparr>, fs) \<and>
    offers (ui w) = offers (ui (thread_page t)) @ [d]"
  using assms by (cases rule: thread_step_cases [of t e fs]) auto

text \<open>A run that is not interrupted: the schedule of one thread that makes a deck.\<close>

lemma run_uninterrupted:
  assumes "makes_deck f"
  shows "\<exists>ts fs. run_schedule e [0, 0] (start [f], fs0) = Some (ts, fs) \<and>
    map thread_phase ts = [Ended None] \<and> offers (ui (thread_page (ts ! 0))) = [deck_of e f]"
proof -
  let ?t = "\<lparr>thread_form = f, thread_phase = Waiting, thread_page = empty_world\<rparr>"
  let ?fs = "fs0(name_of f \<mapsto> deck_of e f)"
  from assms thread_step_save [of ?t e fs0]
  obtain w1 where 1: "thread_step e ?t fs0 =
      Some (?t\<lparr>thread_phase := Made (name_of f), thread_page := w1\<rparr>, ?fs)" "offers (ui w1) = []"
    by auto
  from thread_step_offer [of "?t\<lparr>thread_phase := Made (name_of f), thread_page := w1\<rparr>"
      "name_of f" ?fs _ e]
  obtain w2 where "thread_step e (?t\<lparr>thread_phase := Made (name_of f), thread_page := w1\<rparr>) ?fs =
      Some (?t\<lparr>thread_phase := Ended None, thread_page := w2\<rparr>, ?fs)"
    "offers (ui w2) = offers (ui w1) @ [deck_of e f]"
    by auto
  with 1 show ?thesis by (simp add: start_def)
qed

text \<open>
  C27. In every execution of runs of \<open>App.py\<close> on shared files, whatever the schedule, a
  run that ended has ended without an exception and, when its form makes a deck,
  offers exactly one deck: one that the run of some form makes for the same file name.
  The file is there when it is opened, and nothing else than a whole deck is in it.
\<close>

theorem offered_deck_written:
  assumes "(conc_step e)\<^sup>*\<^sup>* (start forms, fs0) (ts, fs)" "i < length forms"
    "thread_phase (ts ! i) = Ended r" "makes_deck (forms ! i)"
  shows "r = None \<and> (\<exists>f d. f \<in> set forms \<and> makes_deck f \<and> name_of f = name_of (forms ! i) \<and>
    d = deck_of e f \<and> offers (ui (thread_page (ts ! i))) = [d])"
  using ended_thread [OF assms(1-3)] assms(4) by (auto simp: written_def list_ex_iff)

theorem offered_deck_written_witness:
  "\<exists>ts fs. (conc_step \<lparr>api_key = Some ''k'', service = (\<lambda>p. Inr ''text'')\<rparr>)\<^sup>*\<^sup>*
       (start [\<lparr>form_title = ''Gen AI'', form_topics = ''A'', form_submit = True\<rparr>], Map.empty)
       (ts, fs) \<and>
     (\<exists>f d. f \<in> set [\<lparr>form_title = ''Gen AI'', form_topics = ''A'', form_submit = True\<rparr>] \<and>
        makes_deck f \<and>
        d = deck_of \<lparr>api_key = Some ''k'', service = (\<lambda>p. Inr ''text'')\<rparr> f \<and>
        offers (ui (thread_page (ts ! 0))) = [d])"
proof -
  let ?e = "\<lparr>api_key = Some ''k'', service = (\<lambda>p. Inr ''text'')\<rparr>"
  let ?f = "\<lparr>form_title = ''Gen AI'', form_topics = ''A'', form_submit = True\<rparr>"
  have f: "makes_deck ?f" by (simp add: makes_deck_def parse_topics_def parser_eval)
  from run_uninterrupted [OF this, of ?e Map.empty]
  obtain ts fs where r: "run_schedule ?e [0, 0] (start [?f], Map.empty) = Some (ts, fs)"
    "map thread_phase ts = [Ended None]"
    by auto
  then have "thread_phase (ts ! 0) = Ended None" by (cases ts) auto
  with offered_deck_written [OF run_steps [OF r(1)], of 0 None] f
  have "\<exists>g d. g \<in> set [?f] \<and> makes_deck g \<and> d = deck_of ?e g \<and>
      offers (ui (thread_page (ts ! 0))) = [d]"
    by auto
  with run_steps [OF r(1)] show ?thesis by blast
qed

text \<open>
  C25. When the forms that make a deck have different file names, every run offers the deck
  of its own form, whatever the schedule: the runs do not interfere.
\<close>

theorem own_deck_offered:
  assumes "distinct (map name_of (filter makes_deck forms))"
    "(conc_step e)\<^sup>*\<^sup>* (start forms, fs0) (ts, fs)" "i < length forms"
    "thread_phase (ts ! i) = Ended r"
  shows "r = None \<and> offers (ui (thread_page (ts ! i))) =
    (if makes_deck (forms ! i) then [deck_of e (forms ! i)] else [])"
  using ended_thread [OF assms(2-4)] assms(3)
  by (auto dest!: written_distinct [OF assms(1), rotated 2])

theorem own_deck_offered_witness:
  "\<exists>ts fs. (conc_step \<lparr>api_key = Some ''k'', service = (\<lambda>p. Inr ''text'')\<rparr>)\<^sup>*\<^sup>*
       (start [\<lparr>form_title = ''Gen AI'', form_topics = ''A'', form_submit = True\<rparr>], Map.empty)
       (ts, fs) \<and>
     offers (ui (thread_page (ts ! 0))) =
       [deck_of \<lparr>api_key = Some ''k'', service = (\<lambda>p. Inr ''text'')\<rparr>
          \<lparr>form_title = ''Gen AI'', form_topics = ''A'', form_submit = True\<rparr>]"
proof -
  let ?e = "\<lparr>api_key = Some ''k'', service = (\<lambda>p. Inr ''text'')\<rparr>"
  let ?f = "\<lparr>form_title = ''Gen AI'', form_topics = ''A'', form_submit = True\<rparr>"
  have f: "makes_deck ?f" by (simp add: makes_deck_def parse_topics_def parser_eval)
  from run_uninterrupted [OF this, of ?e Map.empty]
  obtain ts fs where r: "run_schedule ?e [0, 0] (start [?f], Map.empty) = Some (ts, fs)"
    "map thread_phase ts = [Ended None]"
    by auto
  then have "thread_phase (ts ! 0) = Ended None" by (cases ts) auto
  with own_deck_offered [OF _ run_steps [OF r(1)], of 0 None] f
  have "offers (ui (thread_page (ts ! 0))) = [deck_of ?e ?f]" by simp
  with run_steps [OF r(1)] show ?thesis by blast
qed

text \<open>
  C26. Two forms with the same file name: when both runs have saved before the first one
  opens the file, both users are offered the deck of the second form. No exception is
  raised and nothing on the page of the first user tells that the deck is not theirs.
\<close>

theorem foreign_deck_offered:
  assumes "makes_deck f1" "makes_deck f2" "name_of f1 = name_of f2"
  shows "\<exists>ts fs. run_schedule e [0, 1, 0, 1] (start [f1, f2], fs0) = Some (ts, fs) \<and>
    map thread_phase ts = [Ended None, Ended None] \<and>
    offers (ui (thread_page (ts ! 0))) = [deck_of e f2] \<and>
    offers (ui (thread_page (ts ! 1))) = [deck_of e f2]"
proof -
  let ?t1 = "\<lparr>thread_form = f1, thread_phase = Waiting, thread_page = empty_world\<rparr>"
  let ?t2 = "\<lparr>thread_form = f2, thread_phase = Waiting, thread_page = empty_world\<rparr>"
  let ?n = "name_of f2"
  let ?fs1 = "fs0(?n \<mapsto> deck_of e f1)"
  let ?fs2 = "?fs1(?n \<mapsto> deck_of e f2)"
  from assms thread_step_save [of ?t1 e fs0]
  obtain w1 where 1: "thread_step e ?t1 fs0 =
      Some (?t1\<lparr>thread_phase := Made ?n, thread_page := w1\<rparr>, ?fs1)" "offers (ui w1) = []"
    by auto
  from assms thread_step_save [of ?t2 e ?fs1]
  obtain w2 where 2: "thread_step e ?t2 ?fs1 =
      Some (?t2\<lparr>thread_phase := Made ?n, thread_page := w2\<rparr>, ?fs2)" "offers (ui w2) = []"
    by auto
  from thread_step_offer [of "?t1\<lparr>thread_phase := Made ?n, thread_page := w1\<rparr>" ?n ?fs2 _ e]
  obtain w3 where 3: "thread_step e (?t1\<lparr>thread_phase := Made ?n, thread_page := w1\<rparr>) ?fs2 =
      Some (?t1\<lparr>thread_phase := Ended None, thread_page := w3\<rparr>, ?fs2)"
    "offers (ui w3) = offers (ui w1) @ [deck_of e f2]"
    by auto
  from thread_step_offer [of "?t2\<lparr>thread_phase := Made ?n, thread_page := w2\<rparr>" ?n ?fs2 _ e]
  obtain w4 where 4: "thread_step e (?t2\<lparr>thread_phase := Made ?n, thread_page := w2\<rparr>) ?fs2 =
      Some (?t2\<lparr>thread_phase := Ended None, thread_page := w4\<rparr>, ?fs2)"
    "offers (ui w4) = offers (ui w2) @ [deck_of e f2]"
    by auto
  from 1 2 3 4 show ?thesis by (simp add: start_def)
qed

theorem foreign_deck_offered_witness:
  "\<exists>ts fs. run_schedule \<lparr>api_key = Some ''k'', service = (\<lambda>p. Inr ''text'')\<rparr> [0, 1, 0, 1]
       (start [\<lparr>form_title = ''Gen AI'', form_topics = ''A'', form_submit = True\<rparr>,
               \<lparr>form_title = ''Gen_AI'', form_topics = ''B'', form_submit = True\<rparr>], Map.empty) =
       Some (ts, fs) \<and>
     map thread_phase ts = [Ended None, Ended None] \<and>
     offers (ui (thread_page (ts ! 0))) =
       [deck_of \<lparr>api_key = Some ''k'', service = (\<lambda>p. Inr ''text'')\<rparr>
          \<lparr>form_title = ''Gen_AI'', form_topics = ''B'', form_submit = True\<rparr>] \<and>
     offers (ui (thread_page (ts ! 1))) =
       [deck_of \<lparr>api_key = Some ''k'', service = (\<lambda>p. Inr ''text'')\<rparr>
          \<lparr>form_title = ''Gen_AI'', form_topics = ''B'', form_submit = True\<rparr>]"
  using foreign_deck_offered
    [of "\<lparr>form_title = ''Gen AI'', form_topics = ''A'', form_submit = True\<rparr>"
        "\<lparr>form_title = ''Gen_AI'', form_topics = ''B'', form_submit = True\<rparr>"
        "\<lparr>api_key = Some ''k'', service = (\<lambda>p. Inr ''text'')\<rparr>" Map.empty]
  by (simp add: makes_deck_def name_of_def file_name_A_def parse_topics_def parser_eval)

end
