(* ===== verification/Py_Regex.thy ===== *)
theory Py_Regex
  imports Markers Slide_Parser
begin

text \<open>
  The two regular expressions of \<open>App1.py\<close> under the semantics of a backtracking
  matcher, which is how the module \<open>re\<close> matches. \<open>rx\<close> has the constructs the two
  patterns are written with; \<open>bt\<close> matches a pattern at the start of a text and hands
  what is left, together with the groups that were closed, to a continuation, and
  tries the next alternative when the continuation fails: a greedy repetition tries
  the longest run first, a lazy one the shortest. \<open>re_match\<close> and \<open>re_findall\<close> are
  the two functions of \<open>re\<close> the script calls. The lemmas show that on the patterns of
  the script they compute what \<open>match_header\<close> and \<open>findall_slides\<close> compute, the
  functions the theories \<open>Slide_Parser\<close> and \<open>Markers\<close> work with. \<open>rx_match\<close> says
  which texts a pattern matches, without an order of the attempts; the matcher goes
  on only behind such a text, and it finds a match wherever there is one.
\<close>

section \<open>Patterns\<close>

text \<open>
  A literal text, one or more characters of a class (greedy, \<open>c+\<close>), any number of
  characters of a class (lazy, \<open>c*?\<close>), sequence, alternative, a group, a lookahead
  and the end of the text.
\<close>

datatype rx =
    Lit pystr
  | Many "char \<Rightarrow> bool"
  | Few "char \<Rightarrow> bool"
  | Cat rx rx
  | Alt rx rx
  | Group rx
  | Ahead rx
  | Eos

text \<open>The groups that are closed, in the order in which they were, and the text that is left.\<close>

type_synonym cfg = "pystr list \<times> pystr"

type_synonym cont = "cfg \<Rightarrow> cfg option"

section \<open>The matcher\<close>

fun greedy :: "(char \<Rightarrow> bool) \<Rightarrow> pystr list \<Rightarrow> pystr \<Rightarrow> cont \<Rightarrow> cfg option" where
  "greedy P gs [] k = k (gs, [])"
| "greedy P gs (c # cs) k =
     (if P c then (case greedy P gs cs k of Some r \<Rightarrow> Some r | None \<Rightarrow> k (gs, c # cs))
      else k (gs, c # cs))"

fun lazy :: "(char \<Rightarrow> bool) \<Rightarrow> pystr list \<Rightarrow> pystr \<Rightarrow> cont \<Rightarrow> cfg option" where
  "lazy P gs [] k = k (gs, [])"
| "lazy P gs (c # cs) k =
     (case k (gs, c # cs) of Some r \<Rightarrow> Some r | None \<Rightarrow> if P c then lazy P gs cs k else None)"

primrec bt :: "rx \<Rightarrow> cfg \<Rightarrow> cont \<Rightarrow> cfg option" where
  "bt (Lit cs) c k = (if prefix cs (snd c) then k (fst c, drop (length cs) (snd c)) else None)"
| "bt (Many P) c k =
     (case snd c of [] \<Rightarrow> None | x # xs \<Rightarrow> if P x then greedy P (fst c) xs k else None)"
| "bt (Few P) c k = lazy P (fst c) (snd c) k"
| "bt (Cat a b) c k = bt a c (\<lambda>c'. bt b c' k)"
| "bt (Alt a b) c k = (case bt a c k of Some r \<Rightarrow> Some r | None \<Rightarrow> bt b c k)"
| "bt (Group a) c k =
     bt a c (\<lambda>c'. k (fst c' @ [take (length (snd c) - length (snd c')) (snd c)], snd c'))"
| "bt (Ahead a) c k = (case bt a c Some of Some c' \<Rightarrow> k (fst c', snd c) | None \<Rightarrow> None)"
| "bt Eos c k = (if at_end (snd c) then k c else None)"

text \<open>The equations in the form the lemmas use them; \<open>Many\<close> is unfolded by its own lemmas.\<close>

declare bt.simps [simp del]

lemma bt_Lit [simp]:
  "bt (Lit cs) (gs, s) k = (if prefix cs s then k (gs, drop (length cs) s) else None)"
  and bt_Few [simp]: "bt (Few P) (gs, s) k = lazy P gs s k"
  and bt_Cat [simp]: "bt (Cat a b) c k = bt a c (\<lambda>c'. bt b c' k)"
  and bt_Group [simp]: "bt (Group a) (gs, s) k =
    bt a (gs, s) (\<lambda>c'. k (fst c' @ [take (length s - length (snd c')) s], snd c'))"
  and bt_Eos [simp]: "bt Eos (gs, s) k = (if at_end s then k (gs, s) else None)"
  and bt_Alt: "bt (Alt a b) c k = (case bt a c k of Some r \<Rightarrow> Some r | None \<Rightarrow> bt b c k)"
  and bt_Ahead: "bt (Ahead a) (gs, s) k =
    (case bt a (gs, s) Some of Some c' \<Rightarrow> k (fst c', s) | None \<Rightarrow> None)"
  and bt_Many: "bt (Many P) (gs, s) k =
    (case s of [] \<Rightarrow> None | x # xs \<Rightarrow> if P x then greedy P gs xs k else None)"
  by (simp_all add: bt.simps split: option.splits list.splits)

section \<open>The functions of \<open>re\<close>\<close>

text \<open>\<open>re.match\<close>: the pattern at the start of the text; the groups and what is left.\<close>

definition re_match :: "rx \<Rightarrow> pystr \<Rightarrow> cfg option" where
  "re_match r s = bt r ([], s) Some"

text \<open>
  What \<open>findall\<close> returns for a match: the text of the match for a pattern without a
  group, the text of the group for a pattern with one group. The tuples of a pattern
  with more groups are not modelled.
\<close>

definition found :: "pystr list \<Rightarrow> pystr \<Rightarrow> pystr option" where
  "found gs m = (case gs of [] \<Rightarrow> Some m | [g] \<Rightarrow> Some g | _ \<Rightarrow> None)"

text \<open>
  \<open>findall\<close>: the pattern at every position from the left, going on behind a match.
  The rule of \<open>re\<close> for an empty match is not modelled: the result is \<open>None\<close> then.
\<close>

function re_findall :: "rx \<Rightarrow> pystr \<Rightarrow> pystr list option" where
  "re_findall r s =
     (case re_match r s of
        Some (gs, rest) \<Rightarrow>
          (if length rest < length s then
             (case (found gs (take (length s - length rest) s), re_findall r rest) of
                (Some x, Some xs) \<Rightarrow> Some (x # xs)
              | _ \<Rightarrow> None)
           else None)
      | None \<Rightarrow> (case s of [] \<Rightarrow> Some [] | c # t \<Rightarrow> re_findall r t))"
  by pat_completeness auto
termination
  by (relation "measure (\<lambda>(r, s). length s)") auto

declare re_findall.simps [simp del]

section \<open>The patterns of the script\<close>

text \<open>\<open>Slide \d+:\<close>, which both patterns begin with and the lookahead looks for.\<close>

definition slide_marker :: rx where
  "slide_marker = Cat (Lit ''Slide '') (Cat (Many is_digit) (Lit '':''))"

text \<open>\<open>(Slide \d+:.*?)(?=Slide \d+:|$)\<close> with \<open>DOTALL\<close>, where the dot is any character.\<close>

definition slide_pattern :: rx where
  "slide_pattern =
     Cat (Group (Cat slide_marker (Few (\<lambda>c. True)))) (Ahead (Alt slide_marker Eos))"

text \<open>\<open>Slide (\d+): (.+)\<close>, where the dot is any character but a newline.\<close>

definition header_pattern :: rx where
  "header_pattern =
     Cat (Lit ''Slide '')
       (Cat (Group (Many is_digit)) (Cat (Lit '': '') (Group (Many (\<lambda>c. c \<noteq> newline)))))"

section \<open>Repetitions\<close>

text \<open>
  A greedy repetition before something that cannot start with a character of the
  class ends where the class ends: giving a character back cannot help.
\<close>

lemma greedy_end:
  "(\<And>c cs. P c \<Longrightarrow> k (gs, c # cs) = None) \<Longrightarrow> greedy P gs s k = k (gs, dropWhile P s)"
  by (induction s) (auto split: option.splits)

text \<open>The longest run is tried first.\<close>

lemma greedy_longest: "k (gs, dropWhile P s) = Some r \<Longrightarrow> greedy P gs s k = Some r"
  by (induction s) auto

lemma bt_Many_None: "takeWhile P s = [] \<Longrightarrow> bt (Many P) (gs, s) k = None"
  by (cases s) (auto simp: bt_Many split: if_splits)

lemma bt_Many_end:
  "(\<And>c cs. P c \<Longrightarrow> k (gs, c # cs) = None) \<Longrightarrow>
     bt (Many P) (gs, s) k = (if takeWhile P s = [] then None else k (gs, dropWhile P s))"
  by (cases s) (simp_all add: bt_Many greedy_end)

lemma bt_Many_longest:
  "takeWhile P s \<noteq> [] \<Longrightarrow> k (gs, dropWhile P s) = Some r \<Longrightarrow> bt (Many P) (gs, s) k = Some r"
  by (cases s) (auto simp: bt_Many greedy_longest split: if_splits)

lemma take_dropWhile: "take (length s - length (dropWhile P s)) s = takeWhile P s"
proof -
  have "length (takeWhile P s) + length (dropWhile P s) = length s"
    by (metis length_append takeWhile_dropWhile_id)
  then have "length s - length (dropWhile P s) = length (takeWhile P s)" by simp
  then show ?thesis by (metis append_eq_conv_conj takeWhile_dropWhile_id)
qed

section \<open>The marker and the lookahead\<close>

lemma bt_slide_marker:
  "bt slide_marker (gs, s) k =
     (case match_marker s of Some (mk, rest) \<Rightarrow> k (gs, rest) | None \<Rightarrow> None)"
proof -
  have "bt (Lit '':'') (gs, c # cs) k = None" if "is_digit c" for c cs
    using that by (auto simp: is_digit_def)
  then have "bt (Many is_digit) (gs, t) (\<lambda>c'. bt (Lit '':'') c' k) =
      (if takeWhile is_digit t = [] then None else bt (Lit '':'') (gs, dropWhile is_digit t) k)"
    for t
    by (rule bt_Many_end)
  then show ?thesis
    by (cases "dropWhile is_digit (drop 6 s)")
       (simp_all add: slide_marker_def match_marker_def Let_def eval_nat_numeral drop_Suc)
qed

lemma bt_lookahead:
  "bt (Ahead (Alt slide_marker Eos)) (gs, s) k = (if lookahead s then k (gs, s) else None)"
  by (auto simp: bt_Ahead bt_Alt bt_slide_marker lookahead_def split: option.splits)

section \<open>The lazy body\<close>

text \<open>
  A lazy run of any characters before a lookahead ends at the first place where the
  lookahead holds, which is where \<open>lazy_body\<close> ends.
\<close>

lemma lazy_lookahead:
  "lazy (\<lambda>c. True) gs s (\<lambda>c'. if lookahead (snd c') then Some (f c') else None) =
     Some (f (gs, snd (lazy_body s)))"
proof (induction s)
  case Nil
  show ?case by (simp add: lookahead_def at_end_def)
next
  case (Cons c cs)
  then show ?case by (simp split: prod.splits)
qed

section \<open>The pattern of the slides\<close>

lemma re_match_slide_pattern:
  "re_match slide_pattern s =
     (case match_marker s of
        Some (mk, rest) \<Rightarrow> (case lazy_body rest of (body, r) \<Rightarrow> Some ([mk @ body], r))
      | None \<Rightarrow> None)"
proof (cases "match_marker s")
  case None
  then show ?thesis by (simp add: re_match_def slide_pattern_def bt_slide_marker)
next
  case (Some a)
  obtain mk rest where a: "a = (mk, rest)" by (cases a)
  obtain body r where b: "lazy_body rest = (body, r)" by (cases "lazy_body rest")
  from Some a b have "s = (mk @ body) @ r"
    by (auto dest!: match_marker_append lazy_body_append)
  then have "take (length s - length r) s = mk @ body" by simp
  with Some a b show ?thesis
    by (simp add: re_match_def slide_pattern_def bt_slide_marker bt_lookahead lazy_lookahead)
qed

lemma re_findall_slide_pattern: "re_findall slide_pattern s = Some (findall_slides s)"
proof (induction s rule: findall_slides.induct)
  case (1 s)
  show ?case
  proof (cases "match_marker s")
    case None
    show ?thesis
    proof (cases s)
      case Nil
      with None show ?thesis
        by (subst re_findall.simps, subst findall_slides.simps) (simp add: re_match_slide_pattern)
    next
      case (Cons c t)
      with None "1.IH"(1) [OF None Cons] show ?thesis
        by (subst re_findall.simps, subst findall_slides.simps) (simp add: re_match_slide_pattern)
    qed
  next
    case (Some a)
    obtain mk rest where a: "a = (mk, rest)" by (cases a)
    obtain body r where b: "lazy_body rest = (body, r)" by (cases "lazy_body rest")
    from Some a match_marker_length [of s mk rest] lazy_body_length [OF b]
    have "length r < length s" by simp
    moreover from Some a b have "s = (mk @ body) @ r"
      by (auto dest!: match_marker_append lazy_body_append)
    then have "take (length s - length r) s = mk @ body" by simp
    ultimately show ?thesis using Some a b "1.IH"(2) [OF Some a [symmetric] b [symmetric]]
      by (subst re_findall.simps, subst findall_slides.simps)
         (simp add: re_match_slide_pattern found_def)
  qed
qed


section \<open>The pattern of the header\<close>

lemma is_digit_not_colon: "is_digit c \<Longrightarrow> c \<noteq> CHR '':''"
  by (auto simp: is_digit_def)

lemma bt_Cat_Lit:
  "bt (Cat (Lit cs) b) (gs, s) k = (if prefix cs s then bt b (gs, drop (length cs) s) k else None)"
  by simp

text \<open>A group of a greedy repetition records the run that the repetition took.\<close>

lemma bt_Group_Many_end:
  assumes "\<And>g c cs. P c \<Longrightarrow> k (gs @ [g], c # cs) = None"
  shows "bt (Group (Many P)) (gs, s) k =
    (if takeWhile P s = [] then None else k (gs @ [takeWhile P s], dropWhile P s))"
  by (simp add: bt_Many_end assms take_dropWhile)

lemma bt_Group_Many_last:
  "bt (Group (Many P)) (gs, s) Some =
    (if takeWhile P s = [] then None else Some (gs @ [takeWhile P s], dropWhile P s))"
  by (simp add: bt_Many_None bt_Many_longest take_dropWhile)

lemma bt_digits_colon:
  "bt (Cat (Group (Many is_digit)) (Cat (Lit '': '') b)) (gs, t) k =
     (if takeWhile is_digit t = [] then None
      else bt (Cat (Lit '': '') b) (gs @ [takeWhile is_digit t], dropWhile is_digit t) k)"
proof -
  have "bt (Group (Many is_digit)) (gs, t) (\<lambda>c'. bt (Cat (Lit '': '') b) c' k) =
      (if takeWhile is_digit t = [] then None
       else bt (Cat (Lit '': '') b) (gs @ [takeWhile is_digit t], dropWhile is_digit t) k)"
    by (rule bt_Group_Many_end) (auto dest: is_digit_not_colon)
  then show ?thesis by (simp only: bt_Cat [of "Group (Many is_digit)"])
qed

lemma re_match_header_pattern:
  "re_match header_pattern h =
     (case match_header h of
        Some (n, g) \<Rightarrow>
          Some ([n, g], dropWhile (\<lambda>c. c \<noteq> newline) (drop 2 (dropWhile is_digit (drop 6 h))))
      | None \<Rightarrow> None)"
  by (simp add: re_match_def header_pattern_def match_header_def Let_def bt_Cat_Lit
      bt_digits_colon bt_Group_Many_last eval_nat_numeral drop_Suc del: bt_Cat bt_Group)


section \<open>The matcher and the texts of a pattern\<close>

text \<open>
  What a pattern matches, without an order of the attempts: \<open>rx_match r u t\<close> says
  that \<open>r\<close> matches the text \<open>u\<close> when \<open>t\<close> follows it. The text that follows matters
  for the lookahead and for \<open>$\<close> only.
\<close>

inductive rx_match :: "rx \<Rightarrow> pystr \<Rightarrow> pystr \<Rightarrow> bool" where
  Lit: "rx_match (Lit cs) cs t"
| Many: "u \<noteq> [] \<Longrightarrow> list_all P u \<Longrightarrow> rx_match (Many P) u t"
| Few: "list_all P u \<Longrightarrow> rx_match (Few P) u t"
| Cat: "rx_match a u (v @ t) \<Longrightarrow> rx_match b v t \<Longrightarrow> rx_match (Cat a b) (u @ v) t"
| Alt1: "rx_match a u t \<Longrightarrow> rx_match (Alt a b) u t"
| Alt2: "rx_match b u t \<Longrightarrow> rx_match (Alt a b) u t"
| Group: "rx_match a u t \<Longrightarrow> rx_match (Group a) u t"
| Ahead: "rx_match a u v \<Longrightarrow> rx_match (Ahead a) [] (u @ v)"
| Eos: "at_end t \<Longrightarrow> rx_match Eos [] t"

text \<open>The matcher goes on with the continuation only behind a text of the pattern.\<close>

definition goes_on :: "(pystr \<Rightarrow> pystr \<Rightarrow> bool) \<Rightarrow> pystr \<Rightarrow> bool" where
  "goes_on R s \<longleftrightarrow> (\<exists>u t. s = u @ t \<and> R u t)"

lemma goes_onI: "s = u @ t \<Longrightarrow> R u t \<Longrightarrow> goes_on R s"
  unfolding goes_on_def by blast

lemma goes_onE:
  assumes "goes_on R s"
  obtains u t where "s = u @ t" "R u t"
  using assms unfolding goes_on_def by blast

lemma goes_on_mono: "goes_on R s \<Longrightarrow> (\<And>u t. R u t \<Longrightarrow> R' u t) \<Longrightarrow> goes_on R' s"
  unfolding goes_on_def by blast

lemma goes_on_Cons:
  "goes_on (\<lambda>u t. list_all P u \<and> K t) cs \<Longrightarrow> P c \<Longrightarrow>
     goes_on (\<lambda>u t. list_all P u \<and> K t) (c # cs)"
  by (erule goes_onE) (rule goes_onI [of _ "c # _"], simp_all)

lemma goes_on_here: "K s \<Longrightarrow> goes_on (\<lambda>u t. list_all P u \<and> K t) s"
  by (rule goes_onI [of _ "[]" s]) simp_all

lemma greedy_sound:
  "greedy P gs s k = Some res \<Longrightarrow> goes_on (\<lambda>u t. list_all P u \<and> k (gs, t) = Some res) s"
proof (induction s)
  case Nil
  then show ?case by (simp add: goes_on_here)
next
  case (Cons c cs)
  show ?case
  proof (cases "P c \<and> greedy P gs cs k = Some res")
    case True
    with Cons.IH show ?thesis by (simp add: goes_on_Cons)
  next
    case False
    with Cons.prems have "k (gs, c # cs) = Some res" by (auto split: if_splits option.splits)
    then show ?thesis by (rule goes_on_here)
  qed
qed

lemma lazy_sound:
  "lazy P gs s k = Some res \<Longrightarrow> goes_on (\<lambda>u t. list_all P u \<and> k (gs, t) = Some res) s"
proof (induction s)
  case Nil
  then show ?case by (simp add: goes_on_here)
next
  case (Cons c cs)
  show ?case
  proof (cases "k (gs, c # cs) = Some res")
    case True
    then show ?thesis by (rule goes_on_here)
  next
    case False
    with Cons.prems have "P c" "lazy P gs cs k = Some res"
      by (auto split: if_splits option.splits)
    with Cons.IH show ?thesis by (simp add: goes_on_Cons)
  qed
qed

text \<open>
  \<open>behind r k res\<close>: a text \<open>u\<close> of the pattern and the rest \<open>t\<close> on which the continuation
  gave the result. One lemma for each construct, then the matcher by induction.
\<close>

abbreviation behind :: "rx \<Rightarrow> cont \<Rightarrow> cfg \<Rightarrow> pystr \<Rightarrow> pystr \<Rightarrow> bool" where
  "behind r k res \<equiv> (\<lambda>u t. rx_match r u t \<and> (\<exists>gs'. k (gs', t) = Some res))"

lemma bt_sound_Lit: "bt (Lit cs) (gs, s) k = Some res \<Longrightarrow> goes_on (behind (Lit cs) k res) s"
  by (rule goes_onI [of s cs "drop (length cs) s"])
    (auto simp: prefix_def intro: rx_match.Lit split: if_splits)

lemma bt_sound_Many:
  assumes "bt (Many P) (gs, s) k = Some res"
  shows "goes_on (behind (Many P) k res) s"
proof -
  from assms obtain c cs where s: "s = c # cs" "P c" "greedy P gs cs k = Some res"
    by (cases s) (auto simp: bt_Many split: if_splits)
  from greedy_sound [OF s(3)] obtain u t
    where "cs = u @ t" "list_all P u" "k (gs, t) = Some res" by (auto elim!: goes_onE)
  with s show ?thesis by (intro goes_onI [of s "c # u" t]) (auto intro: rx_match.Many)
qed

lemma bt_sound_Few:
  assumes "bt (Few P) (gs, s) k = Some res"
  shows "goes_on (behind (Few P) k res) s"
proof -
  from assms have "lazy P gs s k = Some res" by simp
  from lazy_sound [OF this] show ?thesis
    by (rule goes_on_mono) (auto intro: rx_match.Few)
qed

lemma bt_sound_Eos: "bt Eos (gs, s) k = Some res \<Longrightarrow> goes_on (behind Eos k res) s"
  by (rule goes_onI [of s "[]" s]) (auto intro: rx_match.Eos split: if_splits)

lemma bt_sound_Cat:
  assumes a: "\<And>gs s k res. bt a (gs, s) k = Some res \<Longrightarrow> goes_on (behind a k res) s"
    and b: "\<And>gs s k res. bt b (gs, s) k = Some res \<Longrightarrow> goes_on (behind b k res) s"
    and m: "bt (Cat a b) (gs, s) k = Some res"
  shows "goes_on (behind (Cat a b) k res) s"
proof -
  from m have "bt a (gs, s) (\<lambda>c'. bt b c' k) = Some res" by simp
  from a [OF this] obtain u w gs' where
    u: "s = u @ w" "rx_match a u w" "bt b (gs', w) k = Some res"
    by (auto elim!: goes_onE)
  from b [OF u(3)] obtain v t gs'' where
    v: "w = v @ t" "rx_match b v t" "k (gs'', t) = Some res"
    by (auto elim!: goes_onE)
  from u v have "rx_match (Cat a b) (u @ v) t" by (auto intro: rx_match.Cat)
  with u(1) v(1,3) show ?thesis by (intro goes_onI [of s "u @ v" t]) auto
qed

lemma bt_sound_Ahead:
  assumes a: "\<And>gs s k res. bt a (gs, s) k = Some res \<Longrightarrow> goes_on (behind a k res) s"
    and m: "bt (Ahead a) (gs, s) k = Some res"
  shows "goes_on (behind (Ahead a) k res) s"
proof -
  from m obtain c' where c: "bt a (gs, s) Some = Some c'" "k (fst c', s) = Some res"
    by (auto simp: bt_Ahead split: option.splits)
  from a [OF c(1)] obtain u v where "s = u @ v" "rx_match a u v"
    by (auto elim!: goes_onE)
  then have "rx_match (Ahead a) [] s" by (auto intro: rx_match.Ahead)
  with c(2) show ?thesis by (intro goes_onI [of s "[]" s]) auto
qed

lemma bt_sound: "bt r (gs, s) k = Some res \<Longrightarrow> goes_on (behind r k res) s"
proof (induction r arbitrary: gs s k res)
  case (Alt a b)
  then have "bt a (gs, s) k = Some res \<or> bt b (gs, s) k = Some res"
    by (auto simp: bt_Alt split: option.splits)
  with Alt.IH [of gs s k res] show ?case
    by (auto elim!: goes_on_mono intro: rx_match.Alt1 rx_match.Alt2)
next
  case (Group a)
  from Group.prems have "bt a (gs, s)
    (\<lambda>c'. k (fst c' @ [take (length s - length (snd c')) s], snd c')) = Some res" by simp
  from Group.IH [OF this] show ?case
    by (rule goes_on_mono) (auto intro: rx_match.Group)
qed (blast intro: bt_sound_Lit bt_sound_Many bt_sound_Few bt_sound_Eos bt_sound_Cat
    bt_sound_Ahead)+

text \<open>A match of \<open>re.match\<close> is a text of the pattern at the start of the input.\<close>

lemma re_match_sound:
  assumes "re_match r s = Some (gs, rest)"
  shows "\<exists>u. s = u @ rest \<and> rx_match r u rest"
proof -
  from assms have "bt r ([], s) Some = Some (gs, rest)" by (simp add: re_match_def)
  from bt_sound [OF this] obtain u where "s = u @ rest" "rx_match r u rest"
    by (auto elim!: goes_onE)
  then show ?thesis by (intro exI [of _ u]) simp
qed

text \<open>
  The matcher tries every text of the pattern: where one of them can be followed by
  something the continuation accepts, the matcher does not fail.
\<close>

lemma greedy_here: "k (gs, s) \<noteq> None \<Longrightarrow> greedy P gs s k \<noteq> None"
  by (cases s) (auto split: option.splits)

lemma lazy_here: "k (gs, s) \<noteq> None \<Longrightarrow> lazy P gs s k \<noteq> None"
  by (cases s) (auto split: option.splits)

lemma greedy_complete:
  "list_all P u \<Longrightarrow> k (gs, t) \<noteq> None \<Longrightarrow> greedy P gs (u @ t) k \<noteq> None"
  by (induction u) (auto simp: greedy_here split: option.splits)

lemma lazy_complete:
  "list_all P u \<Longrightarrow> k (gs, t) \<noteq> None \<Longrightarrow> lazy P gs (u @ t) k \<noteq> None"
  by (induction u) (auto simp: lazy_here split: option.splits)

lemma bt_complete:
  "rx_match r u t \<Longrightarrow> (\<And>gs'. k (gs', t) \<noteq> None) \<Longrightarrow> bt r (gs, u @ t) k \<noteq> None"
proof (induction r u t arbitrary: gs k rule: rx_match.induct)
  case (Many u P t)
  then obtain c cs where "u = c # cs" "P c" "list_all P cs" by (cases u) auto
  with Many(3) [of gs] show ?case by (simp add: bt_Many greedy_complete)
next
  case (Few P u t)
  then show ?case by (simp add: lazy_complete)
next
  case (Cat a u v t b)
  then show ?case by simp
next
  case (Ahead a u v)
  from Ahead.IH [of Some gs] obtain c' where "bt a (gs, u @ v) Some = Some c'" by auto
  with Ahead.prems [of "fst c'"] show ?case by (simp add: bt_Ahead)
next
  case (Alt1 a u t b)
  from Alt1.IH [of k gs] Alt1.prems show ?case by (auto simp: bt_Alt split: option.splits)
next
  case (Alt2 b u t a)
  from Alt2.IH [of k gs] Alt2.prems show ?case by (auto simp: bt_Alt split: option.splits)
next
  case (Group a u t)
  from Group.IH [of _ gs] Group.prems show ?case by simp
next
  case (Lit cs t)
  then show ?case by simp
next
  case (Eos t)
  then show ?case by simp
qed

lemma re_match_complete: "rx_match r u t \<Longrightarrow> re_match r (u @ t) \<noteq> None"
  by (simp add: re_match_def bt_complete)


section \<open>The functions of the script under the matcher\<close>

text \<open>
  C12. \<open>split_into_slides\<close> with \<open>findall\<close> computed by the backtracking matcher on
  \<open>(Slide \d+:.*?)(?=Slide \d+:|$)\<close>: the matcher never finds an empty match on
  this pattern, so \<open>findall\<close> has a result for every text, and cutting two characters
  off each match and putting two asterisks in front gives the list that
  \<open>split_into_slides\<close> returns. The function \<open>findall_slides\<close>, which scans for the
  marker directly, is therefore what \<open>findall\<close> does with this pattern.
\<close>

theorem split_into_slides_regex:
  "map_option (map (\<lambda>m. ''**'' @ py_take (- 2) m)) (re_findall slide_pattern content) =
     Some (split_into_slides content)"
  by (simp add: re_findall_slide_pattern split_into_slides_def)

theorem split_into_slides_regex_witness:
  "map_option (map (\<lambda>m. ''**'' @ py_take (- 2) m))
     (re_findall slide_pattern ''Slide 1: a\<newline>Slide 2: b'') =
   Some [''**Slide 1: '', ''**Slide 2:'']"
  using split_into_slides_regex [of "''Slide 1: a\<newline>Slide 2: b''"]
  by (simp add: slides_eval)

text \<open>
  C13. \<open>re.match\<close> with \<open>Slide (\d+): (.+)\<close> under the backtracking matcher: it fails
  exactly when \<open>match_header\<close> gives \<open>None\<close>, and its two groups are the digits and
  the title that \<open>match_header\<close> gives. The greedy \<open>\d+\<close> never has to give a digit
  back, since a colon must follow, and \<open>.+\<close> is last in the pattern, so its longest
  run is the match.
\<close>

theorem match_header_regex:
  "map_option fst (re_match header_pattern h) = map_option (\<lambda>(n, g). [n, g]) (match_header h)"
  by (simp add: re_match_header_pattern split: option.splits)

theorem match_header_regex_witness:
  "map_option fst (re_match header_pattern ''Slide 12: Use cases'') = Some [''12'', ''Use cases'']"
  using match_header_regex [of "''Slide 12: Use cases''"]
  by (simp add: parser_eval)

end
