(* ===== verification/Save_Errors.thy ===== *)
theory Save_Errors
  imports App_Flow
begin

text \<open>
  \<open>prs.save(file_name)\<close> of \<open>App.py\<close> when the file cannot be created. The other
  theories take the save to succeed; here it opens the file for writing, which raises
  \<open>FileNotFoundError\<close> when the directory of the path does not exist. The title of the
  form goes into the file name with its spaces replaced and nothing else, so a title
  with a slash names a directory. \<open>create_presentation_fs\<close> and \<open>app_fs\<close> are
  \<open>create_presentation\<close> and the page of \<open>App.py\<close> over a file system with
  directories; the exception is not caught anywhere, so it ends the run. The lemmas
  show when the run raises, what has happened by then, and that it is the run of
  \<open>app\<close> whenever the file can be created.
\<close>

section \<open>Directories\<close>

text \<open>
  The directories that exist, as a predicate on their paths. The directory of a path
  is what stands before its last slash: none for a name in the working directory,
  the empty path for a name in the root directory.
\<close>

type_synonym disk = "pystr \<Rightarrow> bool"

definition parent_dir :: "pystr \<Rightarrow> pystr option" where
  "parent_dir path =
     (case find_last (CHR ''/'') path of None \<Rightarrow> None | Some i \<Rightarrow> Some (take i path))"

definition can_save :: "disk \<Rightarrow> pystr \<Rightarrow> bool" where
  "can_save dirs file_name =
     (case parent_dir file_name of None \<Rightarrow> True | Some d \<Rightarrow> d = [] \<or> dirs d)"

definition prs_save :: "disk \<Rightarrow> pystr \<Rightarrow> 'd \<Rightarrow> 'd world \<Rightarrow> 'd world result" where
  "prs_save dirs file_name prs w =
     (if can_save dirs file_name then Inr (save file_name prs w) else Inl FileNotFoundError)"

section \<open>The functions of the source\<close>

text \<open>An exception comes with the world in which it was raised.\<close>

definition create_presentation_fs :: "disk \<Rightarrow> env \<Rightarrow> pystr \<Rightarrow> pystr list \<Rightarrow>
    presentation world \<Rightarrow> (py_error \<times> presentation world + pystr \<times> presentation world) option" where
  "create_presentation_fs dirs e title topics w =
     (let prs = add_slide (title_slide title) Presentation;
          (content, w) = generate_content e (prompt_A title topics) w
      in case topic_loop content topics (prs, w) of
           None \<Rightarrow> None
         | Some (Inl err) \<Rightarrow> Some (Inl (err, w))
         | Some (Inr (prs, w)) \<Rightarrow>
             (let file_name = replace title '' '' ''_'' @ ''.pptx''
              in case prs_save dirs file_name prs w of
                   Inl err \<Rightarrow> Some (Inl (err, w))
                 | Inr w \<Rightarrow> Some (Inr (file_name, w))))"

definition app_fs :: "disk \<Rightarrow> env \<Rightarrow> form \<Rightarrow> presentation world \<Rightarrow>
    (py_error option \<times> presentation world) option" where
  "app_fs dirs e f w =
     (let w = emit (St_title ''AI-Powered Presentation Creator'') w;
          title = form_title f; topics_input = form_topics f
      in if form_submit f then
           (let topics = parse_topics topics_input in
            if topics = [] then
              Some (None, emit (St_error ''Please enter at least one topic.'') w)
            else
              (let w = emit (St_info ''Generating your presentation. Please wait...'') w in
               case create_presentation_fs dirs e title topics w of
                 None \<Rightarrow> None
               | Some (Inl (err, w)) \<Rightarrow> Some (Some err, w)
               | Some (Inr (file_name, w)) \<Rightarrow>
                   (let w = emit (St_success (''Presentation '' @ [single_quote] @ file_name @
                              [single_quote] @ '' created successfully!'')) w
                    in case files w file_name of
                         None \<Rightarrow> Some (Some FileNotFoundError, w)
                       | Some file \<Rightarrow>
                           Some (None, emit (St_download_button ''Download Presentation''
                             file file_name mime_pptx) w))))
         else Some (None, w))"

section \<open>The directory of the file name\<close>

lemma parent_dir_None_iff: "parent_dir path = None \<longleftrightarrow> CHR ''/'' \<notin> set path"
  using find_last_None_iff [of "CHR ''/''" path]
  by (auto simp: parent_dir_def split: option.splits)

lemma can_save_plain: "CHR ''/'' \<notin> set file_name \<Longrightarrow> can_save dirs file_name"
  by (simp add: can_save_def parent_dir_def find_last_absent)

lemma slash_file_name_A: "CHR ''/'' \<in> set (file_name_A title) \<longleftrightarrow> CHR ''/'' \<in> set title"
  by (auto simp: file_name_A_def)

text \<open>
  The directory of the file name is the directory of the title with its spaces
  replaced: the title \<open>my docs/plan\<close> is saved into the directory \<open>my_docs\<close>.
\<close>

lemma find_last_map:
  assumes "\<And>x. f x = c \<longleftrightarrow> x = c"
  shows "find_last c (map f xs) = find_last c xs"
  by (induction xs) (simp_all add: assms split: option.splits)

lemma find_last_append_absent:
  "c \<notin> set ys \<Longrightarrow> find_last c (xs @ ys) = find_last c xs"
  by (induction xs) (simp_all add: find_last_absent split: option.splits)

lemma parent_dir_file_name_A:
  "parent_dir (file_name_A title) =
     map_option (map (\<lambda>c. if c = space then CHR ''_'' else c)) (parent_dir title)"
proof -
  let ?f = "\<lambda>c. if c = space then CHR ''_'' else c"
  have "find_last (CHR ''/'') (map ?f title @ ''.pptx'') = find_last (CHR ''/'') title"
    by (simp add: find_last_append_absent find_last_map)
  moreover have "take i (map ?f title @ ''.pptx'') = map ?f (take i title)"
    if "find_last (CHR ''/'') title = Some i" for i
    using find_last_less [OF that] by (simp add: take_map)
  ultimately show ?thesis
    by (simp add: parent_dir_def file_name_A_def split: option.splits)
qed

section \<open>The assembler and the page over directories\<close>

lemma create_presentation_fs_run:
  assumes "generate_content e (prompt_A title topics) w = (content, w1)"
  shows "create_presentation_fs dirs e title topics w =
    (if can_save dirs (file_name_A title)
     then Some (Inr (file_name_A title,
       save (file_name_A title) (deck_A title topics content) (emits (topic_events content topics) w1)))
     else Some (Inl (FileNotFoundError, emits (topic_events content topics) w1)))"
  using assms
  by (simp add: create_presentation_fs_def prs_save_def topic_loop_deck file_name_A_replace
      deck_A_def add_slide_def Presentation_def Let_def)

lemma create_presentation_fs_saved:
  "can_save dirs (file_name_A title) \<Longrightarrow>
     create_presentation_fs dirs e title topics w =
     map_option (map_sum (\<lambda>err. (err, w)) id) (create_presentation e title topics w)"
  by (cases "generate_content e (prompt_A title topics) w")
    (simp add: create_presentation_fs_run create_presentation_deck)

lemma app_fs_saved:
  "can_save dirs (file_name_A (form_title f)) \<Longrightarrow> app_fs dirs e f w = app e f w"
  by (cases "generate_content e (prompt_A (form_title f) (parse_topics (form_topics f))) (started w)")
    (simp add: app_fs_def app_def create_presentation_fs_run create_presentation_deck started_def
      Let_def del: append.simps)

lemma app_fs_idle:
  "\<not> form_submit f \<or> parse_topics (form_topics f) = [] \<Longrightarrow> app_fs dirs e f w = app e f w"
  by (auto simp: app_fs_def app_def Let_def)

lemma app_fs_run:
  assumes "form_submit f" "parse_topics (form_topics f) = topics" "topics \<noteq> []"
    and "generate_content e (prompt_A (form_title f) topics) (started w) = (content, w1)"
    and "\<not> can_save dirs (file_name_A (form_title f))"
  shows "app_fs dirs e f w = Some (Some FileNotFoundError, emits (topic_events content topics) w1)"
  using assms by (simp add: app_fs_def create_presentation_fs_run started_def Let_def)

lemma app_fs_returns:
  assumes "\<not> form_submit f \<or> parse_topics (form_topics f) = [] \<or>
    can_save dirs (file_name_A (form_title f))"
  shows "\<exists>w'. app_fs dirs e f w = Some (None, w')"
proof (cases "form_submit f \<and> parse_topics (form_topics f) \<noteq> []")
  case True
  obtain content w1 where "generate_content e
      (prompt_A (form_title f) (parse_topics (form_topics f))) (started w) = (content, w1)"
    by (cases "generate_content e (prompt_A (form_title f) (parse_topics (form_topics f))) (started w)")
  with True assms show ?thesis by (simp add: app_fs_saved app_run)
next
  case False
  then show ?thesis by (auto simp: app_fs_def Let_def)
qed

text \<open>What has happened when the save fails: nothing is written, and no download is offered.\<close>

lemma failed_world:
  assumes "generate_content e prompt (started w) = (content, w1)"
  shows "files (emits (topic_events content topics) w1) = files w"
    and "ui (emits (topic_events content topics) w1) = ui w1 @ topic_events content topics"
    and "requests (emits (topic_events content topics) w1) = requests w1"
  using generate_content_files [of e prompt "started w"] assms by (simp_all add: emits_def)

section \<open>Properties of the save\<close>

text \<open>
  C14. When \<open>App.py\<close> raises. A run ends with an exception exactly when the form was
  submitted with a topic and the directory of the file name does not exist. The
  exception is \<open>FileNotFoundError\<close>, raised by \<open>prs.save\<close> and caught nowhere; by then
  the request has been made and the text has been shown under every topic, and the
  run ends there: no success message, no download, no file.
\<close>

theorem app_fs_raises:
  assumes "generate_content e (prompt_A (form_title f) (parse_topics (form_topics f))) (started w) =
    (content, w1)"
  shows "app_fs dirs e f w = Some (Some err, w') \<longleftrightarrow>
    form_submit f \<and> parse_topics (form_topics f) \<noteq> [] \<and>
    \<not> can_save dirs (file_name_A (form_title f)) \<and>
    err = FileNotFoundError \<and> w' = emits (topic_events content (parse_topics (form_topics f))) w1"
proof (cases "form_submit f \<and> parse_topics (form_topics f) \<noteq> [] \<and>
    \<not> can_save dirs (file_name_A (form_title f))")
  case True
  with app_fs_run [OF _ refl _ assms, of dirs] show ?thesis by auto
next
  case False
  with app_fs_returns [of f dirs e w] show ?thesis by auto
qed

theorem app_fs_raises_witness:
  "app_fs (\<lambda>d. False) \<lparr>api_key = Some ''k'', service = (\<lambda>p. Inr ''text'')\<rparr>
     \<lparr>form_title = ''plans/Q3'', form_topics = ''A'', form_submit = True\<rparr> empty_world =
   Some (Some FileNotFoundError,
     \<lparr>ui = [St_title ''AI-Powered Presentation Creator'',
             St_info ''Generating your presentation. Please wait...'',
             St_write ''### A'', St_write ''text''],
      requests = [prompt_A ''plans/Q3'' [''A'']], files = Map.empty\<rparr>)"
  using app_fs_raises [of "\<lparr>api_key = Some ''k'', service = (\<lambda>p. Inr ''text'')\<rparr>"
      "\<lparr>form_title = ''plans/Q3'', form_topics = ''A'', form_submit = True\<rparr>" empty_world
      "''text''" "send (prompt_A ''plans/Q3'' [''A'']) (started empty_world)" "\<lambda>d. False"
      FileNotFoundError
      "emits (topic_events ''text'' [''A''])
         (send (prompt_A ''plans/Q3'' [''A'']) (started empty_world))"]
  by (simp add: generate_content_def call_service_def key_missing_def parse_topics_def
      py_isspace_def strip_def lstrip_def rstrip_def rdropWhile_def can_save_def parent_dir_def
      file_name_A_def emits_def send_def started_def emit_def empty_world_def topic_events_def)



text \<open>
  A title can name a directory above the working directory: the deck is then written
  there, and the run goes on as if nothing had happened.
\<close>

lemma app_fs_outside:
  "dirs ''..'' \<Longrightarrow> can_save dirs (file_name_A ''../notes'')"
  by (simp add: can_save_def parent_dir_def file_name_A_def)

end
