(* ===== verification/Browser.thy ===== *)
theory Browser
  imports Sessions Save_Errors
begin

text \<open>
  The user at the page. Streamlit runs the script again whenever a widget outside a
  form is used, and when the button of a form is pressed; what is typed into the
  fields of a form is kept in the browser until the form is submitted. The scripts
  draw their results only in the run in which the form was submitted, so every other
  run draws the title and the form alone. \<open>action\<close> is what the user can do,
  \<open>browser\<close> what the browser holds (the fields, the page with the world behind it,
  and the files the user received), and \<open>browser_step\<close> one action, over any page
  that runs a script on the values of the form. The lemmas about the step are stated
  for a page of which only \<open>idle_page\<close> is known, and hold of \<open>App.py\<close>, of \<open>App.py\<close>
  with a save that can fail, and of \<open>App1.py\<close>, which are shown to be such pages.
\<close>

section \<open>The widgets of a page\<close>

text \<open>
  The download buttons of a page, each with its file name and its data, and the
  labels of the text areas, which the user can type into.
\<close>

fun buttons :: "'d ui_event list \<Rightarrow> (pystr \<times> 'd) list" where
  "buttons [] = []"
| "buttons (St_download_button label d file_name mime # evs) = (file_name, d) # buttons evs"
| "buttons (ev # evs) = buttons evs"

fun areas :: "'d ui_event list \<Rightarrow> pystr list" where
  "areas [] = []"
| "areas (St_text_area label tx height # evs) = label # areas evs"
| "areas (ev # evs) = areas evs"

section \<open>Actions and the step of the browser\<close>

datatype action =
    Type_title pystr
  | Type_topics pystr
  | Submit
  | Download
  | Edit_area pystr pystr

record 'd browser =
  title_field :: pystr
  topics_field :: pystr
  shown :: "'d world"
  received :: "(pystr \<times> 'd) list"

type_synonym 'd page = "'d world \<Rightarrow> form \<Rightarrow> 'd world option"

text \<open>The values the script gets in a run, with the button of the form pressed or not.\<close>

definition filled :: "'d browser \<Rightarrow> bool \<Rightarrow> form" where
  "filled b pressed =
     \<lparr>form_title = title_field b, form_topics = topics_field b, form_submit = pressed\<rparr>"

text \<open>
  Typing into the form changes a field and runs nothing. Pressing the button of the
  form runs the script with the fields. A download button hands its data to the user
  and runs the script; typing into a text area of the page runs the script, which
  does not read what was typed. The last two are possible when the page has the
  widget; \<open>None\<close> is an action that is not possible, or a run that does not return.
\<close>

fun browser_step :: "'d page \<Rightarrow> 'd browser \<Rightarrow> action \<Rightarrow> 'd browser option" where
  "browser_step page b (Type_title t) = Some (b\<lparr>title_field := t\<rparr>)"
| "browser_step page b (Type_topics s) = Some (b\<lparr>topics_field := s\<rparr>)"
| "browser_step page b Submit =
     map_option (\<lambda>w. b\<lparr>shown := w\<rparr>) (page (shown b) (filled b True))"
| "browser_step page b Download =
     (case buttons (ui (shown b)) of
        [] \<Rightarrow> None
      | file # others \<Rightarrow>
          map_option (\<lambda>w. b\<lparr>shown := w, received := received b @ [file]\<rparr>)
            (page (shown b) (filled b False)))"
| "browser_step page b (Edit_area label tx) =
     (if label \<in> set (areas (ui (shown b)))
      then map_option (\<lambda>w. b\<lparr>shown := w\<rparr>) (page (shown b) (filled b False))
      else None)"

fun browser_run :: "'d page \<Rightarrow> 'd browser \<Rightarrow> action list \<Rightarrow> 'd browser option" where
  "browser_run page b [] = Some b"
| "browser_run page b (a # as) =
     (case browser_step page b a of None \<Rightarrow> None | Some b' \<Rightarrow> browser_run page b' as)"

text \<open>The page is opened: the script runs once, on the values the form starts with.\<close>

definition open_page :: "'d page \<Rightarrow> 'd world \<Rightarrow> 'd browser option" where
  "open_page page w =
     map_option (\<lambda>w'. \<lparr>title_field = form_title default_form,
         topics_field = form_topics default_form, shown = w', received = []\<rparr>)
       (page w default_form)"

text \<open>The three pages.\<close>

definition page_A_fs :: "disk \<Rightarrow> env \<Rightarrow> presentation page" where
  "page_A_fs dirs e w f = map_option snd (app_fs dirs e f (rerun w))"

definition page_B_opt :: "env \<Rightarrow> presentation page" where
  "page_B_opt e w f = Some (page_B e w f)"

text \<open>What a step can have been, by its action.\<close>

fun_cases browser_stepE: "browser_step page b a = Some b'"

section \<open>Widgets under the list operations\<close>

lemma buttons_append [simp]: "buttons (xs @ ys) = buttons xs @ buttons ys"
  by (induction xs rule: buttons.induct) simp_all

lemma areas_append [simp]: "areas (xs @ ys) = areas xs @ areas ys"
  by (induction xs rule: areas.induct) simp_all

lemma buttons_quiet: "\<not> list_ex is_download evs \<Longrightarrow> buttons evs = []"
  by (induction evs rule: buttons.induct) simp_all

lemma buttons_errors: "list_all is_error evs \<Longrightarrow> buttons evs = []"
  by (induction evs rule: buttons.induct) simp_all

lemma areas_errors: "list_all is_error evs \<Longrightarrow> areas evs = []"
  by (induction evs rule: areas.induct) simp_all

text \<open>Whatever the page does, an action takes nothing back from the user.\<close>

lemma received_grows: "browser_step page b a = Some b' \<Longrightarrow> prefix (received b) (received b')"
  by (erule browser_stepE) (auto simp: eq_commute [of "Some b'"] split: list.splits if_splits)

lemma received_grows_run:
  "browser_run page b as = Some b' \<Longrightarrow> prefix (received b) (received b')"
proof (induction as arbitrary: b)
  case Nil
  then show ?case by simp
next
  case (Cons a as)
  then obtain b1 where "browser_step page b a = Some b1" "browser_run page b1 as = Some b'"
    by (auto split: option.splits)
  with Cons.IH [of b1] received_grows [of page b a b1] show ?case
    by (auto intro: prefix_order.order_trans)
qed

section \<open>Pages that draw their results in the run of the submission only\<close>

text \<open>What both scripts draw in a run in which the button of the form was not pressed.\<close>

definition title_only :: "'d world \<Rightarrow> 'd world" where
  "title_only w = emit (St_title ''AI-Powered Presentation Creator'') (rerun w)"

definition idle_page :: "'d page \<Rightarrow> bool" where
  "idle_page page \<longleftrightarrow> (\<forall>w f. \<not> form_submit f \<longrightarrow> page w f = Some (title_only w))"

lemma title_only_simps [simp]:
  "ui (title_only w) = [St_title ''AI-Powered Presentation Creator'']"
  "requests (title_only w) = requests w" "files (title_only w) = files w"
  by (simp_all add: title_only_def)

lemma idle_page_A: "idle_page (page_A e)"
  by (simp add: idle_page_def page_A_def app_not_submitted title_only_def)

lemma idle_page_B: "idle_page (page_B_opt e)"
  by (simp add: idle_page_def page_B_opt_def page_B_def app1_not_submitted title_only_def)

lemma idle_page_A_fs: "idle_page (page_A_fs dirs e)"
  by (simp add: idle_page_def page_A_fs_def app_fs_idle app_not_submitted title_only_def)

lemmas idle_pages = idle_page_A idle_page_B idle_page_A_fs

lemma idle_pageD: "idle_page page \<Longrightarrow> \<not> form_submit f \<Longrightarrow> page w f = Some (title_only w)"
  by (simp add: idle_page_def)

lemma idle_run: "idle_page page \<Longrightarrow> page w (filled b False) = Some (title_only w)"
  by (simp add: idle_pageD filled_def)

text \<open>The steps of a download and of an edit on such a page, in one equation each.\<close>

lemma browser_step_Download:
  "idle_page page \<Longrightarrow> browser_step page b Download =
     (case buttons (ui (shown b)) of
        [] \<Rightarrow> None
      | file # others \<Rightarrow>
          Some (b\<lparr>shown := title_only (shown b), received := received b @ [file]\<rparr>))"
  by (simp add: idle_run split: list.splits)

lemma browser_step_Edit:
  "idle_page page \<Longrightarrow> browser_step page b (Edit_area label tx) =
     (if label \<in> set (areas (ui (shown b)))
      then Some (b\<lparr>shown := title_only (shown b)\<rparr>) else None)"
  by (simp add: idle_run)

text \<open>An action that runs the script without the button of the form.\<close>

fun reruns :: "action \<Rightarrow> bool" where
  "reruns Download = True"
| "reruns (Edit_area label tx) = True"
| "reruns a = False"

lemma rerun_clears:
  assumes "idle_page page" "reruns a" "browser_step page b a = Some b'"
  shows "shown b' = title_only (shown b)"
    and "title_field b' = title_field b" "topics_field b' = topics_field b"
proof -
  from assms have "shown b' = title_only (shown b) \<and> title_field b' = title_field b \<and>
      topics_field b' = topics_field b"
    by (cases a)
      (auto simp: idle_run split: list.splits if_splits)
  then show "shown b' = title_only (shown b)" "title_field b' = title_field b"
    "topics_field b' = topics_field b" by simp_all
qed

lemma rerun_disables:
  assumes "idle_page page" "reruns a" "browser_step page b a = Some b'" "reruns a'"
  shows "browser_step page b' a' = None"
  using assms(4) rerun_clears(1) [OF assms(1-3)]
  by (cases a') (simp_all add: browser_step_Download [OF assms(1)] browser_step_Edit [OF assms(1)])

section \<open>What a page promises\<close>

text \<open>
  Two more properties of a page, which the lemmas about runs of actions are stated
  with: a run of the script draws at most one download button, and it sends the
  requests \<open>ask f\<close> for the values \<open>f\<close> of the form.
\<close>

definition one_button :: "'d page \<Rightarrow> bool" where
  "one_button page \<longleftrightarrow> (\<forall>w f w'. page w f = Some w' \<longrightarrow> length (buttons (ui w')) \<le> 1)"

definition asks :: "'d page \<Rightarrow> (form \<Rightarrow> pystr list) \<Rightarrow> bool" where
  "asks page ask \<longleftrightarrow> (\<forall>w f w'. page w f = Some w' \<longrightarrow> requests w' = requests w @ ask f)"

text \<open>Every button that the page draws offers a file with the property \<open>Q\<close>.\<close>

definition draws :: "'d page \<Rightarrow> (pystr \<times> 'd \<Rightarrow> bool) \<Rightarrow> bool" where
  "draws page Q \<longleftrightarrow> (\<forall>w f w'. page w f = Some w' \<longrightarrow> list_all Q (buttons (ui w')))"

lemma drawsD: "draws page Q \<Longrightarrow> page w f = Some w' \<Longrightarrow> list_all Q (buttons (ui w'))"
  by (simp add: draws_def)

lemma one_buttonD: "one_button page \<Longrightarrow> page w f = Some w' \<Longrightarrow> length (buttons (ui w')) \<le> 1"
  by (simp add: one_button_def)

lemma asksD: "asks page ask \<Longrightarrow> page w f = Some w' \<Longrightarrow> requests w' = requests w @ ask f"
  by (simp add: asks_def)

section \<open>Runs of actions\<close>

lemma browser_run_append:
  "browser_run page b (as @ bs) =
     (case browser_run page b as of None \<Rightarrow> None | Some b' \<Rightarrow> browser_run page b' bs)"
  by (induction as arbitrary: b) (simp_all split: option.splits)

text \<open>The forms that a run of actions submits, from what is in the fields at the start.\<close>

fun submitted :: "pystr \<Rightarrow> pystr \<Rightarrow> action list \<Rightarrow> form list" where
  "submitted t s [] = []"
| "submitted t s (Type_title t' # as) = submitted t' s as"
| "submitted t s (Type_topics s' # as) = submitted t s' as"
| "submitted t s (Submit # as) =
     \<lparr>form_title = t, form_topics = s, form_submit = True\<rparr> # submitted t s as"
| "submitted t s (a # as) = submitted t s as"

text \<open>One step: the fields, the requests, and the downloads that are left.\<close>

lemma browser_step_fields:
  assumes "idle_page page" "browser_step page b a = Some b'"
  shows "submitted (title_field b) (topics_field b) (a # as) =
    (if a = Submit then [filled b True] else []) @
    submitted (title_field b') (topics_field b') as"
  using assms
  by (cases a) (auto simp: filled_def idle_run split: list.splits if_splits)

lemma browser_step_requests:
  assumes "idle_page page" "asks page ask" "browser_step page b a = Some b'"
  shows "requests (shown b') =
    requests (shown b) @ (if a = Submit then ask (filled b True) else [])"
  using assms(3)
  by (cases a) (auto simp: idle_run [OF assms(1)] dest: asksD [OF assms(2)]
      split: list.splits if_splits)

lemma browser_step_budget:
  assumes "idle_page page" "one_button page" "browser_step page b a = Some b'"
  shows "length (received b') + length (buttons (ui (shown b'))) \<le>
    length (received b) + length (buttons (ui (shown b))) + (if a = Submit then 1 else 0)"
  using assms(3)
  by (cases a) (auto simp: idle_run [OF assms(1)] dest: one_buttonD [OF assms(2)]
      split: list.splits if_splits)

lemma browser_run_requests:
  assumes "idle_page page" "asks page ask"
  shows "browser_run page b as = Some b' \<Longrightarrow>
    requests (shown b') =
    requests (shown b) @ concat (map ask (submitted (title_field b) (topics_field b) as))"
proof (induction as arbitrary: b)
  case Nil
  then show ?case by simp
next
  case (Cons a as)
  then obtain b1 where s: "browser_step page b a = Some b1" and r: "browser_run page b1 as = Some b'"
    by (auto split: option.splits)
  from Cons.IH [OF r] browser_step_requests [OF assms s] browser_step_fields [OF assms(1) s, of as]
  show ?case by (simp add: filled_def)
qed

lemma browser_run_budget:
  assumes "idle_page page" "one_button page"
  shows "browser_run page b as = Some b' \<Longrightarrow>
    length (received b') + length (buttons (ui (shown b'))) \<le>
    length (received b) + length (buttons (ui (shown b))) + length (filter (\<lambda>a. a = Submit) as)"
proof (induction as arbitrary: b)
  case Nil
  then show ?case by simp
next
  case (Cons a as)
  then obtain b1 where s: "browser_step page b a = Some b1" and r: "browser_run page b1 as = Some b'"
    by (auto split: option.splits)
  from Cons.IH [OF r] browser_step_budget [OF assms s] show ?case by (simp split: if_splits)
qed

lemma browser_step_draws:
  assumes "idle_page page" "draws page Q" "browser_step page b a = Some b'"
    and "list_all Q (buttons (ui (shown b)))" "list_all Q (received b)"
  shows "list_all Q (buttons (ui (shown b'))) \<and> list_all Q (received b')"
  using assms(3-5)
  by (cases a) (auto simp: idle_run [OF assms(1)] dest: drawsD [OF assms(2)]
      split: list.splits if_splits)

lemma browser_run_draws:
  assumes "idle_page page" "draws page Q"
  shows "browser_run page b as = Some b' \<Longrightarrow>
    list_all Q (buttons (ui (shown b))) \<Longrightarrow> list_all Q (received b) \<Longrightarrow>
    list_all Q (received b')"
proof (induction as arbitrary: b)
  case Nil
  then show ?case by simp
next
  case (Cons a as)
  then obtain b1 where s: "browser_step page b a = Some b1" and r: "browser_run page b1 as = Some b'"
    by (auto split: option.splits)
  from browser_step_draws [OF assms s Cons.prems(2,3)] Cons.IH [OF r] show ?case by simp
qed

lemma open_page_idle:
  assumes "idle_page page"
  shows "open_page page w = Some \<lparr>title_field = form_title default_form,
    topics_field = form_topics default_form, shown = title_only w, received = []\<rparr>"
  using assms by (simp add: open_page_def idle_page_def default_form_def)

section \<open>The pages of the scripts\<close>

text \<open>The requester draws errors only.\<close>

lemma requester_widgets [simp]:
  "buttons (ui (snd (generate_content e prompt w))) = buttons (ui w)"
  "areas (ui (snd (generate_content e prompt w))) = areas (ui w)"
  using generate_content_ui [of e prompt w] by (auto simp: buttons_errors areas_errors)

lemma requester_world:
  assumes "generate_content e prompt w = (content, w1)"
  shows "buttons (ui w1) = buttons (ui w)" "areas (ui w1) = areas (ui w)"
    and "requests w1 = (if key_missing e then requests w else requests w @ [prompt])"
    and "files w1 = files w"
  using requester_widgets [of e prompt w] generate_content_requests [of e prompt w]
    generate_content_files [of e prompt w] assms by simp_all

lemma topic_events_widgets [simp]:
  "buttons (topic_events content topics) = []" "areas (topic_events content topics) = []"
  by (induction topics) (simp_all add: topic_events_def)

text \<open>
  The page of \<open>App.py\<close> has no text area, and a download button only after a run that
  made a deck: one button, with the file name of the title and the deck that is
  stored under that name.
\<close>

lemma page_A_widgets:
  assumes "page_A e w f = Some w'"
  shows "areas (ui w') = []"
    and "buttons (ui w') = [] \<or>
      (\<exists>content. buttons (ui w') = [(file_name_A (form_title f),
           deck_A (form_title f) (parse_topics (form_topics f)) content)] \<and>
         parse_topics (form_topics f) \<noteq> [] \<and>
         files w' (file_name_A (form_title f)) =
           Some (deck_A (form_title f) (parse_topics (form_topics f)) content))"
proof -
  have w1: "buttons (ui w1) = [] \<and> areas (ui w1) = []"
    if "generate_content e prompt (started (rerun w)) = (content, w1)" for prompt content w1
    using requester_widgets [of e prompt "started (rerun w)"] that by simp
  show "areas (ui w') = []"
    by (rule page_A_cases [of f e w]) (use assms w1 in auto)
  show "buttons (ui w') = [] \<or>
      (\<exists>content. buttons (ui w') = [(file_name_A (form_title f),
           deck_A (form_title f) (parse_topics (form_topics f)) content)] \<and>
         parse_topics (form_topics f) \<noteq> [] \<and>
         files w' (file_name_A (form_title f)) =
           Some (deck_A (form_title f) (parse_topics (form_topics f)) content))"
    by (rule page_A_cases [of f e w]) (use assms w1 in auto)
qed

lemma one_button_A: "one_button (page_A e)"
  unfolding one_button_def using page_A_widgets(2) by fastforce

lemma asks_A: "asks (page_A e) (\<lambda>f. prompts_A e [f])"
  by (simp add: asks_def page_A_requests)

text \<open>
  With a save that can fail the page is the page of \<open>App.py\<close>, or the page of a run that
  raised: the text under every topic, and no button.
\<close>

lemma page_A_fs_cases:
  obtains (saved) "page_A_fs dirs e w f = page_A e w f"
  | (raised) content w1 where "form_submit f" "parse_topics (form_topics f) \<noteq> []"
      "\<not> can_save dirs (file_name_A (form_title f))"
      "generate_content e (prompt_A (form_title f) (parse_topics (form_topics f)))
         (started (rerun w)) = (content, w1)"
      "page_A_fs dirs e w f = Some (emits (topic_events content (parse_topics (form_topics f))) w1)"
proof (cases "form_submit f \<and> parse_topics (form_topics f) \<noteq> [] \<and>
    \<not> can_save dirs (file_name_A (form_title f))")
  case True
  obtain content w1 where g: "generate_content e
      (prompt_A (form_title f) (parse_topics (form_topics f))) (started (rerun w)) = (content, w1)"
    by (cases "generate_content e (prompt_A (form_title f) (parse_topics (form_topics f)))
        (started (rerun w))")
  with True app_fs_run [OF _ refl _ g, of dirs] show ?thesis
    by (intro raised [of content w1]) (simp_all add: page_A_fs_def)
next
  case False
  then have "app_fs dirs e f (rerun w) = app e f (rerun w)"
    by (auto simp: app_fs_saved app_fs_idle)
  then show ?thesis by (intro saved) (simp add: page_A_fs_def page_A_def)
qed

lemma one_button_A_fs: "one_button (page_A_fs dirs e)"
  unfolding one_button_def
proof (intro allI impI)
  fix w f w'
  assume p: "page_A_fs dirs e w f = Some w'"
  show "length (buttons (ui w')) \<le> 1"
  proof (cases rule: page_A_fs_cases [of dirs e w f])
    case saved
    with p one_buttonD [OF one_button_A] show ?thesis by simp
  next
    case (raised content w1)
    with p requester_world(1) [OF raised(4)] show ?thesis
      by (auto simp: emits_def)
  qed
qed

lemma asks_A_fs: "asks (page_A_fs dirs e) (\<lambda>f. prompts_A e [f])"
  unfolding asks_def
proof (intro allI impI)
  fix w f w'
  assume p: "page_A_fs dirs e w f = Some w'"
  show "requests w' = requests w @ prompts_A e [f]"
  proof (cases rule: page_A_fs_cases [of dirs e w f])
    case saved
    with p show ?thesis by (simp add: page_A_requests)
  next
    case (raised content w1)
    with p requester_world(3) [OF raised(4)] show ?thesis
      by (auto simp: emits_def prompts_A_def sends_def)
  qed
qed

text \<open>
  The page of \<open>App1.py\<close> has a download button only at the end of a run that made a
  deck.
\<close>

lemma slide_events_buttons [simp]: "buttons (slide_events slides) = []"
  by (rule buttons_quiet) (auto simp: list_ex_iff dest: slide_events_quiet)

lemma deliver_widgets:
  "buttons (ui w) = [] \<Longrightarrow> buttons (ui (snd (deliver title slides w))) =
     (case generate_ppt slides of Inl err \<Rightarrow> [] | Inr prs \<Rightarrow> [(file_name_B title, prs)])"
  by (cases "generate_ppt slides") (simp_all add: deliver_returns deliver_raises ui_show_slides)

lemma page_B_buttons:
  "buttons (ui (page_B e w f)) = [] \<or>
   (\<exists>slides prs. generate_ppt slides = Inr prs \<and>
      buttons (ui (page_B e w f)) = [(file_name_B (form_title f), prs)])"
proof (cases "form_submit f \<and> parse_topics (form_topics f) \<noteq> []")
  case True
  let ?topics = "parse_topics (form_topics f)"
  obtain slides w1 where c: "create_presentation1 e (form_title f) ?topics (started (rerun w)) =
      (slides, w1)"
    by (cases "create_presentation1 e (form_title f) ?topics (started (rerun w))")
  have w1: "buttons (ui w1) = []"
    by (rule create_presentation1_cases [of e "form_title f" ?topics "started (rerun w)"])
      (use c requester_widgets(1) [of e "prompt_B (form_title f) ?topics" "started (rerun w)"]
        in \<open>auto simp: generate_content1_prompt\<close>)
  from True app1_run [OF _ refl _ c] w1 deliver_widgets [OF w1, of "form_title f"]
  show ?thesis
    by (cases slides) (auto simp: page_B_def split: sum.splits)
next
  case False
  then show ?thesis
    by (cases "form_submit f") (auto simp: page_B_def app1_not_submitted app1_empty)
qed

lemma one_button_B: "one_button (page_B_opt e)"
  unfolding one_button_def page_B_opt_def
proof (intro allI impI)
  fix w f w'
  assume "Some (page_B e w f) = Some w'"
  with page_B_buttons [of e w f] show "length (buttons (ui w')) \<le> 1" by auto
qed

text \<open>
  When the service answered with a text that does not start with \<open>Error\<close>, the page
  of \<open>App1.py\<close> has the text area with the answer, also when the run ended with an
  exception: the user can type into it.
\<close>

lemma raw_content_editable:
  assumes "form_submit f" "parse_topics (form_topics f) \<noteq> []"
    and "\<not> startswith (fst (generate_content1 e (form_title f) (parse_topics (form_topics f))
      (started (rerun w)))) ''Error''"
  shows "''raw content'' \<in> set (areas (ui (page_B e w f)))"
proof -
  let ?topics = "parse_topics (form_topics f)"
  obtain slides w1 where c: "create_presentation1 e (form_title f) ?topics (started (rerun w)) =
      (slides, w1)"
    by (cases "create_presentation1 e (form_title f) ?topics (started (rerun w))")
  with assms(3) obtain fragments where "slides = Inr fragments" "''raw content'' \<in> set (areas (ui w1))"
    by (rule_tac create_presentation1_cases [of e "form_title f" ?topics "started (rerun w)"]) auto
  with assms(1,2) app1_run [OF _ refl _ c] show ?thesis
    by (cases "generate_ppt fragments")
      (simp_all add: page_B_def deliver_returns deliver_raises ui_show_slides)
qed

text \<open>
  What the page of \<open>App1.py\<close> offers: a deck that \<open>generate_ppt\<close> returned, under the
  file name of the title that was submitted.
\<close>

definition made_B :: "pystr \<times> presentation \<Rightarrow> bool" where
  "made_B file \<longleftrightarrow>
     (\<exists>title slides. fst file = file_name_B title \<and> generate_ppt slides = Inr (snd file))"

lemma draws_B: "draws (page_B_opt e) made_B"
  unfolding draws_def page_B_opt_def
proof (intro allI impI)
  fix w f w'
  assume "Some (page_B e w f) = Some w'"
  with page_B_buttons [of e w f] show "list_all made_B (buttons (ui w'))"
    by (auto simp: made_B_def)
qed

lemma asks_B: "asks (page_B_opt e) (\<lambda>f. prompts_B e [f])"
  by (auto simp: asks_def page_B_opt_def page_B_requests)

lemmas one_buttons = one_button_A one_button_B one_button_A_fs

lemma concat_prompts:
  "concat (map (\<lambda>f. prompts_A e [f]) fs) = prompts_A e fs"
  "concat (map (\<lambda>f. prompts_B e [f]) fs) = prompts_B e fs"
  by (induction fs) (simp_all add: prompts_A_def prompts_B_def)

section \<open>The decks a user of \<open>App.py\<close> receives\<close>

text \<open>
  Every button of the page offers what is stored under its file name; with
  \<open>files_ok\<close> of theory \<open>Sessions\<close> and the decks received so far this is the
  invariant of the browser at \<open>App.py\<close>.
\<close>

definition offers_stored :: "presentation world \<Rightarrow> bool" where
  "offers_stored w \<longleftrightarrow> list_all (\<lambda>(name, prs). files w name = Some prs) (buttons (ui w))"

definition browser_ok :: "presentation browser \<Rightarrow> bool" where
  "browser_ok b \<longleftrightarrow> files_ok (shown b) \<and> offers_stored (shown b) \<and>
     list_all (\<lambda>(name, prs). stored_ok name prs) (received b)"

definition stores :: "presentation page \<Rightarrow> bool" where
  "stores page \<longleftrightarrow>
     (\<forall>w f w'. page w f = Some w' \<longrightarrow> files_ok w \<longrightarrow> files_ok w' \<and> offers_stored w')"

lemma files_ok_title_only [simp]: "files_ok (title_only w) = files_ok w"
  by (simp add: files_ok_def)

lemma offers_stored_title_only [simp]: "offers_stored (title_only w)"
  by (simp add: offers_stored_def)

lemma stores_A: "stores (page_A e)"
  unfolding stores_def
  using page_A_files_ok page_A_widgets(2) by (fastforce simp: offers_stored_def)

lemma stores_A_fs: "stores (page_A_fs dirs e)"
  unfolding stores_def
proof (intro allI impI)
  fix w f w'
  assume p: "page_A_fs dirs e w f = Some w'" and ok: "files_ok w"
  show "files_ok w' \<and> offers_stored w'"
  proof (cases rule: page_A_fs_cases [of dirs e w f])
    case saved
    with p ok stores_A [of e] show ?thesis by (simp add: stores_def)
  next
    case (raised content w1)
    with p ok requester_world(1,4) [OF raised(4)] show ?thesis
      by (auto simp: emits_def files_ok_def offers_stored_def)
  qed
qed

lemma browser_ok_step:
  assumes "idle_page page" "stores page" "browser_ok b" "browser_step page b a = Some b'"
  shows "browser_ok b'"
proof (cases a)
  case Submit
  with assms show ?thesis by (auto simp: browser_ok_def stores_def)
next
  case Download
  with assms(4) obtain name prs others where
    b: "buttons (ui (shown b)) = (name, prs) # others"
      "b' = b\<lparr>shown := title_only (shown b), received := received b @ [(name, prs)]\<rparr>"
    by (auto simp: idle_run [OF assms(1)] split: list.splits)
  with assms(3) have "stored_ok name prs"
    by (auto simp: browser_ok_def offers_stored_def files_ok_def)
  with assms(3) b(2) show ?thesis by (simp add: browser_ok_def)
qed (use assms in \<open>auto simp: browser_ok_def idle_run split: if_splits\<close>)

lemma browser_ok_run:
  assumes "idle_page page" "stores page"
  shows "browser_ok b \<Longrightarrow> browser_run page b as = Some b' \<Longrightarrow> browser_ok b'"
  by (induction as arbitrary: b) (auto split: option.splits dest: browser_ok_step [OF assms])

lemma browser_ok_open:
  "idle_page page \<Longrightarrow> files_ok w \<Longrightarrow> open_page page w = Some b \<Longrightarrow> browser_ok b"
  by (auto simp: open_page_idle browser_ok_def)

section \<open>The decks a user of \<open>App1.py\<close> receives\<close>

lemma received_decks_B:
  assumes "open_page (page_B_opt e) w = Some b0" "browser_run (page_B_opt e) b0 as = Some b"
  shows "list_all made_B (received b)"
  using browser_run_draws [OF idle_page_B draws_B assms(2)] assms(1)
  by (auto simp: open_page_idle [OF idle_page_B])

section \<open>A visit\<close>

text \<open>
  The user opens the page of \<open>App.py\<close> in an empty directory, types one topic, submits
  the form and downloads the deck.
\<close>

abbreviation (input) visitor_env :: env where
  "visitor_env \<equiv> \<lparr>api_key = Some ''k'', service = (\<lambda>p. Inr ''text'')\<rparr>"

abbreviation (input) opened :: "presentation browser" where
  "opened \<equiv> \<lparr>title_field = ''Gen AI'',
     topics_field = ''Introduction to GenAI\<newline>Applications of GenAI'',
     shown = title_only empty_world, received = []\<rparr>"

abbreviation (input) visit :: "action list" where
  "visit \<equiv> [Type_topics ''A'', Submit, Download]"

lemma visit_A:
  obtains (visited) b where "open_page (page_A visitor_env) empty_world = Some opened"
    "browser_run (page_A visitor_env) opened visit = Some b"
    "received b = [(''Gen_AI.pptx'', deck_A ''Gen AI'' [''A''] ''text'')]"
    "requests (shown b) = [prompt_A ''Gen AI'' [''A'']]"
proof -
  let ?e = "\<lparr>api_key = Some ''k'', service = (\<lambda>p. Inr ''text'')\<rparr>"
  let ?f = "\<lparr>form_title = ''Gen AI'', form_topics = ''A'', form_submit = True\<rparr>"
  let ?w = "rerun (title_only empty_world) :: presentation world"
  have t: "parse_topics (form_topics ?f) = [''A'']"
    by (simp add: parse_topics_def py_isspace_def strip_def lstrip_def rstrip_def rdropWhile_def)
  have g: "generate_content ?e (prompt_A (form_title ?f) [''A'']) (started ?w) =
      (''text'', send (prompt_A ''Gen AI'' [''A'']) (started ?w))"
    by (simp add: generate_content_def call_service_def key_missing_def)
  have "page_A ?e (title_only empty_world) ?f =
      Some (made_page ?f ''text'' (send (prompt_A ''Gen AI'' [''A'']) (started ?w)))"
    unfolding page_A_def made_page_def using app_run [OF _ t _ g]
    by (simp add: t [simplified] del: append.simps)
  then have "\<exists>b. open_page (page_A ?e) empty_world = Some opened \<and>
      browser_run (page_A ?e) opened visit = Some b \<and>
      received b = [(''Gen_AI.pptx'', deck_A ''Gen AI'' [''A''] ''text'')] \<and>
      requests (shown b) = [prompt_A ''Gen AI'' [''A'']]"
    by (simp add: open_page_idle [OF idle_page_A] idle_pageD [OF idle_page_A] filled_def
        t [simplified] file_name_A_def default_form_def)
  then show ?thesis using that by blast
qed

section \<open>Properties of the browser\<close>

lemma one_of_pages:
  assumes "page = page_A e \<or> page = page_B_opt e \<or> page = page_A_fs dirs e"
  shows "idle_page page" "one_button page"
  using assms idle_pages one_buttons by auto

text \<open>
  C22. A download, and an edit of a text area, lose the results. Each of them runs
  the script without the button of the form, and both scripts draw their results in
  the run of the submission only: the page then shows the title alone, no request was
  sent and no file was written, and there is nothing left to download or to edit.
  To download a second time the user has to submit the form again. What is typed
  into a text area of \<open>App1.py\<close> is read by no run.
\<close>

theorem rerun_loses_results:
  assumes "page = page_A e \<or> page = page_B_opt e \<or> page = page_A_fs dirs e"
    and "reruns a" "browser_step page b a = Some b'"
  shows "ui (shown b') = [St_title ''AI-Powered Presentation Creator''] \<and>
    requests (shown b') = requests (shown b) \<and> files (shown b') = files (shown b) \<and>
    received b' = received b @ (if a = Download then take 1 (buttons (ui (shown b))) else []) \<and>
    (\<forall>a'. reruns a' \<longrightarrow> browser_step page b' a' = None)"
proof -
  note idle = one_of_pages(1) [OF assms(1)]
  from rerun_clears(1) [OF idle assms(2,3)] rerun_disables [OF idle assms(2,3)]
  have "ui (shown b') = [St_title ''AI-Powered Presentation Creator''] \<and>
    requests (shown b') = requests (shown b) \<and> files (shown b') = files (shown b) \<and>
    (\<forall>a'. reruns a' \<longrightarrow> browser_step page b' a' = None)"
    by simp
  moreover from assms(2,3)
  have "received b' = received b @ (if a = Download then take 1 (buttons (ui (shown b))) else [])"
    by (cases a) (auto simp: idle_run [OF idle] split: list.splits if_splits)
  ultimately show ?thesis by simp
qed

theorem rerun_loses_results_witness:
  "browser_step (page_A \<lparr>api_key = None, service = (\<lambda>p. Inr ''text'')\<rparr>)
     \<lparr>title_field = ''Gen AI'', topics_field = ''A'',
       shown = \<lparr>ui = [St_download_button ''Download Presentation'' [] ''Gen_AI.pptx'' mime_pptx],
         requests = [], files = Map.empty\<rparr>,
       received = []\<rparr> Download =
   Some \<lparr>title_field = ''Gen AI'', topics_field = ''A'',
       shown = \<lparr>ui = [St_title ''AI-Powered Presentation Creator''],
         requests = [], files = Map.empty\<rparr>,
       received = [(''Gen_AI.pptx'', [])]\<rparr> \<and>
   browser_step (page_A \<lparr>api_key = None, service = (\<lambda>p. Inr ''text'')\<rparr>)
     \<lparr>title_field = ''Gen AI'', topics_field = ''A'',
       shown = \<lparr>ui = [St_title ''AI-Powered Presentation Creator''],
         requests = [], files = Map.empty\<rparr>,
       received = [(''Gen_AI.pptx'', [])]\<rparr> Download = None"
proof -
  let ?e = "\<lparr>api_key = None, service = (\<lambda>p. Inr ''text'')\<rparr>"
  let ?b = "\<lparr>title_field = ''Gen AI'', topics_field = ''A'',
       shown = \<lparr>ui = [St_download_button ''Download Presentation'' [] ''Gen_AI.pptx'' mime_pptx],
         requests = [], files = Map.empty\<rparr>,
       received = []\<rparr> :: presentation browser"
  let ?b' = "\<lparr>title_field = ''Gen AI'', topics_field = ''A'',
       shown = \<lparr>ui = [St_title ''AI-Powered Presentation Creator''],
         requests = [], files = Map.empty\<rparr>,
       received = [(''Gen_AI.pptx'', [])]\<rparr> :: presentation browser"
  have s: "browser_step (page_A ?e) ?b Download = Some ?b'"
    by (simp add: idle_run [OF idle_page_A] title_only_def emit_def rerun_def)
  from rerun_loses_results [of "page_A ?e" ?e "\<lambda>d. False" Download ?b ?b', OF _ _ s]
  have "browser_step (page_A ?e) ?b' Download = None" by simp
  with s show ?thesis by simp
qed

text \<open>
  C23. The decks a user of \<open>App.py\<close> receives. Whatever the user does at the page,
  starting from a directory of well-formed decks, every file received is a well-formed
  deck under the file name of its title, and so is every file in the directory. This
  holds also when saves can fail.
\<close>

theorem received_decks_stored:
  assumes "page = page_A e \<or> page = page_A_fs dirs e"
    and "files_ok w" "open_page page w = Some b0" "browser_run page b0 as = Some b"
  shows "list_all (\<lambda>(name, prs). stored_ok name prs) (received b) \<and> files_ok (shown b)"
proof -
  from assms(1) have "idle_page page" "stores page"
    using idle_pages stores_A stores_A_fs by auto
  from browser_ok_run [OF this browser_ok_open [OF this(1) assms(2,3)] assms(4)]
  show ?thesis by (simp add: browser_ok_def)
qed

theorem received_decks_stored_witness:
  "stored_ok ''Gen_AI.pptx'' (deck_A ''Gen AI'' [''A''] ''text'')"
proof (cases rule: visit_A)
  case (visited b)
  from received_decks_stored [where e = visitor_env and dirs = "\<lambda>d. False",
      OF _ files_ok_empty visited(1,2)] visited(3)
  show ?thesis by simp
qed

text \<open>
  C24. A download for each submission, at most. From the opening of the page on, the
  user has received no more files than the form was submitted: a button is drawn by a
  run of a submission only, and the first use of it removes it.
\<close>

theorem downloads_cost_submits:
  assumes "page = page_A e \<or> page = page_B_opt e \<or> page = page_A_fs dirs e"
    and "open_page page w = Some b0" "browser_run page b0 as = Some b"
  shows "length (received b) \<le> length (filter (\<lambda>a. a = Submit) as)"
proof -
  note p = one_of_pages [OF assms(1)]
  from assms(2) have "received b0 = []" "buttons (ui (shown b0)) = []"
    by (auto simp: open_page_idle [OF p(1)])
  with browser_run_budget [OF p assms(3)] show ?thesis by simp
qed

theorem downloads_cost_submits_witness:
  "length [(''Gen_AI.pptx'', deck_A ''Gen AI'' [''A''] ''text'')] \<le>
     length (filter (\<lambda>a. a = Submit) visit)"
proof (cases rule: visit_A)
  case (visited b)
  from downloads_cost_submits [where e = visitor_env and dirs = "\<lambda>d. False", OF _ visited(1,2)]
    visited(3)
  show ?thesis by simp
qed

text \<open>
  C21. What the service is asked. The requests of a visit are the prompts of the
  forms that were submitted with a topic while there was a key, in their order, each
  made of what was in the fields when the button was pressed. Typing, downloading
  and editing send nothing, and a run whose save fails has sent its request.
\<close>

theorem browser_requests:
  assumes "open_page page w = Some b0" "browser_run page b0 as = Some b"
  shows "(page = page_A e \<or> page = page_A_fs dirs e \<longrightarrow>
      requests (shown b) = requests w @
        prompts_A e (submitted (form_title default_form) (form_topics default_form) as)) \<and>
    (page = page_B_opt e \<longrightarrow>
      requests (shown b) = requests w @
        prompts_B e (submitted (form_title default_form) (form_topics default_form) as))"
proof -
  have "requests (shown b) = requests w @
      concat (map ask (submitted (form_title default_form) (form_topics default_form) as))"
    if "idle_page page" "asks page ask" for ask
    using browser_run_requests [OF that assms(2)] assms(1) by (auto simp: open_page_idle [OF that(1)])
  note r = this
  show ?thesis
  proof (intro conjI impI)
    assume "page = page_A e \<or> page = page_A_fs dirs e"
    then have "idle_page page" "asks page (\<lambda>f. prompts_A e [f])"
      using idle_pages asks_A asks_A_fs by auto
    from r [OF this] show "requests (shown b) = requests w @
        prompts_A e (submitted (form_title default_form) (form_topics default_form) as)"
      by (simp add: concat_prompts)
  next
    assume "page = page_B_opt e"
    then have "idle_page page" "asks page (\<lambda>f. prompts_B e [f])"
      using idle_pages asks_B by auto
    from r [OF this] show "requests (shown b) = requests w @
        prompts_B e (submitted (form_title default_form) (form_topics default_form) as)"
      by (simp add: concat_prompts)
  qed
qed

theorem browser_requests_witness:
  "[prompt_A ''Gen AI'' [''A'']] =
     prompts_A visitor_env
       (submitted ''Gen AI'' ''Introduction to GenAI\<newline>Applications of GenAI'' visit)"
proof (cases rule: visit_A)
  case (visited b)
  from browser_requests [where e = visitor_env and dirs = "\<lambda>d. False", OF visited(1,2)]
    visited(4)
  show ?thesis by (simp add: default_form_def empty_world_def)
qed

end
