(* ===== verification/Spec2Isabelle.thy ===== *)
theory Spec2Isabelle
  imports Segmenter Loop_Steps Markers Slide_Parser Assembler_A Assembler_B App_Flow
    Startup Sessions Answer_Format Word_Wrap Shared_Files Py_Regex Save_Errors Browser
begin

text \<open>
  A verification development for the presentation generator of this repository: two
  Streamlit scripts, \<open>src/PPT_GENERATOR/App.py\<close> (variant A) and
  \<open>src/PPT_GENERATOR/App1.py\<close> (variant B), that ask a text-generation service for
  the text of a slide deck, cut the text into slide-sized pieces and write the pieces
  into a deck with \<open>python-pptx\<close>.

  \<^bold>\<open>The program.\<close> Control flow is linear: the form collects a title and topics, one
  request is sent, the answer is segmented, the deck is assembled and offered for
  download. Variant A cuts the answer into chunks of at most 900 characters
  (\<open>split_content\<close>) and makes the same chunks into slides for every topic
  (\<open>create_presentation\<close>, which also saves the file). Variant B looks for \<open>Slide n:\<close>
  markers (\<open>split_into_slides\<close>), removes \<open>**\<close> (\<open>remove_double_asteris\<close>), parses each
  piece into number, heading and points (\<open>process_slide_title\<close>) and makes one slide
  per piece (\<open>generate_ppt\<close>).

  \<^bold>\<open>The theories\<close>, in the order of their imports.
  \<^item> \<open>Py_Prelude\<close>: the lemma collections \<open>py_unfold\<close>, \<open>py_length\<close>, \<open>py_keep\<close>, the
    type \<open>pystr\<close>, and program-independent list facts (\<open>rdropWhile\<close>, \<open>find_last\<close>).
  \<^item> \<open>Py_String\<close>: the \<open>str\<close> methods the scripts call (\<open>strip\<close>, slices, \<open>rfind\<close>,
    \<open>split\<close>, \<open>join\<close>, \<open>replace\<close>, \<open>startswith\<close>) as executable functions on
    character lists, with their algebra.
  \<^item> \<open>Py_Format\<close>: what the f-strings print, \<open>str\<close> of the slide counter (\<open>str_nat\<close>)
    and \<open>repr\<close> of the list of topics (\<open>repr_list\<close>).
  \<^item> \<open>Runtime\<close>: the interface of the components. \<open>env\<close> is the configuration
    (\<open>GEMINI_API_KEY\<close> and the service as a function from the prompt to a text or to
    the message of an exception); \<open>world\<close> is what a run leaves behind: the calls to
    Streamlit in order (\<open>ui\<close>, a list of \<open>ui_event\<close>), the prompts sent (\<open>requests\<close>)
    and the files written (\<open>files\<close>). The type of a deck is a parameter of \<open>world\<close>.
    Exceptions are the values of \<open>py_error\<close>.
  \<^item> \<open>Startup\<close>: the first statements of both scripts, \<open>load_dotenv\<close>, \<open>os.getenv\<close>
    and the configuration of the client, on the environment of the process and the
    variables of the file \<open>.env\<close> as maps; \<open>startup\<close> gives the \<open>env\<close> of the run.
  \<^item> \<open>Requester\<close>: \<open>generate_content\<close> of both scripts (\<open>generate_content1\<close> is the
    one of \<open>App1.py\<close>), with the shared \<open>try\<close> block as \<open>call_service\<close>.
  \<^item> \<open>Deck\<close>: the objects of \<open>python-pptx\<close> as records (\<open>slide\<close>, \<open>text_paragraph\<close>,
    \<open>run\<close>) and the operations the scripts call on them, from the documentation of
    the library.
  \<^item> \<open>Segmenter\<close>: \<open>split_content\<close> of \<open>App.py\<close>. The \<open>while\<close> loop is the partial
    function \<open>split_loop\<close> (an accumulator for \<open>chunks\<close>, the remaining \<open>content\<close>,
    the bound as a Python integer); \<open>split_chunks\<close> is the same computation as a total
    function for a positive bound, and \<open>segmentation\<close> is the contract.
  \<^item> \<open>Word_Wrap\<close>: what \<open>split_content\<close> computes, said without indices. \<open>chop\<close>
    cuts a list into pieces of a fixed length and \<open>fill\<close> sets words into lines; they
    are reference definitions, not translations of code, and \<open>split_content\<close> is
    shown to compute them on a text without whitespace and on words with one space
    between each two (\<open>word\<close>: a non-empty string without whitespace).
  \<^item> \<open>Loop_Steps\<close>: the same loop as a transition system: the record \<open>loop_state\<close>
    holds \<open>chunks\<close> and \<open>content\<close>, \<open>finished\<close> is the negated guard, \<open>next_state\<close> the
    body, and \<open>step\<close> the inductive relation of one iteration; \<open>split_while\<close> is
    the loop with \<open>while_option\<close> of \<open>HOL-Library.While_Combinator\<close>.
  \<^item> \<open>Markers\<close>: \<open>split_into_slides\<close> and \<open>remove_double_asteris\<close> of \<open>App1.py\<close>; the
    regular expression is the matcher \<open>match_marker\<close>, \<open>lookahead\<close>, \<open>lazy_body\<close>, and
    \<open>findall\<close> is the total function \<open>findall_slides\<close>.
  \<^item> \<open>Slide_Parser\<close>: \<open>process_slide_title\<close> of \<open>App1.py\<close>, with \<open>re.match\<close> as
    \<open>match_header\<close>.
  \<^item> \<open>Py_Regex\<close>: the two patterns of \<open>App1.py\<close> as values of the datatype \<open>rx\<close>
    (\<open>slide_pattern\<close>, \<open>header_pattern\<close>) and the functions \<open>re.match\<close> and
    \<open>re.findall\<close> over a backtracking matcher with continuations (\<open>bt\<close>, with
    \<open>greedy\<close> and \<open>lazy\<close> for the repetitions), from the documentation of \<open>re\<close>;
    \<open>rx_match\<close> is the relation between a pattern and the texts it matches.
  \<^item> \<open>Assembler_A\<close>: \<open>set_font_size\<close> and \<open>create_presentation\<close> of \<open>App.py\<close>; the
    loop over the topics is \<open>topic_loop\<close>, and \<open>deck_A\<close> is the deck that is meant.
  \<^item> \<open>Assembler_B\<close>: \<open>create_presentation\<close> of \<open>App1.py\<close> (\<open>create_presentation1\<close>) and
    \<open>generate_ppt\<close>, whose loop is \<open>ppt_loop\<close>.
  \<^item> \<open>App_Flow\<close>: the page of each script from \<open>st.title\<close> to the download button
    (\<open>app\<close>, \<open>app1\<close>) on the values of the form, with \<open>parse_topics\<close>.
  \<^item> \<open>Save_Errors\<close>: \<open>create_presentation\<close> and the page of \<open>App.py\<close> once more, with a
    \<open>prs.save\<close> that raises \<open>FileNotFoundError\<close> when the directory of the file name
    does not exist (\<open>create_presentation_fs\<close>, \<open>app_fs\<close>, \<open>prs_save\<close>); the directories
    that exist are a predicate on paths (\<open>disk\<close>).
  \<^item> \<open>Sessions\<close>: several interactions with a page. Streamlit runs the script anew
    for each interaction: \<open>page_A\<close> and \<open>page_B\<close> are one run on a cleared page
    (\<open>rerun\<close>) as a step on the world, \<open>session_A\<close> and \<open>session_B\<close> run a list of
    forms, and \<open>reachable_A\<close>, \<open>reachable_B\<close> are the worlds that come about.
  \<^item> \<open>Browser\<close>: the user at the page. \<open>action\<close> is what the user can do (type into
    a field of the form, submit it, use a download button, type into a text area),
    \<open>browser\<close> holds the fields, the page and the files received, and \<open>browser_step\<close>
    is one action over a page, which is \<open>page_A\<close>, \<open>page_B_opt\<close> or \<open>page_A_fs\<close>. The
    lemmas about steps and runs of actions are stated for any page with the
    properties \<open>idle_page\<close>, \<open>one_button\<close>, \<open>asks\<close>, \<open>draws\<close> and \<open>stores\<close>, which
    the three pages are shown to have.
  \<^item> \<open>Shared_Files\<close>: the runs of several users of \<open>App.py\<close> on one file system. A
    run is two atomic parts, \<open>app_make\<close> (the script up to the return of
    \<open>create_presentation\<close>, \<open>prs.save\<close> included) and \<open>app_offer\<close> (from the success
    message on, \<open>open\<close> included), which after one another are \<open>app\<close>
    (\<open>app_parts\<close>). A \<open>thread\<close> has a form, a \<open>phase\<close> and a page; \<open>conc_step\<close> is the
    inductive relation in which one thread does its next part on the shared files, and
    \<open>run_schedule\<close> executes a schedule.
  \<^item> \<open>Answer_Format\<close>: the text \<open>App1.py\<close> expects from the service. An outline
    (number, heading and points of each slide) is written down by \<open>render_answer\<close>
    in the format of the markers, with plain or bold headings, and followed through
    segmenter, parser and assembler; \<open>matches_of\<close> and \<open>fragments\<close> are what the
    pattern matches and what \<open>remove_double_asteris\<close> returns.
  \<^item> This theory: whole runs of \<open>App1.py\<close> from the answer of the service to the
    page and the deck, across requester, segmenter, parser and assembler, and the
    slides \<open>App.py\<close> makes of an answer of words.

  \<^bold>\<open>What is shown.\<close>
  \<^item> Segmenter: for a positive bound the loop ends (C1), no chunk exceeds the bound
    (C2), the chunks hold the text in order with only whitespace left out (C3), which
    together is the contract \<open>segmentation\<close> (C28); only the first and the last chunk
    can be empty (\<open>split_content_empty_chunks\<close>); a chunk that is followed by another one is shorter than the
    bound or is a whole window without a space (C29); the first cut is at the last
    space of the window or at the bound, and later chunks are stripped remainders
    (\<open>split_content_first_cut\<close>, \<open>split_content_stripped\<close>). For a bound below 1 the
    loop does not return on a text with a character other than whitespace (C31).
  \<^item> Segmenter on ordinary text: on words with one space between each two
    \<open>split_content\<close> returns the lines of the reference definition \<open>fill\<close> (C4),
    which are as long as the window of the bound less one allows (\<open>split_content_greedy\<close>) and, when no
    word is longer than the bound, are the text again when joined with spaces (C30);
    a text without whitespace is chopped into pieces of the length of the bound
    (\<open>split_content_chop\<close>). In a run of \<open>App.py\<close> the lines of \<open>fill 900\<close> are the bodies of the slides
    of each topic (C18).
  \<^item> Loop of the segmenter: \<open>split_loop\<close> returns exactly the results of the finished
    states the transition system reaches (\<open>split_loop_iff_steps\<close>); every reachable state satisfies the
    invariant of the loop (\<open>steps_invariant\<close>); for a positive bound the transitions are well
    founded and a finished state is reached from every state (\<open>steps_terminate\<close>); the loop written
    with \<open>while_option\<close> is \<open>split_content\<close> (\<open>split_while_split_content\<close>).
  \<^item> Marker segmenter: one fragment per marker (C5); the matches tile the text from
    its first marker on (\<open>split_into_slides_tiles\<close>); \<open>remove_double_asteris\<close> undoes
    the \<open>**\<close> put in front (C10), leaves no \<open>**\<close> and keeps every character that is
    not an asterisk (C11); every match loses its last two characters (C32).
  \<^item> Slide parser: every result is well formed (C6); \<open>None\<close> exactly when there is no
    newline or the first line does not match (\<open>process_slide_title_None_iff\<close>); a header line and a body are
    parsed into number, title and points (\<open>process_slide_title_parses\<close>); bullets
    are read back (\<open>points_of_roundtrip\<close>).
  \<^item> Regular expressions: \<open>findall\<close> with the pattern of the markers, computed by
    the backtracking matcher, has a result for every text and gives the fragments of
    \<open>split_into_slides\<close> (C12); \<open>re.match\<close> with the pattern of the header fails
    exactly when \<open>match_header\<close> does and has its two groups (C13). The matcher goes
    on only behind a text of the pattern (\<open>bt_sound\<close>, \<open>re_match_sound\<close>) and finds
    a match wherever there is one (\<open>bt_complete\<close>, \<open>re_match_complete\<close>).
  \<^item> Start: the run has no key exactly when the variable is empty in the process, or
    not set there and empty or not set in the file (C39).
  \<^item> Requester: without a key the error sentence and no request
    (\<open>generate_content_missing_key\<close>); every failure
    has the prefix \<open>Error\<close>, which a successful answer can have too (\<open>generate_content_error_prefix\<close>).
  \<^item> Formatting: \<open>repr\<close> of a string is read back by \<open>read_repr\<close>, so the prompt of
    \<open>App.py\<close> determines the title and the list of topics (\<open>prompt_A_inject\<close>); the prompt of
    \<open>App1.py\<close> does not (\<open>prompt_B_ambiguous\<close>).
  \<^item> Assembler of \<open>App.py\<close>: \<open>create_presentation\<close> always returns
    (\<open>create_presentation_total\<close>) and implements \<open>deck_A\<close> (C7), which gives the number
    of slides (\<open>create_presentation_slide_count\<close>); the deck is well formed
    (C34); a deck is saved even without a key (C35); all topics get the same bodies
    (C40); levels 0 and 3 (\<open>topic_slides_levels\<close>); one request and two events per topic, the file name
    and \<open>set_font_size\<close> (\<open>create_presentation_world\<close>, \<open>create_presentation_file\<close>,
    \<open>set_font_size_runs\<close>); the assignment to \<open>paragraph.bullet\<close> changes nothing
    (\<open>bullet_assignment_idle\<close>).
  \<^item> Assembler of \<open>App1.py\<close>: \<open>generate_ppt\<close> raises \<open>TypeError\<close> exactly on a fragment
    the parser rejects (C8) and otherwise returns one slide per fragment
    (\<open>generate_ppt_deck\<close>);
    \<open>create_presentation1\<close> returns a string exactly for a text that starts with
    \<open>Error\<close> (C36).
  \<^item> Page: the topics are clean (\<open>parse_topics_clean\<close>) and are read back
    (\<open>parse_topics_roundtrip\<close>); with no topic both
    scripts stop after one error (\<open>app_no_topics\<close>); a run of \<open>App.py\<close> always ends with the
    download of a well-formed deck (C37); a run of \<open>App1.py\<close> without a key ends after
    two errors (\<open>app1_missing_key\<close>), with a text the parser accepts ends with the download of one
    slide per marker (C9), and with a fragment the parser rejects ends with
    \<open>TypeError\<close> after the success message (C33). An answer without a marker gives
    a deck without slides (\<open>app1_no_markers\<close>).
  \<^item> Save that fails: a run of \<open>App.py\<close> raises exactly when the form was submitted
    with a topic and the directory of the file name does not exist; the exception is
    \<open>FileNotFoundError\<close>, and by then the request was made and the text was shown
    (C14). Whenever the file can be created, as for every title without a slash, the
    run is the run \<open>app\<close> of the other theories (C15). The directory of the file name
    is the directory of the title with its spaces replaced (\<open>parent_dir_file_name_A\<close>).
  \<^item> Answer in the format of the markers: a well-formed outline, written with plain or
    bold headings, an empty line after each slide and a newline at the end, after any
    introduction without a marker, comes out as the deck with its slides (C16), and
    the whole run of \<open>App1.py\<close> on it is the page with the text, the fragments and
    the download of that deck (C17). Headings and points may hold any text of one
    line without a marker and without \<open>**\<close>. With bold headings the cut of two
    characters takes the \<open>**\<close> that open the next heading (\<open>cut_removes_markup\<close>);
    at the end of the text it takes two characters of the last point unless an empty
    line and a newline follow (\<open>last_slide_cut\<close>).
  \<^item> Sessions (safety): every file a session of \<open>App.py\<close> leaves is a well-formed deck
    under the name of its title (C19), and a later deck with the same file name
    overwrites the earlier one (C38); a session of \<open>App1.py\<close> writes no file and no
    page of it shows an error together with a download (C20), which a page of
    \<open>App.py\<close> does when the requester fails (\<open>page_A_error_and_download\<close>); a
    session sends one request for each submitted form with a topic while there is a
    key, and no other (\<open>session_requests\<close>). The reachable worlds are the results of the sessions
    (\<open>reachable_A_iff_session\<close>, \<open>reachable_B_iff_session\<close>).
  \<^item> Browser: a download and an edit of a text area rerun the script without the
    button of the form, so the page shows the title alone afterwards and nothing is
    left to download or to edit (C22); every file a user of \<open>App.py\<close> receives is a
    well-formed deck under the file name of its title (C23); the user receives at
    most one file for each submission (C24); the requests of a visit are the prompts
    of the forms that were submitted, made of what was in the fields then (C21).
    After an answer the page of \<open>App1.py\<close> has a text area that can be edited
    (\<open>raw_content_editable\<close>), and every file its user receives is a deck that
    \<open>generate_ppt\<close> returned, under the file name of a title (\<open>received_decks_B\<close>).
  \<^item> Shared files: in every execution, whatever the schedule, a run that ended has
    ended without an exception and offers one deck, made by the run of some form for
    the same file name (C27); it is the deck of its own form when the file names of
    the forms differ (C25); with equal file names there is a schedule in which a user
    is offered the deck of another (C26). The executions are the schedules
    (\<open>run_steps\<close>, \<open>steps_run\<close>); a schedule is at most twice as long as the list of
    forms, and when no thread can move all have ended (\<open>schedule_bound\<close>,
    \<open>stuck_iff_ended\<close>); one thread alone is a run of \<open>app\<close> (\<open>thread_alone\<close>).

  \<^bold>\<open>Choices of the model.\<close> Strings are lists of \<^typ>\<open>char\<close>, read as the code points
  0 to 255; on these \<open>str.isspace\<close>, the digit class of \<open>re\<close> and the printable
  characters of \<open>repr\<close> are what \<open>py_isspace\<close>, \<open>is_digit\<close> and \<open>py_printable\<close> say.
  Python integers are \<^typ>\<open>int\<close>. No fuel is used: the one loop that may not end is a
  \<^theory_text>\<open>partial_function\<close> in the option monad, where not returning is \<open>None\<close>, and its
  termination for a positive bound is a theorem; the functions that call it return
  an option for this reason and are shown to return. A function that can raise
  returns \<open>py_error + 'a\<close> with the exception on the left. The objects of a deck are
  values: the scripts only change the slide they added last, so a slide is built
  and then appended. The service is a function of the prompt, so a run can ask it
  once for each prompt; both scripts send one prompt per run. Between the runs of a
  session the file system and the list of requests stay and the page is cleared;
  the session state of Streamlit is not used by the scripts. Of the widgets the model
  keeps what changes a run: the fields of a form reach the script on submission
  only, every other widget reruns the script without the button of the form, and
  the data of a download button is read when the button is drawn. Runs of different users
  are interleaved at two points only, before \<open>create_presentation\<close> is called and
  after it has returned: the computation between them touches nothing shared but the
  file it saves, and \<open>prs.save\<close> is taken to write the whole file at once. In
  \<open>Assembler_A\<close>, \<open>App_Flow\<close>, \<open>Sessions\<close> and \<open>Shared_Files\<close> the save succeeds;
  \<open>Save_Errors\<close> lets it fail and shows that the two models agree on every title
  without a slash. The
  theories \<open>Markers\<close> and \<open>Slide_Parser\<close> work with functions written for the two
  patterns; \<open>Py_Regex\<close> gives the patterns themselves a semantics, the order of
  attempts of a backtracking matcher, and shows that the functions are what it
  computes.

  \<^bold>\<open>Not modelled.\<close> Of \<open>re\<close>: the constructs and flags the two patterns do not use,
  the rule of \<open>findall\<close> for an empty match (\<open>re_findall\<close> is \<open>None\<close> there, which the
  pattern of the markers never reaches) and its tuples for several groups. The syntax of the file \<open>.env\<close>, the transport of the request, the
  rendering of the widgets and the transfer of the download, and the file format
  written by \<open>python-pptx\<close> are library code outside \<open>src/\<close>. The import statements
  have no counterpart. Of the library the model keeps what the scripts observe: for the deck the slides, their
  texts, sizes, levels and alignments; for the page the calls in their order; for
  the file system the deck stored under a name and, in theory \<open>Save_Errors\<close>, the
  directories that exist; permissions, links and the length of names are not modelled, and outside
  that theory the save always succeeds.
\<close>

section \<open>The pipeline of \<open>App1.py\<close>\<close>

text \<open>
  What \<open>create_presentation1\<close> returns when the service answers with a text that
  does not start with \<open>Error\<close>.
\<close>

lemma create_presentation1_answer:
  assumes "\<not> key_missing e" "service e (prompt_B title topics) = Inr content"
    "\<not> startswith content ''Error''"
  shows "create_presentation1 e title topics w =
    (Inr (remove_double_asteris (split_into_slides content)),
     emit (St_text_area ''raw content'' content 200) (send (prompt_B title topics) w))"
  using assms by (simp add: create_presentation1_def generate_content1_def call_service_def)

text \<open>
  C9. Segmenter, parser and assembler of \<open>App1.py\<close> together: when the service
  answers with a text whose fragments are all accepted by the parser, the run ends
  with the download button, and the deck it offers has one slide for each marker of
  the text, titled with the number and the heading of its fragment. No file is
  written.
\<close>

theorem app1_delivers:
  assumes "form_submit f" "parse_topics (form_topics f) = topics" "topics \<noteq> []"
    and "\<not> key_missing e" "service e (prompt_B (form_title f) topics) = Inr content"
    and "\<not> startswith content ''Error''"
    and "map process_slide_title (remove_double_asteris (split_into_slides content)) = map Some rs"
  shows "\<exists>w' prs. app1 e f w = (None, w') \<and>
    last (ui w') = St_download_button ''Download PowerPoint Presentation'' prs
      (file_name_B (form_title f)) mime_pptx \<and>
    length prs = count_markers content \<and>
    map title_text prs = map (\<lambda>(no, title, content). no @ ''.'' @ title) rs \<and>
    map body_text prs = map (\<lambda>(no, title, content). content) rs \<and>
    requests w' = requests w @ [prompt_B (form_title f) topics] \<and> files w' = files w"
proof -
  let ?fragments = "remove_double_asteris (split_into_slides content)"
  from assms(7) have g: "generate_ppt ?fragments = Inr (map parsed_slide rs)"
    by (simp add: generate_ppt_those)
  from assms(7) have "length rs = length ?fragments"
    using length_map [of process_slide_title ?fragments] by simp
  then have n: "length rs = count_markers content"
    by (simp add: remove_double_asteris_def split_into_slides_def length_findall_slides)
  from app1_run [OF assms(1-3) create_presentation1_answer [OF assms(4-6)], of w] n
  show ?thesis
    by (auto simp: deliver_returns [OF g] simp del: append.simps)
qed

theorem app1_delivers_witness:
  "\<exists>w' prs. app1 \<lparr>api_key = Some ''k'',
         service = (\<lambda>p. Inr ''Slide 1: Intro\<newline>* a\<newline>* b\<newline>\<newline>Slide 2: End\<newline>* c\<newline>\<newline>\<newline>'')\<rparr>
       \<lparr>form_title = ''Gen AI'', form_topics = ''A\<newline>B'', form_submit = True\<rparr> empty_world = (None, w') \<and>
     last (ui w') = St_download_button ''Download PowerPoint Presentation'' prs
       ''Gen_AI_presentation.pptx'' mime_pptx \<and>
     length prs = 2 \<and>
     map title_text prs = [''1.Intro'', ''2.End''] \<and> map body_text prs = [''a, b'', ''c''] \<and>
     requests w' = [''Generate ppt for the topic: A, B under title Gen AI''] \<and>
     files w' = Map.empty"
proof -
  have "parse_topics ''A\<newline>B'' = [''A'', ''B'']"
    by (simp add: parse_topics_def parser_eval)
  moreover have "map process_slide_title (remove_double_asteris (split_into_slides
      ''Slide 1: Intro\<newline>* a\<newline>* b\<newline>\<newline>Slide 2: End\<newline>* c\<newline>\<newline>\<newline>'')) =
      map Some [(''1'', ''Intro'', ''a, b''), (''2'', ''End'', ''c'')]"
    by (simp add: assembler1_eval)
  ultimately show ?thesis
    using app1_delivers [of "\<lparr>form_title = ''Gen AI'', form_topics = ''A\<newline>B'', form_submit = True\<rparr>"
      "[''A'', ''B'']"
      "\<lparr>api_key = Some ''k'',
        service = (\<lambda>p. Inr ''Slide 1: Intro\<newline>* a\<newline>* b\<newline>\<newline>Slide 2: End\<newline>* c\<newline>\<newline>\<newline>'')\<rparr>"
      "''Slide 1: Intro\<newline>* a\<newline>* b\<newline>\<newline>Slide 2: End\<newline>* c\<newline>\<newline>\<newline>''"
      "[(''1'', ''Intro'', ''a, b''), (''2'', ''End'', ''c'')]" empty_world]
    by (simp add: key_missing_def prompt_B_def file_name_B_def slides_eval numeral_2_eq_2)
qed

text \<open>
  C33. A fragment that the marker segmenter returns and the parser does not accept
  ends the run with \<open>TypeError\<close>: the text and the success message have been shown,
  no deck is offered. A last slide that has its heading only is such a fragment.
\<close>

theorem app1_raises:
  assumes "form_submit f" "parse_topics (form_topics f) = topics" "topics \<noteq> []"
    and "\<not> key_missing e" "service e (prompt_B (form_title f) topics) = Inr content"
    and "\<not> startswith content ''Error''"
    and "\<exists>fragment\<in>set (remove_double_asteris (split_into_slides content)).
           process_slide_title fragment = None"
  shows "\<exists>w'. app1 e f w = (Some TypeError, w') \<and>
    ui w' = ui w @ [St_title ''AI-Powered Presentation Creator'',
      St_info ''Generating your presentation. Please wait...'',
      St_text_area ''raw content'' content 200,
      St_success ''Presentation content generated successfully!'']"
proof -
  let ?fragments = "remove_double_asteris (split_into_slides content)"
  from assms(7) have "those (map process_slide_title ?fragments) = None"
    by (force simp: those_eq_None_iff)
  then have g: "generate_ppt ?fragments = Inl TypeError" by (simp add: generate_ppt_those)
  from app1_run [OF assms(1-3) create_presentation1_answer [OF assms(4-6)], of w]
  show ?thesis by (simp add: deliver_raises [OF g])
qed

theorem app1_raises_witness:
  "\<exists>w'. app1 \<lparr>api_key = Some ''k'', service = (\<lambda>p. Inr ''Slide 1: A\<newline>* x\<newline>Slide 2: Thanks'')\<rparr>
       \<lparr>form_title = ''Gen AI'', form_topics = ''A'', form_submit = True\<rparr> empty_world =
       (Some TypeError, w') \<and>
     ui w' = [St_title ''AI-Powered Presentation Creator'',
       St_info ''Generating your presentation. Please wait...'',
       St_text_area ''raw content'' ''Slide 1: A\<newline>* x\<newline>Slide 2: Thanks'' 200,
       St_success ''Presentation content generated successfully!'']"
proof -
  have "parse_topics ''A'' = [''A'']"
    by (simp add: parse_topics_def parser_eval)
  moreover have "remove_double_asteris (split_into_slides ''Slide 1: A\<newline>* x\<newline>Slide 2: Thanks'') =
      [''Slide 1: A\<newline>* '', ''Slide 2: Than'']"
    by (simp add: assembler1_eval)
  moreover have "process_slide_title ''Slide 2: Than'' = None"
    by (simp add: parser_eval)
  ultimately show ?thesis
    using app1_raises [of "\<lparr>form_title = ''Gen AI'', form_topics = ''A'', form_submit = True\<rparr>"
      "[''A'']" "\<lparr>api_key = Some ''k'', service = (\<lambda>p. Inr ''Slide 1: A\<newline>* x\<newline>Slide 2: Thanks'')\<rparr>"
      "''Slide 1: A\<newline>* x\<newline>Slide 2: Thanks''" empty_world]
    by (simp add: key_missing_def startswith_def prompt_B_def)
qed


text \<open>
  C17. A whole run of \<open>App1.py\<close> on an answer in the format of the markers: when
  the form was submitted with at least one topic, there is a key and the service
  answers with the text of an outline of well-formed slides, with plain or bold
  headings, after an introduction without a marker, the run sends the one request,
  shows the text, the success message and each fragment under its number, and ends
  with the download button for the deck that has the slides of the outline.
\<close>

theorem app1_outline:
  assumes "form_submit f" "parse_topics (form_topics f) = topics" "topics \<noteq> []"
    and "\<not> key_missing e"
    and "service e (prompt_B (form_title f) topics) = Inr (pre @ render_answer markup slides)"
    and "\<not> startswith (pre @ render_answer markup slides) ''Error''"
    and "list_all well_formed_outline slides" "markup = [] \<or> markup = ''**''"
      "count_markers pre = 0"
  shows "app1 e f w =
    (None,
     emit (St_download_button ''Download PowerPoint Presentation''
        (map parsed_slide (map parsed_outline slides)) (file_name_B (form_title f)) mime_pptx)
       (show_slides (fragments markup slides)
         (emit (St_success ''Presentation content generated successfully!'')
           (emit (St_text_area ''raw content'' (pre @ render_answer markup slides) 200)
             (send (prompt_B (form_title f) topics) (started w))))))"
  using app1_run [OF assms(1-3) create_presentation1_answer [OF assms(4-6)], of w]
    deliver_returns [OF generate_ppt_render_answer [OF assms(7-9)]]
  by (simp add: fragments_render_answer [OF assms(7-9)])

theorem app1_outline_witness:
  "app1 \<lparr>api_key = Some ''k'',
        service = (\<lambda>p. Inr (''Sure.\<newline>'' @ render_answer ''**''
          [(''1'', ''Intro'', [''a'', ''b'']), (''2'', ''End'', [''c''])]))\<rparr>
     \<lparr>form_title = ''Gen AI'', form_topics = ''A'', form_submit = True\<rparr> empty_world =
   (None,
    emit (St_download_button ''Download PowerPoint Presentation''
       [parsed_slide (''1'', ''Intro'', ''a, b''), parsed_slide (''2'', ''End'', ''c'')]
       ''Gen_AI_presentation.pptx'' mime_pptx)
      (show_slides [fragment_of (''1'', ''Intro'', [''a'', ''b'']) @ [newline, newline],
           fragment_of (''2'', ''End'', [''c''])]
        (emit (St_success ''Presentation content generated successfully!'')
          (emit (St_text_area ''raw content''
               (''Sure.\<newline>'' @ render_answer ''**''
                  [(''1'', ''Intro'', [''a'', ''b'']), (''2'', ''End'', [''c''])]) 200)
            (send ''Generate ppt for the topic: A under title Gen AI''
              (started empty_world))))))"
proof -
  have "parse_topics ''A'' = [''A'']"
    by (simp add: parse_topics_def parser_eval)
  then show ?thesis
    using app1_outline [of "\<lparr>form_title = ''Gen AI'', form_topics = ''A'', form_submit = True\<rparr>"
      "[''A'']" "\<lparr>api_key = Some ''k'',
        service = (\<lambda>p. Inr (''Sure.\<newline>'' @ render_answer ''**''
          [(''1'', ''Intro'', [''a'', ''b'']), (''2'', ''End'', [''c''])]))\<rparr>"
      "''Sure.\<newline>''" "''**''" "[(''1'', ''Intro'', [''a'', ''b'']), (''2'', ''End'', [''c''])]"
      empty_world]
    by (simp add: key_missing_def prompt_B_def file_name_B_def parsed_outline_def
          well_formed_outline_def inline_text_def clean_point_def startswith_def py_unfold)
qed

text \<open>
  An answer without a marker: there is no fragment, \<open>generate_ppt\<close> returns the
  presentation as it was created, and the run offers a deck without slides after the
  success message. The deck of \<open>App1.py\<close> has no title slide in any case.
\<close>

lemma app1_no_markers:
  assumes "form_submit f" "parse_topics (form_topics f) = topics" "topics \<noteq> []"
    and "\<not> key_missing e" "service e (prompt_B (form_title f) topics) = Inr content"
    and "\<not> startswith content ''Error''" "count_markers content = 0"
  shows "app1 e f w =
    (None,
     emit (St_download_button ''Download PowerPoint Presentation'' []
        (file_name_B (form_title f)) mime_pptx)
       (emit (St_success ''Presentation content generated successfully!'')
         (emit (St_text_area ''raw content'' content 200)
           (send (prompt_B (form_title f) topics) (started w)))))"
proof -
  from assms(7) have "remove_double_asteris (split_into_slides content) = []"
    by (simp add: remove_double_asteris_def split_into_slides_def findall_slides_no_marker)
  moreover have "generate_ppt [] = Inr []" by (simp add: generate_ppt_def Presentation_def)
  ultimately show ?thesis
    using app1_run [OF assms(1-3) create_presentation1_answer [OF assms(4-6)], of w]
    by (simp add: deliver_returns show_slides_def py_enumerate_def)
qed

section \<open>The slides of \<open>App.py\<close> for ordinary text\<close>

text \<open>
  C18. When the key is set and the service answers the prompt of \<open>create_presentation\<close>
  with words, one space between each two, the saved deck has behind its title slide, for
  each topic, one slide for each line of \<open>fill 900\<close> of the words, with the line as its
  body.
\<close>

theorem app_fills_slides:
  assumes "\<not> key_missing e" "service e (prompt_A title topics) = Inr (join '' '' ws)"
    "ws \<noteq> []" "list_all word ws"
  shows "\<exists>prs. saved_deck (create_presentation e title topics w) = Some prs \<and>
    map body_text prs = ''Generated by AI'' # concat (replicate (length topics) (fill 900 ws)) \<and>
    length prs = 1 + length topics * length (fill 900 ws)"
proof -
  from assms(1,2) have "content_A e title topics w = join '' '' ws" by (rule content_A_answer)
  with assms(3,4) show ?thesis
    by (simp add: saved_deck_create_presentation body_text_deck_A length_deck_A
        split_chunks_fill flip: content_A_def)
qed

theorem app_fills_slides_witness:
  "\<exists>prs. saved_deck (create_presentation
       \<lparr>api_key = Some ''k'', service = (\<lambda>p. Inr (join '' '' [''hello'', ''world'']))\<rparr>
       ''Gen AI'' [''A'', ''B''] empty_world) = Some prs \<and>
     map body_text prs = ''Generated by AI'' #
       concat (replicate (length [''A'', ''B'']) (fill 900 [''hello'', ''world''])) \<and>
     length prs = 1 + length [''A'', ''B''] * length (fill 900 [''hello'', ''world''])"
  using app_fills_slides
    [of "\<lparr>api_key = Some ''k'', service = (\<lambda>p. Inr (join '' '' [''hello'', ''world'']))\<rparr>"
        "''Gen AI''" "[''A'', ''B'']" "[''hello'', ''world'']" empty_world]
  by (simp add: key_missing_def word_def py_isspace_def)

end
